(* ===== verification/Zvm_Prelude.thy ===== *)
theory Zvm_Prelude
  imports Main "HOL-Library.Word" "HOL-Library.Monad_Syntax" "HOL-Library.Signed_Division"
begin

text \<open>
  Shared vocabulary of the development: the fixed-width integer types of the code, the
  64-bit limbs of a 256-bit word (the \<open>x[i]\<close> of \<open>intx::uint256\<close>), big-endian byte
  strings, slices of byte strings, and the lemma collections the components extend.

  Undefined behaviour of the C++ code (an access outside the stack space, outside the
  memory or outside the code buffer, a violated \<open>INTX_REQUIRE\<close>) is the value \<open>None\<close>
  of the option monad, so that every theorem that an operation returns \<open>Some\<close> result
  is also a theorem that the operation stays inside its buffers.
\<close>

unbundle bit_operations_syntax

section \<open>Types\<close>

type_synonym byte = "8 word"
type_synonym uint32 = "32 word"
type_synonym uint64 = "64 word"
type_synonym uint256 = "256 word"
type_synonym address = "160 word"
type_synonym bytes = "byte list"

named_theorems stack_simps \<open>equations of the StackTop operations inside the stack bounds\<close>
named_theorems core_defs \<open>definitions of the core instruction implementations\<close>
named_theorems mem_simps \<open>the memory operations on the abstract view of the memory\<close>
named_theorems table_simps \<open>evaluated entries of the instruction tables\<close>

section \<open>Conversions\<close>

text \<open>\<open>static_cast<size_t>(x)\<close> and \<open>static_cast<uint64_t>(x)\<close> keep the lowest limb.\<close>

definition limb :: "uint256 \<Rightarrow> nat \<Rightarrow> uint64" where
  "limb x i = ucast (drop_bit (64 * i) x)"

definition set_limb :: "uint256 \<Rightarrow> nat \<Rightarrow> uint64 \<Rightarrow> uint256" where
  "set_limb x i w =
     (x AND NOT (push_bit (64 * i) (ucast (- 1 :: uint64)))) OR push_bit (64 * i) (ucast w)"

definition to_size :: "uint256 \<Rightarrow> nat" where
  "to_size x = unat (limb x 0)"

lemma bit_limb: "bit (limb x i) n \<longleftrightarrow> n < 64 \<and> bit x (64 * i + n)"
  by (auto simp: limb_def bit_simps ac_simps dest: bit_imp_le_length)

lemma bit_set_limb:
  "i < 4 \<Longrightarrow> bit (set_limb x i w) n \<longleftrightarrow>
     n < 256 \<and> (if 64 * i \<le> n \<and> n < 64 * i + 64 then bit w (n - 64 * i) else bit x n)"
  by (auto simp: set_limb_def bit_simps dest: bit_imp_le_length)

lemma to_size_eq_mod: "to_size x = unat x mod 2 ^ 64"
  by (simp add: to_size_def limb_def unsigned_ucast_eq take_bit_eq_mod)

lemma to_size_small: "unat x < 2 ^ 64 \<Longrightarrow> to_size x = unat x"
  by (simp add: to_size_eq_mod)

lemma to_size_less: "to_size x < 2 ^ 64"
  by (simp add: to_size_eq_mod)

section \<open>Big-endian byte strings\<close>

text \<open>
  \<open>intx::be::load\<close> and \<open>intx::be::store\<close>: the bytes of an integer, most significant
  byte first.  \<open>be_load\<close> of a byte string shorter than the integer reads it as the lowest
  bytes; \<open>be_store n\<close> gives the \<open>n\<close> lowest bytes.
\<close>

definition be_load :: "bytes \<Rightarrow> 'a::len word" where
  "be_load bs = word_rcat bs"

definition be_store :: "nat \<Rightarrow> 'a::len word \<Rightarrow> bytes" where
  "be_store n x = map (\<lambda>i. ucast (drop_bit (8 * (n - 1 - i)) x)) [0..<n]"

lemma length_be_store [simp]: "length (be_store n x) = n"
  by (simp add: be_store_def)

lemma bit_be_load:
  "bit (be_load bs :: 'a::len word) n \<longleftrightarrow>
     n < LENGTH('a) \<and> n div 8 < length bs \<and> bit (bs ! (length bs - 1 - n div 8)) (n mod 8)"
  using bit_horner_sum_uint_exp_iff [of "rev bs" n]
  by (auto simp: be_load_def word_rcat_def rev_nth bit_simps)

lemma bit_be_store_nth:
  "i < n \<Longrightarrow> bit (be_store n x ! i) k \<longleftrightarrow> k < 8 \<and> bit x (8 * (n - 1 - i) + k)"
  by (auto simp: be_store_def bit_simps ac_simps dest: bit_imp_le_length)

lemma be_load_be_store:
  fixes x :: "'a::len word"
  assumes "LENGTH('a) = 8 * n"
  shows "be_load (be_store n x) = x"
proof (rule bit_word_eqI)
  fix k assume k: "k < LENGTH('a)"
  then have d: "k div 8 < n" using assms by auto
  then have "n - 1 - (n - 1 - k div 8) = k div 8" by simp
  with d k show "bit (be_load (be_store n x) :: 'a word) k \<longleftrightarrow> bit x k"
    by (simp add: bit_be_load bit_be_store_nth)
qed

section \<open>Slices of byte strings\<close>

text \<open>
  \<open>slice xs i n\<close> is a read of \<open>n\<close> consecutive elements of a buffer starting at index
  \<open>i\<close>, or \<open>None\<close> when the read leaves the buffer.
\<close>

definition slice :: "'a list \<Rightarrow> nat \<Rightarrow> nat \<Rightarrow> 'a list option" where
  "slice xs i n = (if i + n \<le> length xs then Some (take n (drop i xs)) else None)"

lemma slice_in: "i + n \<le> length xs \<Longrightarrow> slice xs i n = Some (take n (drop i xs))"
  by (simp add: slice_def)

lemma slice_SomeD: "slice xs i n = Some ys \<Longrightarrow> length ys = n"
  by (auto simp: slice_def split: if_splits)

lemma bind_Some_iff: "(m \<bind> f = Some y) \<longleftrightarrow> (\<exists>x. m = Some x \<and> f x = Some y)"
  by (cases m) auto

end
