(* ===== verification/Zvm_Memory.thy ===== *)
theory Zvm_Memory
  imports Zvm_Prelude
begin

text \<open>
  The ZVM memory: class \<open>Memory\<close> of \<open>lib/zvmone/execution_state.hpp\<close>, a byte buffer
  with a virtual size and a capacity that grows by reallocation.  The abstract memory is
  the list of its bytes up to the virtual size; the theory shows that growing appends
  zeros to it and that reads and writes inside the virtual size are the list operations,
  whatever the allocator leaves in the bytes it hands out.
\<close>

section \<open>The buffer\<close>

text \<open>
  \<open>m_data\<close> gives the byte at every offset of the buffer.  Two fields have no counterpart
  in the class: \<open>m_alloc\<close> is the size of the block that \<open>m_data\<close> points to, which only
  the allocator knows, and \<open>m_fresh\<close> is the content of the bytes it has not been asked to
  initialise, which is arbitrary.  Running out of memory (\<open>std::terminate\<close>) is not
  modelled: \<open>std::realloc\<close> succeeds.
\<close>

record memory =
  m_data :: "nat \<Rightarrow> byte"
  m_size :: nat
  m_capacity :: nat
  m_alloc :: nat
  m_fresh :: "nat \<Rightarrow> byte"

definition page_size :: nat where
  "page_size = 4 * 1024"

text \<open>\<open>std::realloc\<close> keeps the bytes of the old block that fit into the new one.\<close>

definition allocate_capacity :: "memory \<Rightarrow> memory" where
  "allocate_capacity m =
     m\<lparr>m_data := (\<lambda>i. if i < m_alloc m then m_data m i else m_fresh m i),
       m_alloc := m_capacity m\<rparr>"

definition memory_new :: "(nat \<Rightarrow> byte) \<Rightarrow> memory" where
  "memory_new fresh =
     allocate_capacity \<lparr>m_data = fresh, m_size = 0, m_capacity = page_size, m_alloc = 0,
       m_fresh = fresh\<rparr>"

text \<open>
  \<open>Memory::grow\<close>.  The two \<open>INTX_REQUIRE\<close> conditions are undefined behaviour when
  violated.
\<close>

definition grow :: "memory \<Rightarrow> nat \<Rightarrow> memory option" where
  "grow m new_size =
     (if new_size mod 32 \<noteq> 0 \<or> \<not> m_size m < new_size then None
      else
        let m1 = (if m_capacity m < new_size
                  then let cap = m_capacity m * 2;
                           cap' = (if cap < new_size
                                   then ((new_size + (page_size - 1)) div page_size) * page_size
                                   else cap)
                       in allocate_capacity (m\<lparr>m_capacity := cap'\<rparr>)
                  else m)
        in Some (m1\<lparr>m_data := (\<lambda>i. if m_size m1 \<le> i \<and> i < new_size then 0 else m_data m1 i),
                    m_size := new_size\<rparr>))"

definition mem_clear :: "memory \<Rightarrow> memory" where
  "mem_clear m = m\<lparr>m_size := 0\<rparr>"

text \<open>
  Reading and writing \<open>n\<close> bytes through \<open>operator[]\<close> (\<open>memcpy\<close>, \<open>memset\<close>,
  \<open>be::unsafe::load\<close> and \<open>store\<close> on \<open>&memory[off]\<close>).  An access that is not inside the
  virtual size is treated as undefined even where the capacity still covers it.
\<close>

definition mem_read :: "memory \<Rightarrow> nat \<Rightarrow> nat \<Rightarrow> bytes option" where
  "mem_read m off n =
     (if off + n \<le> m_size m then Some (map (m_data m) [off..<off + n]) else None)"

definition mem_write :: "memory \<Rightarrow> nat \<Rightarrow> bytes \<Rightarrow> memory option" where
  "mem_write m off bs =
     (if off + length bs \<le> m_size m
      then Some (m\<lparr>m_data := (\<lambda>i. if off \<le> i \<and> i < off + length bs then bs ! (i - off)
                                 else m_data m i)\<rparr>)
      else None)"

section \<open>Invariant and abstract view\<close>

definition mem_inv :: "memory \<Rightarrow> bool" where
  "mem_inv m \<longleftrightarrow> m_size m mod 32 = 0 \<and> m_size m \<le> m_capacity m \<and> m_alloc m = m_capacity m \<and>
     page_size \<le> m_capacity m"

definition mem_view :: "memory \<Rightarrow> bytes" where
  "mem_view m = map (m_data m) [0..<m_size m]"

lemma length_mem_view [simp]: "length (mem_view m) = m_size m"
  by (simp add: mem_view_def)

lemma mem_view_nth: "i < m_size m \<Longrightarrow> mem_view m ! i = m_data m i"
  by (simp add: mem_view_def)

lemma memory_new_inv: "mem_inv (memory_new fresh)"
  by (simp add: mem_inv_def memory_new_def allocate_capacity_def)

lemma memory_new_view: "mem_view (memory_new fresh) = []"
  by (simp add: mem_view_def memory_new_def allocate_capacity_def)

lemma mem_clear_inv: "mem_inv m \<Longrightarrow> mem_inv (mem_clear m)"
  by (simp add: mem_inv_def mem_clear_def)

lemma mem_clear_view: "mem_view (mem_clear m) = []"
  by (simp add: mem_view_def mem_clear_def)

subsection \<open>Growing\<close>

lemma round_up_page: "n \<le> ((n + (page_size - 1)) div page_size) * page_size"
  by (simp add: page_size_def)

lemma grow_size: "grow m n = Some m' \<Longrightarrow> m_size m' = n"
  by (auto simp: grow_def Let_def split: if_splits)

lemma grow_requires: "grow m n = Some m' \<Longrightarrow> n mod 32 = 0 \<and> m_size m < n"
  by (auto simp: grow_def split: if_splits)

lemma grow_defined: "n mod 32 = 0 \<Longrightarrow> m_size m < n \<Longrightarrow> \<exists>m'. grow m n = Some m'"
  by (simp add: grow_def Let_def)

lemma grow_inv:
  assumes "grow m n = Some m'" and "mem_inv m"
  shows "mem_inv m'"
proof -
  have "page_size \<le> ((n + (page_size - 1)) div page_size) * page_size" if "page_size \<le> n"
    using that round_up_page [of n] by linarith
  then show ?thesis
    using assms round_up_page [of n]
    by (auto simp: grow_def mem_inv_def allocate_capacity_def Let_def not_less split: if_splits)
qed

lemma grow_data:
  assumes "grow m n = Some m'" and "mem_inv m" and "i < n"
  shows "m_data m' i = (if i < m_size m then m_data m i else 0)"
  using assms
  by (auto simp: grow_def mem_inv_def allocate_capacity_def Let_def split: if_splits)

lemma grow_view:
  assumes "grow m n = Some m'" and "mem_inv m"
  shows "mem_view m' = mem_view m @ replicate (n - m_size m) 0"
proof (rule nth_equalityI)
  have lt: "m_size m < n" using grow_requires [OF assms(1)] by simp
  show "length (mem_view m') = length (mem_view m @ replicate (n - m_size m) 0)"
    using grow_size [OF assms(1)] lt by simp
  fix i assume "i < length (mem_view m')"
  then have "i < n" using grow_size [OF assms(1)] by simp
  then show "mem_view m' ! i = (mem_view m @ replicate (n - m_size m) 0) ! i"
    using grow_data [OF assms \<open>i < n\<close>] grow_size [OF assms(1)] lt
    by (auto simp: nth_append mem_view_nth)
qed

subsection \<open>Reading and writing\<close>

definition list_write :: "'a list \<Rightarrow> nat \<Rightarrow> 'a list \<Rightarrow> 'a list" where
  "list_write xs off ys = take off xs @ ys @ drop (off + length ys) xs"

lemma length_list_write:
  "off + length ys \<le> length xs \<Longrightarrow> length (list_write xs off ys) = length xs"
  by (simp add: list_write_def)

lemma nth_list_write:
  assumes "off + length ys \<le> length xs" and "i < length xs"
  shows "list_write xs off ys ! i =
    (if off \<le> i \<and> i < off + length ys then ys ! (i - off) else xs ! i)"
  using assms by (auto simp: list_write_def nth_append min_def)

lemma mem_read_view: "mem_read m off n = slice (mem_view m) off n"
proof (cases "off + n \<le> m_size m")
  case True
  have "map (m_data m) [off..<off + n] = take n (drop off (mem_view m))"
    using True by (simp add: mem_view_def drop_map take_map)
  then show ?thesis using True by (simp add: mem_read_def slice_def)
qed (simp add: mem_read_def slice_def)

lemma mem_read_in: "off + n \<le> m_size m \<Longrightarrow> \<exists>bs. mem_read m off n = Some bs \<and> length bs = n"
  by (simp add: mem_read_def)

lemma mem_write_in: "off + length bs \<le> m_size m \<Longrightarrow> \<exists>m'. mem_write m off bs = Some m'"
  by (simp add: mem_write_def)

lemma mem_write_size: "mem_write m off bs = Some m' \<Longrightarrow> m_size m' = m_size m"
  by (auto simp: mem_write_def split: if_splits)

lemma mem_write_inv: "mem_write m off bs = Some m' \<Longrightarrow> mem_inv m \<Longrightarrow> mem_inv m'"
  by (auto simp: mem_write_def mem_inv_def split: if_splits)

lemma mem_write_bounds: "mem_write m off bs = Some m' \<Longrightarrow> off + length bs \<le> m_size m"
  by (auto simp: mem_write_def split: if_splits)

lemma mem_write_view:
  assumes "mem_write m off bs = Some m'"
  shows "mem_view m' = list_write (mem_view m) off bs"
proof (rule nth_equalityI)
  have b: "off + length bs \<le> m_size m" by (rule mem_write_bounds [OF assms])
  then show "length (mem_view m') = length (list_write (mem_view m) off bs)"
    by (simp add: length_list_write mem_write_size [OF assms])
  fix i assume "i < length (mem_view m')"
  then have i: "i < m_size m" by (simp add: mem_write_size [OF assms])
  have "m_data m' i = (if off \<le> i \<and> i < off + length bs then bs ! (i - off) else m_data m i)"
    using assms by (auto simp: mem_write_def split: if_splits)
  then show "mem_view m' ! i = list_write (mem_view m) off bs ! i"
    using b i by (simp add: mem_view_nth nth_list_write mem_write_size [OF assms])
qed

lemma mem_read_write_same:
  assumes "mem_write m off bs = Some m'"
  shows "mem_read m' off (length bs) = Some bs"
proof -
  have "off + length bs \<le> m_size m" by (rule mem_write_bounds [OF assms])
  then show ?thesis
    by (simp add: mem_read_view mem_write_view [OF assms] slice_def length_list_write)
       (simp add: list_write_def)
qed

lemmas mem_view_simps [mem_simps] = mem_read_view mem_write_view grow_view memory_new_view
  mem_clear_view

end
