(* ===== verification/Zvm_Opcodes.thy ===== *)
theory Zvm_Opcodes
  imports Zvm_Prelude
begin

text \<open>
  The opcode enumeration (\<open>lib/zvmone/instructions_opcodes.hpp\<close>) and the X macro that
  ties every opcode to the identifier of its implementation
  (\<open>lib/zvmone/instructions_xmacro.hpp\<close>).  The interpreter loop of the baseline
  interpreter is generated from this macro twice, as the cases of a \<open>switch\<close> and as a
  jump table that is indexed by the opcode; \<open>MAP_OPCODES_index\<close> is the reason why both
  select the same implementation.
\<close>

section \<open>The opcodes\<close>

text \<open>\<open>enum Opcode\<close>: the values are used as table indices, so they are natural numbers below 256.\<close>

abbreviation (input) OP_STOP :: nat where "OP_STOP \<equiv> 0x00"
abbreviation (input) OP_ADD :: nat where "OP_ADD \<equiv> 0x01"
abbreviation (input) OP_MUL :: nat where "OP_MUL \<equiv> 0x02"
abbreviation (input) OP_SUB :: nat where "OP_SUB \<equiv> 0x03"
abbreviation (input) OP_DIV :: nat where "OP_DIV \<equiv> 0x04"
abbreviation (input) OP_SDIV :: nat where "OP_SDIV \<equiv> 0x05"
abbreviation (input) OP_MOD :: nat where "OP_MOD \<equiv> 0x06"
abbreviation (input) OP_SMOD :: nat where "OP_SMOD \<equiv> 0x07"
abbreviation (input) OP_ADDMOD :: nat where "OP_ADDMOD \<equiv> 0x08"
abbreviation (input) OP_MULMOD :: nat where "OP_MULMOD \<equiv> 0x09"
abbreviation (input) OP_EXP :: nat where "OP_EXP \<equiv> 0x0a"
abbreviation (input) OP_SIGNEXTEND :: nat where "OP_SIGNEXTEND \<equiv> 0x0b"
abbreviation (input) OP_LT :: nat where "OP_LT \<equiv> 0x10"
abbreviation (input) OP_GT :: nat where "OP_GT \<equiv> 0x11"
abbreviation (input) OP_SLT :: nat where "OP_SLT \<equiv> 0x12"
abbreviation (input) OP_SGT :: nat where "OP_SGT \<equiv> 0x13"
abbreviation (input) OP_EQ :: nat where "OP_EQ \<equiv> 0x14"
abbreviation (input) OP_ISZERO :: nat where "OP_ISZERO \<equiv> 0x15"
abbreviation (input) OP_AND :: nat where "OP_AND \<equiv> 0x16"
abbreviation (input) OP_OR :: nat where "OP_OR \<equiv> 0x17"
abbreviation (input) OP_XOR :: nat where "OP_XOR \<equiv> 0x18"
abbreviation (input) OP_NOT :: nat where "OP_NOT \<equiv> 0x19"
abbreviation (input) OP_BYTE :: nat where "OP_BYTE \<equiv> 0x1a"
abbreviation (input) OP_SHL :: nat where "OP_SHL \<equiv> 0x1b"
abbreviation (input) OP_SHR :: nat where "OP_SHR \<equiv> 0x1c"
abbreviation (input) OP_SAR :: nat where "OP_SAR \<equiv> 0x1d"
abbreviation (input) OP_KECCAK256 :: nat where "OP_KECCAK256 \<equiv> 0x20"
abbreviation (input) OP_ADDRESS :: nat where "OP_ADDRESS \<equiv> 0x30"
abbreviation (input) OP_BALANCE :: nat where "OP_BALANCE \<equiv> 0x31"
abbreviation (input) OP_ORIGIN :: nat where "OP_ORIGIN \<equiv> 0x32"
abbreviation (input) OP_CALLER :: nat where "OP_CALLER \<equiv> 0x33"
abbreviation (input) OP_CALLVALUE :: nat where "OP_CALLVALUE \<equiv> 0x34"
abbreviation (input) OP_CALLDATALOAD :: nat where "OP_CALLDATALOAD \<equiv> 0x35"
abbreviation (input) OP_CALLDATASIZE :: nat where "OP_CALLDATASIZE \<equiv> 0x36"
abbreviation (input) OP_CALLDATACOPY :: nat where "OP_CALLDATACOPY \<equiv> 0x37"
abbreviation (input) OP_CODESIZE :: nat where "OP_CODESIZE \<equiv> 0x38"
abbreviation (input) OP_CODECOPY :: nat where "OP_CODECOPY \<equiv> 0x39"
abbreviation (input) OP_GASPRICE :: nat where "OP_GASPRICE \<equiv> 0x3a"
abbreviation (input) OP_EXTCODESIZE :: nat where "OP_EXTCODESIZE \<equiv> 0x3b"
abbreviation (input) OP_EXTCODECOPY :: nat where "OP_EXTCODECOPY \<equiv> 0x3c"
abbreviation (input) OP_RETURNDATASIZE :: nat where "OP_RETURNDATASIZE \<equiv> 0x3d"
abbreviation (input) OP_RETURNDATACOPY :: nat where "OP_RETURNDATACOPY \<equiv> 0x3e"
abbreviation (input) OP_EXTCODEHASH :: nat where "OP_EXTCODEHASH \<equiv> 0x3f"
abbreviation (input) OP_BLOCKHASH :: nat where "OP_BLOCKHASH \<equiv> 0x40"
abbreviation (input) OP_COINBASE :: nat where "OP_COINBASE \<equiv> 0x41"
abbreviation (input) OP_TIMESTAMP :: nat where "OP_TIMESTAMP \<equiv> 0x42"
abbreviation (input) OP_NUMBER :: nat where "OP_NUMBER \<equiv> 0x43"
abbreviation (input) OP_PREVRANDAO :: nat where "OP_PREVRANDAO \<equiv> 0x44"
abbreviation (input) OP_GASLIMIT :: nat where "OP_GASLIMIT \<equiv> 0x45"
abbreviation (input) OP_CHAINID :: nat where "OP_CHAINID \<equiv> 0x46"
abbreviation (input) OP_SELFBALANCE :: nat where "OP_SELFBALANCE \<equiv> 0x47"
abbreviation (input) OP_BASEFEE :: nat where "OP_BASEFEE \<equiv> 0x48"
abbreviation (input) OP_POP :: nat where "OP_POP \<equiv> 0x50"
abbreviation (input) OP_MLOAD :: nat where "OP_MLOAD \<equiv> 0x51"
abbreviation (input) OP_MSTORE :: nat where "OP_MSTORE \<equiv> 0x52"
abbreviation (input) OP_MSTORE8 :: nat where "OP_MSTORE8 \<equiv> 0x53"
abbreviation (input) OP_SLOAD :: nat where "OP_SLOAD \<equiv> 0x54"
abbreviation (input) OP_SSTORE :: nat where "OP_SSTORE \<equiv> 0x55"
abbreviation (input) OP_JUMP :: nat where "OP_JUMP \<equiv> 0x56"
abbreviation (input) OP_JUMPI :: nat where "OP_JUMPI \<equiv> 0x57"
abbreviation (input) OP_PC :: nat where "OP_PC \<equiv> 0x58"
abbreviation (input) OP_MSIZE :: nat where "OP_MSIZE \<equiv> 0x59"
abbreviation (input) OP_GAS :: nat where "OP_GAS \<equiv> 0x5a"
abbreviation (input) OP_JUMPDEST :: nat where "OP_JUMPDEST \<equiv> 0x5b"
abbreviation (input) OP_PUSH0 :: nat where "OP_PUSH0 \<equiv> 0x5f"
abbreviation (input) OP_PUSH1 :: nat where "OP_PUSH1 \<equiv> 0x60"
abbreviation (input) OP_PUSH2 :: nat where "OP_PUSH2 \<equiv> 0x61"
abbreviation (input) OP_PUSH3 :: nat where "OP_PUSH3 \<equiv> 0x62"
abbreviation (input) OP_PUSH4 :: nat where "OP_PUSH4 \<equiv> 0x63"
abbreviation (input) OP_PUSH5 :: nat where "OP_PUSH5 \<equiv> 0x64"
abbreviation (input) OP_PUSH6 :: nat where "OP_PUSH6 \<equiv> 0x65"
abbreviation (input) OP_PUSH7 :: nat where "OP_PUSH7 \<equiv> 0x66"
abbreviation (input) OP_PUSH8 :: nat where "OP_PUSH8 \<equiv> 0x67"
abbreviation (input) OP_PUSH9 :: nat where "OP_PUSH9 \<equiv> 0x68"
abbreviation (input) OP_PUSH10 :: nat where "OP_PUSH10 \<equiv> 0x69"
abbreviation (input) OP_PUSH11 :: nat where "OP_PUSH11 \<equiv> 0x6a"
abbreviation (input) OP_PUSH12 :: nat where "OP_PUSH12 \<equiv> 0x6b"
abbreviation (input) OP_PUSH13 :: nat where "OP_PUSH13 \<equiv> 0x6c"
abbreviation (input) OP_PUSH14 :: nat where "OP_PUSH14 \<equiv> 0x6d"
abbreviation (input) OP_PUSH15 :: nat where "OP_PUSH15 \<equiv> 0x6e"
abbreviation (input) OP_PUSH16 :: nat where "OP_PUSH16 \<equiv> 0x6f"
abbreviation (input) OP_PUSH17 :: nat where "OP_PUSH17 \<equiv> 0x70"
abbreviation (input) OP_PUSH18 :: nat where "OP_PUSH18 \<equiv> 0x71"
abbreviation (input) OP_PUSH19 :: nat where "OP_PUSH19 \<equiv> 0x72"
abbreviation (input) OP_PUSH20 :: nat where "OP_PUSH20 \<equiv> 0x73"
abbreviation (input) OP_PUSH21 :: nat where "OP_PUSH21 \<equiv> 0x74"
abbreviation (input) OP_PUSH22 :: nat where "OP_PUSH22 \<equiv> 0x75"
abbreviation (input) OP_PUSH23 :: nat where "OP_PUSH23 \<equiv> 0x76"
abbreviation (input) OP_PUSH24 :: nat where "OP_PUSH24 \<equiv> 0x77"
abbreviation (input) OP_PUSH25 :: nat where "OP_PUSH25 \<equiv> 0x78"
abbreviation (input) OP_PUSH26 :: nat where "OP_PUSH26 \<equiv> 0x79"
abbreviation (input) OP_PUSH27 :: nat where "OP_PUSH27 \<equiv> 0x7a"
abbreviation (input) OP_PUSH28 :: nat where "OP_PUSH28 \<equiv> 0x7b"
abbreviation (input) OP_PUSH29 :: nat where "OP_PUSH29 \<equiv> 0x7c"
abbreviation (input) OP_PUSH30 :: nat where "OP_PUSH30 \<equiv> 0x7d"
abbreviation (input) OP_PUSH31 :: nat where "OP_PUSH31 \<equiv> 0x7e"
abbreviation (input) OP_PUSH32 :: nat where "OP_PUSH32 \<equiv> 0x7f"
abbreviation (input) OP_DUP1 :: nat where "OP_DUP1 \<equiv> 0x80"
abbreviation (input) OP_DUP2 :: nat where "OP_DUP2 \<equiv> 0x81"
abbreviation (input) OP_DUP3 :: nat where "OP_DUP3 \<equiv> 0x82"
abbreviation (input) OP_DUP4 :: nat where "OP_DUP4 \<equiv> 0x83"
abbreviation (input) OP_DUP5 :: nat where "OP_DUP5 \<equiv> 0x84"
abbreviation (input) OP_DUP6 :: nat where "OP_DUP6 \<equiv> 0x85"
abbreviation (input) OP_DUP7 :: nat where "OP_DUP7 \<equiv> 0x86"
abbreviation (input) OP_DUP8 :: nat where "OP_DUP8 \<equiv> 0x87"
abbreviation (input) OP_DUP9 :: nat where "OP_DUP9 \<equiv> 0x88"
abbreviation (input) OP_DUP10 :: nat where "OP_DUP10 \<equiv> 0x89"
abbreviation (input) OP_DUP11 :: nat where "OP_DUP11 \<equiv> 0x8a"
abbreviation (input) OP_DUP12 :: nat where "OP_DUP12 \<equiv> 0x8b"
abbreviation (input) OP_DUP13 :: nat where "OP_DUP13 \<equiv> 0x8c"
abbreviation (input) OP_DUP14 :: nat where "OP_DUP14 \<equiv> 0x8d"
abbreviation (input) OP_DUP15 :: nat where "OP_DUP15 \<equiv> 0x8e"
abbreviation (input) OP_DUP16 :: nat where "OP_DUP16 \<equiv> 0x8f"
abbreviation (input) OP_SWAP1 :: nat where "OP_SWAP1 \<equiv> 0x90"
abbreviation (input) OP_SWAP2 :: nat where "OP_SWAP2 \<equiv> 0x91"
abbreviation (input) OP_SWAP3 :: nat where "OP_SWAP3 \<equiv> 0x92"
abbreviation (input) OP_SWAP4 :: nat where "OP_SWAP4 \<equiv> 0x93"
abbreviation (input) OP_SWAP5 :: nat where "OP_SWAP5 \<equiv> 0x94"
abbreviation (input) OP_SWAP6 :: nat where "OP_SWAP6 \<equiv> 0x95"
abbreviation (input) OP_SWAP7 :: nat where "OP_SWAP7 \<equiv> 0x96"
abbreviation (input) OP_SWAP8 :: nat where "OP_SWAP8 \<equiv> 0x97"
abbreviation (input) OP_SWAP9 :: nat where "OP_SWAP9 \<equiv> 0x98"
abbreviation (input) OP_SWAP10 :: nat where "OP_SWAP10 \<equiv> 0x99"
abbreviation (input) OP_SWAP11 :: nat where "OP_SWAP11 \<equiv> 0x9a"
abbreviation (input) OP_SWAP12 :: nat where "OP_SWAP12 \<equiv> 0x9b"
abbreviation (input) OP_SWAP13 :: nat where "OP_SWAP13 \<equiv> 0x9c"
abbreviation (input) OP_SWAP14 :: nat where "OP_SWAP14 \<equiv> 0x9d"
abbreviation (input) OP_SWAP15 :: nat where "OP_SWAP15 \<equiv> 0x9e"
abbreviation (input) OP_SWAP16 :: nat where "OP_SWAP16 \<equiv> 0x9f"
abbreviation (input) OP_LOG0 :: nat where "OP_LOG0 \<equiv> 0xa0"
abbreviation (input) OP_LOG1 :: nat where "OP_LOG1 \<equiv> 0xa1"
abbreviation (input) OP_LOG2 :: nat where "OP_LOG2 \<equiv> 0xa2"
abbreviation (input) OP_LOG3 :: nat where "OP_LOG3 \<equiv> 0xa3"
abbreviation (input) OP_LOG4 :: nat where "OP_LOG4 \<equiv> 0xa4"
abbreviation (input) OP_CREATE :: nat where "OP_CREATE \<equiv> 0xf0"
abbreviation (input) OP_CALL :: nat where "OP_CALL \<equiv> 0xf1"
abbreviation (input) OP_RETURN :: nat where "OP_RETURN \<equiv> 0xf3"
abbreviation (input) OP_DELEGATECALL :: nat where "OP_DELEGATECALL \<equiv> 0xf4"
abbreviation (input) OP_CREATE2 :: nat where "OP_CREATE2 \<equiv> 0xf5"
abbreviation (input) OP_STATICCALL :: nat where "OP_STATICCALL \<equiv> 0xfa"
abbreviation (input) OP_REVERT :: nat where "OP_REVERT \<equiv> 0xfd"
abbreviation (input) OP_INVALID :: nat where "OP_INVALID \<equiv> 0xfe"

section \<open>The opcode map\<close>

text \<open>
  The identifiers of the instruction implementations (\<open>instr::core::add\<close> and so on),
  template arguments included, grouped by the C++ signature of the implementation: the
  overloads of \<open>invoke\<close> in \<open>baseline.cpp\<close> and of \<open>impl\<close> in
  \<open>advanced_instructions.cpp\<close> are selected by that signature.
\<close>

datatype stack_op = \<comment> \<open>void (StackTop)\<close>
    Id_pop | Id_jumpdest | Id_add | Id_mul | Id_sub | Id_div | Id_sdiv | Id_mod | Id_smod
  | Id_addmod | Id_mulmod | Id_signextend | Id_lt | Id_gt | Id_slt | Id_sgt | Id_eq | Id_iszero
  | Id_and | Id_or | Id_xor | Id_not | Id_byte | Id_shl | Id_shr | Id_sar | Id_push0
  | Id_dup nat | Id_swap nat

datatype state_op = \<comment> \<open>void (StackTop, ExecutionState&)\<close>
    Id_address | Id_origin | Id_caller | Id_callvalue | Id_calldataload | Id_calldatasize
  | Id_codesize | Id_gasprice | Id_basefee | Id_returndatasize | Id_blockhash | Id_coinbase
  | Id_timestamp | Id_number | Id_prevrandao | Id_gaslimit | Id_chainid | Id_selfbalance
  | Id_msize

datatype result_op = \<comment> \<open>Result (StackTop, int64_t, ExecutionState&)\<close>
    Id_exp | Id_keccak256 | Id_balance | Id_calldatacopy | Id_codecopy | Id_extcodesize
  | Id_extcodecopy | Id_returndatacopy | Id_extcodehash | Id_mload | Id_mstore | Id_mstore8
  | Id_sload | Id_sstore | Id_gas | Id_log nat | Id_call | Id_delegatecall | Id_staticcall
  | Id_create | Id_create2

datatype iter_op = \<comment> \<open>code_iterator (StackTop, ExecutionState&, code_iterator)\<close>
    Id_jump | Id_jumpi | Id_pc | Id_push nat

datatype term_op = \<comment> \<open>TermResult (StackTop, int64_t, ExecutionState&)\<close>
    Id_stop | Id_invalid | Id_return | Id_revert

datatype op_id =
    Stack_op stack_op | State_op state_op | Result_op result_op | Iter_op iter_op | Term_op term_op

text \<open>
  The X macro \<open>MAP_OPCODES\<close>: every opcode value in the order of the macro, with the
  identifier of its implementation or, for \<open>ON_OPCODE_UNDEFINED\<close>, with none.
\<close>

definition MAP_OPCODES_lo :: "(nat \<times> op_id option) list" where
  "MAP_OPCODES_lo =
    [(OP_STOP, Some (Term_op Id_stop)), (OP_ADD, Some (Stack_op Id_add)),
     (OP_MUL, Some (Stack_op Id_mul)), (OP_SUB, Some (Stack_op Id_sub)),
     (OP_DIV, Some (Stack_op Id_div)), (OP_SDIV, Some (Stack_op Id_sdiv)),
     (OP_MOD, Some (Stack_op Id_mod)), (OP_SMOD, Some (Stack_op Id_smod)),
     (OP_ADDMOD, Some (Stack_op Id_addmod)), (OP_MULMOD, Some (Stack_op Id_mulmod)),
     (OP_EXP, Some (Result_op Id_exp)), (OP_SIGNEXTEND, Some (Stack_op Id_signextend)),
     (0x0c, None), (0x0d, None), (0x0e, None), (0x0f, None), (OP_LT, Some (Stack_op Id_lt)),
     (OP_GT, Some (Stack_op Id_gt)), (OP_SLT, Some (Stack_op Id_slt)),
     (OP_SGT, Some (Stack_op Id_sgt)), (OP_EQ, Some (Stack_op Id_eq)),
     (OP_ISZERO, Some (Stack_op Id_iszero)), (OP_AND, Some (Stack_op Id_and)),
     (OP_OR, Some (Stack_op Id_or)), (OP_XOR, Some (Stack_op Id_xor)),
     (OP_NOT, Some (Stack_op Id_not)), (OP_BYTE, Some (Stack_op Id_byte)),
     (OP_SHL, Some (Stack_op Id_shl)), (OP_SHR, Some (Stack_op Id_shr)),
     (OP_SAR, Some (Stack_op Id_sar)), (0x1e, None), (0x1f, None),
     (OP_KECCAK256, Some (Result_op Id_keccak256)), (0x21, None), (0x22, None), (0x23, None),
     (0x24, None), (0x25, None), (0x26, None), (0x27, None), (0x28, None), (0x29, None),
     (0x2a, None), (0x2b, None), (0x2c, None), (0x2d, None), (0x2e, None), (0x2f, None),
     (OP_ADDRESS, Some (State_op Id_address)), (OP_BALANCE, Some (Result_op Id_balance)),
     (OP_ORIGIN, Some (State_op Id_origin)), (OP_CALLER, Some (State_op Id_caller)),
     (OP_CALLVALUE, Some (State_op Id_callvalue)),
     (OP_CALLDATALOAD, Some (State_op Id_calldataload)),
     (OP_CALLDATASIZE, Some (State_op Id_calldatasize)),
     (OP_CALLDATACOPY, Some (Result_op Id_calldatacopy)),
     (OP_CODESIZE, Some (State_op Id_codesize)), (OP_CODECOPY, Some (Result_op Id_codecopy)),
     (OP_GASPRICE, Some (State_op Id_gasprice)),
     (OP_EXTCODESIZE, Some (Result_op Id_extcodesize)),
     (OP_EXTCODECOPY, Some (Result_op Id_extcodecopy)),
     (OP_RETURNDATASIZE, Some (State_op Id_returndatasize)),
     (OP_RETURNDATACOPY, Some (Result_op Id_returndatacopy)),
     (OP_EXTCODEHASH, Some (Result_op Id_extcodehash)),
     (OP_BLOCKHASH, Some (State_op Id_blockhash)), (OP_COINBASE, Some (State_op Id_coinbase)),
     (OP_TIMESTAMP, Some (State_op Id_timestamp)), (OP_NUMBER, Some (State_op Id_number)),
     (OP_PREVRANDAO, Some (State_op Id_prevrandao)), (OP_GASLIMIT, Some (State_op Id_gaslimit)),
     (OP_CHAINID, Some (State_op Id_chainid)), (OP_SELFBALANCE, Some (State_op Id_selfbalance)),
     (OP_BASEFEE, Some (State_op Id_basefee)), (0x49, None), (0x4a, None), (0x4b, None),
     (0x4c, None), (0x4d, None), (0x4e, None), (0x4f, None), (OP_POP, Some (Stack_op Id_pop)),
     (OP_MLOAD, Some (Result_op Id_mload)), (OP_MSTORE, Some (Result_op Id_mstore)),
     (OP_MSTORE8, Some (Result_op Id_mstore8)), (OP_SLOAD, Some (Result_op Id_sload)),
     (OP_SSTORE, Some (Result_op Id_sstore)), (OP_JUMP, Some (Iter_op Id_jump)),
     (OP_JUMPI, Some (Iter_op Id_jumpi)), (OP_PC, Some (Iter_op Id_pc)),
     (OP_MSIZE, Some (State_op Id_msize)), (OP_GAS, Some (Result_op Id_gas)),
     (OP_JUMPDEST, Some (Stack_op Id_jumpdest)), (0x5c, None), (0x5d, None), (0x5e, None),
     (OP_PUSH0, Some (Stack_op Id_push0)), (OP_PUSH1, Some (Iter_op (Id_push 1))),
     (OP_PUSH2, Some (Iter_op (Id_push 2))), (OP_PUSH3, Some (Iter_op (Id_push 3))),
     (OP_PUSH4, Some (Iter_op (Id_push 4))), (OP_PUSH5, Some (Iter_op (Id_push 5))),
     (OP_PUSH6, Some (Iter_op (Id_push 6))), (OP_PUSH7, Some (Iter_op (Id_push 7))),
     (OP_PUSH8, Some (Iter_op (Id_push 8))), (OP_PUSH9, Some (Iter_op (Id_push 9))),
     (OP_PUSH10, Some (Iter_op (Id_push 10))), (OP_PUSH11, Some (Iter_op (Id_push 11))),
     (OP_PUSH12, Some (Iter_op (Id_push 12))), (OP_PUSH13, Some (Iter_op (Id_push 13))),
     (OP_PUSH14, Some (Iter_op (Id_push 14))), (OP_PUSH15, Some (Iter_op (Id_push 15))),
     (OP_PUSH16, Some (Iter_op (Id_push 16))), (OP_PUSH17, Some (Iter_op (Id_push 17))),
     (OP_PUSH18, Some (Iter_op (Id_push 18))), (OP_PUSH19, Some (Iter_op (Id_push 19))),
     (OP_PUSH20, Some (Iter_op (Id_push 20))), (OP_PUSH21, Some (Iter_op (Id_push 21))),
     (OP_PUSH22, Some (Iter_op (Id_push 22))), (OP_PUSH23, Some (Iter_op (Id_push 23))),
     (OP_PUSH24, Some (Iter_op (Id_push 24))), (OP_PUSH25, Some (Iter_op (Id_push 25))),
     (OP_PUSH26, Some (Iter_op (Id_push 26))), (OP_PUSH27, Some (Iter_op (Id_push 27))),
     (OP_PUSH28, Some (Iter_op (Id_push 28))), (OP_PUSH29, Some (Iter_op (Id_push 29))),
     (OP_PUSH30, Some (Iter_op (Id_push 30))), (OP_PUSH31, Some (Iter_op (Id_push 31))),
     (OP_PUSH32, Some (Iter_op (Id_push 32)))]"

definition MAP_OPCODES_hi :: "(nat \<times> op_id option) list" where
  "MAP_OPCODES_hi =
    [(OP_DUP1, Some (Stack_op (Id_dup 1))), (OP_DUP2, Some (Stack_op (Id_dup 2))),
     (OP_DUP3, Some (Stack_op (Id_dup 3))), (OP_DUP4, Some (Stack_op (Id_dup 4))),
     (OP_DUP5, Some (Stack_op (Id_dup 5))), (OP_DUP6, Some (Stack_op (Id_dup 6))),
     (OP_DUP7, Some (Stack_op (Id_dup 7))), (OP_DUP8, Some (Stack_op (Id_dup 8))),
     (OP_DUP9, Some (Stack_op (Id_dup 9))), (OP_DUP10, Some (Stack_op (Id_dup 10))),
     (OP_DUP11, Some (Stack_op (Id_dup 11))), (OP_DUP12, Some (Stack_op (Id_dup 12))),
     (OP_DUP13, Some (Stack_op (Id_dup 13))), (OP_DUP14, Some (Stack_op (Id_dup 14))),
     (OP_DUP15, Some (Stack_op (Id_dup 15))), (OP_DUP16, Some (Stack_op (Id_dup 16))),
     (OP_SWAP1, Some (Stack_op (Id_swap 1))), (OP_SWAP2, Some (Stack_op (Id_swap 2))),
     (OP_SWAP3, Some (Stack_op (Id_swap 3))), (OP_SWAP4, Some (Stack_op (Id_swap 4))),
     (OP_SWAP5, Some (Stack_op (Id_swap 5))), (OP_SWAP6, Some (Stack_op (Id_swap 6))),
     (OP_SWAP7, Some (Stack_op (Id_swap 7))), (OP_SWAP8, Some (Stack_op (Id_swap 8))),
     (OP_SWAP9, Some (Stack_op (Id_swap 9))), (OP_SWAP10, Some (Stack_op (Id_swap 10))),
     (OP_SWAP11, Some (Stack_op (Id_swap 11))), (OP_SWAP12, Some (Stack_op (Id_swap 12))),
     (OP_SWAP13, Some (Stack_op (Id_swap 13))), (OP_SWAP14, Some (Stack_op (Id_swap 14))),
     (OP_SWAP15, Some (Stack_op (Id_swap 15))), (OP_SWAP16, Some (Stack_op (Id_swap 16))),
     (OP_LOG0, Some (Result_op (Id_log 0))), (OP_LOG1, Some (Result_op (Id_log 1))),
     (OP_LOG2, Some (Result_op (Id_log 2))), (OP_LOG3, Some (Result_op (Id_log 3))),
     (OP_LOG4, Some (Result_op (Id_log 4))), (0xa5, None), (0xa6, None), (0xa7, None),
     (0xa8, None), (0xa9, None), (0xaa, None), (0xab, None), (0xac, None), (0xad, None),
     (0xae, None), (0xaf, None), (0xb0, None), (0xb1, None), (0xb2, None), (0xb3, None),
     (0xb4, None), (0xb5, None), (0xb6, None), (0xb7, None), (0xb8, None), (0xb9, None),
     (0xba, None), (0xbb, None), (0xbc, None), (0xbd, None), (0xbe, None), (0xbf, None),
     (0xc0, None), (0xc1, None), (0xc2, None), (0xc3, None), (0xc4, None), (0xc5, None),
     (0xc6, None), (0xc7, None), (0xc8, None), (0xc9, None), (0xca, None), (0xcb, None),
     (0xcc, None), (0xcd, None), (0xce, None), (0xcf, None), (0xd0, None), (0xd1, None),
     (0xd2, None), (0xd3, None), (0xd4, None), (0xd5, None), (0xd6, None), (0xd7, None),
     (0xd8, None), (0xd9, None), (0xda, None), (0xdb, None), (0xdc, None), (0xdd, None),
     (0xde, None), (0xdf, None), (0xe0, None), (0xe1, None), (0xe2, None), (0xe3, None),
     (0xe4, None), (0xe5, None), (0xe6, None), (0xe7, None), (0xe8, None), (0xe9, None),
     (0xea, None), (0xeb, None), (0xec, None), (0xed, None), (0xee, None), (0xef, None),
     (OP_CREATE, Some (Result_op Id_create)), (OP_CALL, Some (Result_op Id_call)), (0xf2, None),
     (OP_RETURN, Some (Term_op Id_return)), (OP_DELEGATECALL, Some (Result_op Id_delegatecall)),
     (OP_CREATE2, Some (Result_op Id_create2)), (0xf6, None), (0xf7, None), (0xf8, None),
     (0xf9, None), (OP_STATICCALL, Some (Result_op Id_staticcall)), (0xfb, None), (0xfc, None),
     (OP_REVERT, Some (Term_op Id_revert)), (OP_INVALID, Some (Term_op Id_invalid)),
     (0xff, None)]"

definition MAP_OPCODES :: "(nat \<times> op_id option) list" where
  "MAP_OPCODES = MAP_OPCODES_lo @ MAP_OPCODES_hi"

section \<open>The macro lists every opcode value once and in order\<close>

lemma MAP_OPCODES_fst: "map fst MAP_OPCODES = [0..<256]"
  by code_simp

lemma length_MAP_OPCODES [simp]: "length MAP_OPCODES = 256"
  using arg_cong [OF MAP_OPCODES_fst, of length] by simp

lemma distinct_MAP_OPCODES: "distinct (map fst MAP_OPCODES)"
  by (simp add: MAP_OPCODES_fst)

lemma fst_MAP_OPCODES_nth: "op < 256 \<Longrightarrow> fst (MAP_OPCODES ! op) = op"
  by (metis MAP_OPCODES_fst add_0 diff_zero length_MAP_OPCODES nth_map nth_upt)

lemma MAP_OPCODES_index: "op < 256 \<Longrightarrow> map_of MAP_OPCODES op = Some (snd (MAP_OPCODES ! op))"
  by (metis distinct_MAP_OPCODES fst_MAP_OPCODES_nth length_MAP_OPCODES map_of_eq_Some_iff
      nth_mem prod.collapse)

end
