(* ===== verification/Zvm_Traits.thy ===== *)
theory Zvm_Traits
  imports Zvm_Opcodes
begin

text \<open>
  The instruction tables of \<open>lib/zvmone/instructions_traits.hpp\<close>: base gas costs, stack
  height requirements and stack height changes per opcode, and the cost table the baseline
  interpreter reads (\<open>lib/zvmone/baseline_instruction_table.cpp\<close>).  The tables are built
  the way the constant initialisers build them, by a sequence of assignments to an
  array of 256 entries.
\<close>

section \<open>Revisions and constants\<close>

text \<open>
  The only revision the tables define.  The assertion on \<open>ZVMC_MAX_REVISION\<close> below the
  gas table holds only if it is the last one.
\<close>

datatype revision = ZVMC_SHANGHAI

definition ZVMC_MAX_REVISION :: revision where
  "ZVMC_MAX_REVISION = ZVMC_SHANGHAI"

text \<open>The cost that marks an undefined instruction, and the EIP-2929 constants.\<close>

definition undefined_cost :: int where "undefined_cost = - 1"
definition cold_sload_cost :: int where "cold_sload_cost = 2100"
definition cold_account_access_cost :: int where "cold_account_access_cost = 2600"
definition warm_storage_read_cost :: int where "warm_storage_read_cost = 100"

definition additional_cold_account_access_cost :: int where
  "additional_cold_account_access_cost = cold_account_access_cost - warm_storage_read_cost"

lemmas cost_constants = cold_sload_cost_def cold_account_access_cost_def
  warm_storage_read_cost_def additional_cold_account_access_cost_def undefined_cost_def

section \<open>Gas costs\<close>

definition gas_costs_base :: "(nat \<times> int) list" where
  "gas_costs_base =
    [(OP_STOP, 0), (OP_ADD, 3), (OP_MUL, 5), (OP_SUB, 3), (OP_DIV, 5), (OP_SDIV, 5),
     (OP_MOD, 5), (OP_SMOD, 5), (OP_ADDMOD, 8), (OP_MULMOD, 8), (OP_EXP, 10),
     (OP_SIGNEXTEND, 5), (OP_LT, 3), (OP_GT, 3), (OP_SLT, 3), (OP_SGT, 3), (OP_EQ, 3),
     (OP_ISZERO, 3), (OP_AND, 3), (OP_OR, 3), (OP_XOR, 3), (OP_NOT, 3), (OP_BYTE, 3),
     (OP_KECCAK256, 30), (OP_ADDRESS, 2), (OP_BALANCE, warm_storage_read_cost), (OP_ORIGIN, 2),
     (OP_CALLER, 2), (OP_CALLVALUE, 2), (OP_CALLDATALOAD, 3), (OP_CALLDATASIZE, 2),
     (OP_CALLDATACOPY, 3), (OP_CODESIZE, 2), (OP_CODECOPY, 3), (OP_GASPRICE, 2),
     (OP_EXTCODESIZE, warm_storage_read_cost), (OP_EXTCODECOPY, warm_storage_read_cost),
     (OP_BLOCKHASH, 20), (OP_COINBASE, 2), (OP_TIMESTAMP, 2), (OP_NUMBER, 2),
     (OP_PREVRANDAO, 2), (OP_GASLIMIT, 2), (OP_POP, 2), (OP_MLOAD, 3), (OP_MSTORE, 3),
     (OP_MSTORE8, 3), (OP_SLOAD, warm_storage_read_cost), (OP_SSTORE, 0), (OP_JUMP, 8),
     (OP_JUMPI, 10), (OP_PC, 2), (OP_MSIZE, 2), (OP_GAS, 2), (OP_JUMPDEST, 1)]"

text \<open>The four loops over the opcode ranges.\<close>

definition gas_costs_loops :: "(nat \<times> int) list" where
  "gas_costs_loops =
    map (\<lambda>op. (op, 3)) [OP_PUSH1..<OP_PUSH32 + 1] @
    map (\<lambda>op. (op, 3)) [OP_DUP1..<OP_DUP16 + 1] @
    map (\<lambda>op. (op, 3)) [OP_SWAP1..<OP_SWAP16 + 1] @
    map (\<lambda>op. (op, int ((op - OP_LOG0 + 1) * 375))) [OP_LOG0..<OP_LOG4 + 1]"

definition gas_costs_tail :: "(nat \<times> int) list" where
  "gas_costs_tail =
    [(OP_CREATE, 32000), (OP_CALL, warm_storage_read_cost), (OP_RETURN, 0), (OP_INVALID, 0),
     (OP_DELEGATECALL, warm_storage_read_cost), (OP_RETURNDATASIZE, 2), (OP_RETURNDATACOPY, 3),
     (OP_STATICCALL, warm_storage_read_cost), (OP_REVERT, 0), (OP_SHL, 3), (OP_SHR, 3),
     (OP_SAR, 3), (OP_EXTCODEHASH, warm_storage_read_cost), (OP_CREATE2, 32000),
     (OP_CHAINID, 2), (OP_SELFBALANCE, 5), (OP_BASEFEE, 2), (OP_PUSH0, 2)]"

text \<open>A table is an array that the initialiser fills by assignments in order.\<close>

definition assign :: "(nat \<times> 'a) list \<Rightarrow> 'a list \<Rightarrow> 'a list" where
  "assign upds tbl = fold (\<lambda>(i, v) t. t[i := v]) upds tbl"

fun gas_costs :: "revision \<Rightarrow> int list" where
  "gas_costs ZVMC_SHANGHAI =
     assign (gas_costs_base @ gas_costs_loops @ gas_costs_tail) (replicate 256 undefined_cost)"

text \<open>
  \<open>has_const_gas_cost\<close> compares the entries of all later revisions with the entry of
  \<open>ZVMC_SHANGHAI\<close>; there are no later revisions.
\<close>

definition later_revisions :: "revision list" where
  "later_revisions = []"

definition has_const_gas_cost :: "nat \<Rightarrow> bool" where
  "has_const_gas_cost op =
     (let g = gas_costs ZVMC_SHANGHAI ! op in list_all (\<lambda>r. gas_costs r ! op = g) later_revisions)"

section \<open>Instruction traits\<close>

record Traits =
  name :: "string option"
  immediate_size :: nat
  is_terminating :: bool
  stack_height_required :: int
  stack_height_change :: int
  since :: "revision option"

definition default_traits :: Traits where
  "default_traits = \<lparr>name = None, immediate_size = 0, is_terminating = False,
     stack_height_required = 0, stack_height_change = 0, since = None\<rparr>"

definition mk_traits :: "string \<Rightarrow> nat \<Rightarrow> bool \<Rightarrow> int \<Rightarrow> int \<Rightarrow> Traits" where
  "mk_traits n imm term req chg = \<lparr>name = Some n, immediate_size = imm, is_terminating = term,
     stack_height_required = req, stack_height_change = chg, since = Some ZVMC_SHANGHAI\<rparr>"

definition traits_lo :: "(nat \<times> Traits) list" where
  "traits_lo =
    [(OP_STOP, mk_traits ''STOP'' 0 True 0 0), (OP_ADD, mk_traits ''ADD'' 0 False 2 (-1)),
     (OP_MUL, mk_traits ''MUL'' 0 False 2 (-1)), (OP_SUB, mk_traits ''SUB'' 0 False 2 (-1)),
     (OP_DIV, mk_traits ''DIV'' 0 False 2 (-1)), (OP_SDIV, mk_traits ''SDIV'' 0 False 2 (-1)),
     (OP_MOD, mk_traits ''MOD'' 0 False 2 (-1)), (OP_SMOD, mk_traits ''SMOD'' 0 False 2 (-1)),
     (OP_ADDMOD, mk_traits ''ADDMOD'' 0 False 3 (-2)),
     (OP_MULMOD, mk_traits ''MULMOD'' 0 False 3 (-2)),
     (OP_EXP, mk_traits ''EXP'' 0 False 2 (-1)),
     (OP_SIGNEXTEND, mk_traits ''SIGNEXTEND'' 0 False 2 (-1)),
     (OP_LT, mk_traits ''LT'' 0 False 2 (-1)), (OP_GT, mk_traits ''GT'' 0 False 2 (-1)),
     (OP_SLT, mk_traits ''SLT'' 0 False 2 (-1)), (OP_SGT, mk_traits ''SGT'' 0 False 2 (-1)),
     (OP_EQ, mk_traits ''EQ'' 0 False 2 (-1)), (OP_ISZERO, mk_traits ''ISZERO'' 0 False 1 0),
     (OP_AND, mk_traits ''AND'' 0 False 2 (-1)), (OP_OR, mk_traits ''OR'' 0 False 2 (-1)),
     (OP_XOR, mk_traits ''XOR'' 0 False 2 (-1)), (OP_NOT, mk_traits ''NOT'' 0 False 1 0),
     (OP_BYTE, mk_traits ''BYTE'' 0 False 2 (-1)), (OP_SHL, mk_traits ''SHL'' 0 False 2 (-1)),
     (OP_SHR, mk_traits ''SHR'' 0 False 2 (-1)), (OP_SAR, mk_traits ''SAR'' 0 False 2 (-1)),
     (OP_KECCAK256, mk_traits ''KECCAK256'' 0 False 2 (-1)),
     (OP_ADDRESS, mk_traits ''ADDRESS'' 0 False 0 1),
     (OP_BALANCE, mk_traits ''BALANCE'' 0 False 1 0),
     (OP_ORIGIN, mk_traits ''ORIGIN'' 0 False 0 1),
     (OP_CALLER, mk_traits ''CALLER'' 0 False 0 1),
     (OP_CALLVALUE, mk_traits ''CALLVALUE'' 0 False 0 1),
     (OP_CALLDATALOAD, mk_traits ''CALLDATALOAD'' 0 False 1 0),
     (OP_CALLDATASIZE, mk_traits ''CALLDATASIZE'' 0 False 0 1),
     (OP_CALLDATACOPY, mk_traits ''CALLDATACOPY'' 0 False 3 (-3)),
     (OP_CODESIZE, mk_traits ''CODESIZE'' 0 False 0 1),
     (OP_CODECOPY, mk_traits ''CODECOPY'' 0 False 3 (-3)),
     (OP_GASPRICE, mk_traits ''GASPRICE'' 0 False 0 1),
     (OP_EXTCODESIZE, mk_traits ''EXTCODESIZE'' 0 False 1 0),
     (OP_EXTCODECOPY, mk_traits ''EXTCODECOPY'' 0 False 4 (-4)),
     (OP_RETURNDATASIZE, mk_traits ''RETURNDATASIZE'' 0 False 0 1),
     (OP_RETURNDATACOPY, mk_traits ''RETURNDATACOPY'' 0 False 3 (-3)),
     (OP_EXTCODEHASH, mk_traits ''EXTCODEHASH'' 0 False 1 0),
     (OP_BLOCKHASH, mk_traits ''BLOCKHASH'' 0 False 1 0),
     (OP_COINBASE, mk_traits ''COINBASE'' 0 False 0 1),
     (OP_TIMESTAMP, mk_traits ''TIMESTAMP'' 0 False 0 1),
     (OP_NUMBER, mk_traits ''NUMBER'' 0 False 0 1),
     (OP_PREVRANDAO, mk_traits ''PREVRANDAO'' 0 False 0 1),
     (OP_GASLIMIT, mk_traits ''GASLIMIT'' 0 False 0 1),
     (OP_CHAINID, mk_traits ''CHAINID'' 0 False 0 1),
     (OP_SELFBALANCE, mk_traits ''SELFBALANCE'' 0 False 0 1),
     (OP_BASEFEE, mk_traits ''BASEFEE'' 0 False 0 1),
     (OP_POP, mk_traits ''POP'' 0 False 1 (-1)), (OP_MLOAD, mk_traits ''MLOAD'' 0 False 1 0),
     (OP_MSTORE, mk_traits ''MSTORE'' 0 False 2 (-2)),
     (OP_MSTORE8, mk_traits ''MSTORE8'' 0 False 2 (-2)),
     (OP_SLOAD, mk_traits ''SLOAD'' 0 False 1 0),
     (OP_SSTORE, mk_traits ''SSTORE'' 0 False 2 (-2)),
     (OP_JUMP, mk_traits ''JUMP'' 0 False 1 (-1)),
     (OP_JUMPI, mk_traits ''JUMPI'' 0 False 2 (-2)), (OP_PC, mk_traits ''PC'' 0 False 0 1),
     (OP_MSIZE, mk_traits ''MSIZE'' 0 False 0 1), (OP_GAS, mk_traits ''GAS'' 0 False 0 1),
     (OP_JUMPDEST, mk_traits ''JUMPDEST'' 0 False 0 0)]"

definition traits_hi :: "(nat \<times> Traits) list" where
  "traits_hi =
    [(OP_PUSH0, mk_traits ''PUSH0'' 0 False 0 1), (OP_PUSH1, mk_traits ''PUSH1'' 1 False 0 1),
     (OP_PUSH2, mk_traits ''PUSH2'' 2 False 0 1), (OP_PUSH3, mk_traits ''PUSH3'' 3 False 0 1),
     (OP_PUSH4, mk_traits ''PUSH4'' 4 False 0 1), (OP_PUSH5, mk_traits ''PUSH5'' 5 False 0 1),
     (OP_PUSH6, mk_traits ''PUSH6'' 6 False 0 1), (OP_PUSH7, mk_traits ''PUSH7'' 7 False 0 1),
     (OP_PUSH8, mk_traits ''PUSH8'' 8 False 0 1), (OP_PUSH9, mk_traits ''PUSH9'' 9 False 0 1),
     (OP_PUSH10, mk_traits ''PUSH10'' 10 False 0 1),
     (OP_PUSH11, mk_traits ''PUSH11'' 11 False 0 1),
     (OP_PUSH12, mk_traits ''PUSH12'' 12 False 0 1),
     (OP_PUSH13, mk_traits ''PUSH13'' 13 False 0 1),
     (OP_PUSH14, mk_traits ''PUSH14'' 14 False 0 1),
     (OP_PUSH15, mk_traits ''PUSH15'' 15 False 0 1),
     (OP_PUSH16, mk_traits ''PUSH16'' 16 False 0 1),
     (OP_PUSH17, mk_traits ''PUSH17'' 17 False 0 1),
     (OP_PUSH18, mk_traits ''PUSH18'' 18 False 0 1),
     (OP_PUSH19, mk_traits ''PUSH19'' 19 False 0 1),
     (OP_PUSH20, mk_traits ''PUSH20'' 20 False 0 1),
     (OP_PUSH21, mk_traits ''PUSH21'' 21 False 0 1),
     (OP_PUSH22, mk_traits ''PUSH22'' 22 False 0 1),
     (OP_PUSH23, mk_traits ''PUSH23'' 23 False 0 1),
     (OP_PUSH24, mk_traits ''PUSH24'' 24 False 0 1),
     (OP_PUSH25, mk_traits ''PUSH25'' 25 False 0 1),
     (OP_PUSH26, mk_traits ''PUSH26'' 26 False 0 1),
     (OP_PUSH27, mk_traits ''PUSH27'' 27 False 0 1),
     (OP_PUSH28, mk_traits ''PUSH28'' 28 False 0 1),
     (OP_PUSH29, mk_traits ''PUSH29'' 29 False 0 1),
     (OP_PUSH30, mk_traits ''PUSH30'' 30 False 0 1),
     (OP_PUSH31, mk_traits ''PUSH31'' 31 False 0 1),
     (OP_PUSH32, mk_traits ''PUSH32'' 32 False 0 1), (OP_DUP1, mk_traits ''DUP1'' 0 False 1 1),
     (OP_DUP2, mk_traits ''DUP2'' 0 False 2 1), (OP_DUP3, mk_traits ''DUP3'' 0 False 3 1),
     (OP_DUP4, mk_traits ''DUP4'' 0 False 4 1), (OP_DUP5, mk_traits ''DUP5'' 0 False 5 1),
     (OP_DUP6, mk_traits ''DUP6'' 0 False 6 1), (OP_DUP7, mk_traits ''DUP7'' 0 False 7 1),
     (OP_DUP8, mk_traits ''DUP8'' 0 False 8 1), (OP_DUP9, mk_traits ''DUP9'' 0 False 9 1),
     (OP_DUP10, mk_traits ''DUP10'' 0 False 10 1),
     (OP_DUP11, mk_traits ''DUP11'' 0 False 11 1),
     (OP_DUP12, mk_traits ''DUP12'' 0 False 12 1),
     (OP_DUP13, mk_traits ''DUP13'' 0 False 13 1),
     (OP_DUP14, mk_traits ''DUP14'' 0 False 14 1),
     (OP_DUP15, mk_traits ''DUP15'' 0 False 15 1),
     (OP_DUP16, mk_traits ''DUP16'' 0 False 16 1), (OP_SWAP1, mk_traits ''SWAP1'' 0 False 2 0),
     (OP_SWAP2, mk_traits ''SWAP2'' 0 False 3 0), (OP_SWAP3, mk_traits ''SWAP3'' 0 False 4 0),
     (OP_SWAP4, mk_traits ''SWAP4'' 0 False 5 0), (OP_SWAP5, mk_traits ''SWAP5'' 0 False 6 0),
     (OP_SWAP6, mk_traits ''SWAP6'' 0 False 7 0), (OP_SWAP7, mk_traits ''SWAP7'' 0 False 8 0),
     (OP_SWAP8, mk_traits ''SWAP8'' 0 False 9 0), (OP_SWAP9, mk_traits ''SWAP9'' 0 False 10 0),
     (OP_SWAP10, mk_traits ''SWAP10'' 0 False 11 0),
     (OP_SWAP11, mk_traits ''SWAP11'' 0 False 12 0),
     (OP_SWAP12, mk_traits ''SWAP12'' 0 False 13 0),
     (OP_SWAP13, mk_traits ''SWAP13'' 0 False 14 0),
     (OP_SWAP14, mk_traits ''SWAP14'' 0 False 15 0),
     (OP_SWAP15, mk_traits ''SWAP15'' 0 False 16 0),
     (OP_SWAP16, mk_traits ''SWAP16'' 0 False 17 0),
     (OP_LOG0, mk_traits ''LOG0'' 0 False 2 (-2)),
     (OP_LOG1, mk_traits ''LOG1'' 0 False 3 (-3)),
     (OP_LOG2, mk_traits ''LOG2'' 0 False 4 (-4)),
     (OP_LOG3, mk_traits ''LOG3'' 0 False 5 (-5)),
     (OP_LOG4, mk_traits ''LOG4'' 0 False 6 (-6)),
     (OP_CREATE, mk_traits ''CREATE'' 0 False 3 (-2)),
     (OP_CALL, mk_traits ''CALL'' 0 False 7 (-6)),
     (OP_RETURN, mk_traits ''RETURN'' 0 True 2 (-2)),
     (OP_DELEGATECALL, mk_traits ''DELEGATECALL'' 0 False 6 (-5)),
     (OP_CREATE2, mk_traits ''CREATE2'' 0 False 4 (-3)),
     (OP_STATICCALL, mk_traits ''STATICCALL'' 0 False 6 (-5)),
     (OP_REVERT, mk_traits ''REVERT'' 0 True 2 (-2)),
     (OP_INVALID, mk_traits ''INVALID'' 0 True 0 0)]"

definition traits :: "Traits list" where
  "traits = assign (traits_lo @ traits_hi) (replicate 256 default_traits)"

section \<open>The cost table of the baseline interpreter\<close>

definition get_baseline_cost_table :: "revision \<Rightarrow> int list" where
  "get_baseline_cost_table r = map (\<lambda>i. gas_costs r ! i) [0..<256]"

section \<open>What the tables say of each implementation\<close>

text \<open>
  A reference for the tables, indexed by implementation instead of by opcode: base gas
  cost, number of stack items accessed, stack height change.
\<close>

fun stack_op_info :: "stack_op \<Rightarrow> int \<times> int \<times> int" where
  "stack_op_info Id_pop = (2, 1, -1)"
| "stack_op_info Id_jumpdest = (1, 0, 0)"
| "stack_op_info Id_push0 = (2, 0, 1)"
| "stack_op_info (Id_dup n) = (3, int n, 1)"
| "stack_op_info (Id_swap n) = (3, int n + 1, 0)"
| "stack_op_info Id_iszero = (3, 1, 0)"
| "stack_op_info Id_not = (3, 1, 0)"
| "stack_op_info Id_addmod = (8, 3, -2)"
| "stack_op_info Id_mulmod = (8, 3, -2)"
| "stack_op_info Id_mul = (5, 2, -1)"
| "stack_op_info Id_div = (5, 2, -1)"
| "stack_op_info Id_sdiv = (5, 2, -1)"
| "stack_op_info Id_mod = (5, 2, -1)"
| "stack_op_info Id_smod = (5, 2, -1)"
| "stack_op_info Id_signextend = (5, 2, -1)"
| "stack_op_info _ = (3, 2, -1)"

fun state_op_info :: "state_op \<Rightarrow> int \<times> int \<times> int" where
  "state_op_info Id_calldataload = (3, 1, 0)"
| "state_op_info Id_blockhash = (20, 1, 0)"
| "state_op_info Id_selfbalance = (5, 0, 1)"
| "state_op_info _ = (2, 0, 1)"

fun result_op_info :: "result_op \<Rightarrow> int \<times> int \<times> int" where
  "result_op_info Id_exp = (10, 2, -1)"
| "result_op_info Id_keccak256 = (30, 2, -1)"
| "result_op_info Id_balance = (100, 1, 0)"
| "result_op_info Id_extcodesize = (100, 1, 0)"
| "result_op_info Id_extcodehash = (100, 1, 0)"
| "result_op_info Id_sload = (100, 1, 0)"
| "result_op_info Id_calldatacopy = (3, 3, -3)"
| "result_op_info Id_codecopy = (3, 3, -3)"
| "result_op_info Id_returndatacopy = (3, 3, -3)"
| "result_op_info Id_extcodecopy = (100, 4, -4)"
| "result_op_info Id_mload = (3, 1, 0)"
| "result_op_info Id_mstore = (3, 2, -2)"
| "result_op_info Id_mstore8 = (3, 2, -2)"
| "result_op_info Id_sstore = (0, 2, -2)"
| "result_op_info Id_gas = (2, 0, 1)"
| "result_op_info (Id_log n) = (375 * (int n + 1), int n + 2, - int n - 2)"
| "result_op_info Id_call = (100, 7, -6)"
| "result_op_info Id_delegatecall = (100, 6, -5)"
| "result_op_info Id_staticcall = (100, 6, -5)"
| "result_op_info Id_create = (32000, 3, -2)"
| "result_op_info Id_create2 = (32000, 4, -3)"

fun iter_op_info :: "iter_op \<Rightarrow> int \<times> int \<times> int" where
  "iter_op_info Id_jump = (8, 1, -1)"
| "iter_op_info Id_jumpi = (10, 2, -2)"
| "iter_op_info Id_pc = (2, 0, 1)"
| "iter_op_info (Id_push n) = (3, 0, 1)"

fun term_op_info :: "term_op \<Rightarrow> int \<times> int \<times> int" where
  "term_op_info Id_stop = (0, 0, 0)"
| "term_op_info Id_invalid = (0, 0, 0)"
| "term_op_info Id_return = (0, 2, -2)"
| "term_op_info Id_revert = (0, 2, -2)"

fun op_info :: "op_id \<Rightarrow> int \<times> int \<times> int" where
  "op_info (Stack_op i) = stack_op_info i"
| "op_info (State_op i) = state_op_info i"
| "op_info (Result_op i) = result_op_info i"
| "op_info (Iter_op i) = iter_op_info i"
| "op_info (Term_op i) = term_op_info i"

text \<open>The ranges of the template arguments (the \<open>static_assert\<close>s of the templates).\<close>

fun op_args_ok :: "op_id \<Rightarrow> bool" where
  "op_args_ok (Stack_op (Id_dup n)) = (1 \<le> n \<and> n \<le> 16)"
| "op_args_ok (Stack_op (Id_swap n)) = (1 \<le> n \<and> n \<le> 16)"
| "op_args_ok (Iter_op (Id_push n)) = (1 \<le> n \<and> n \<le> 32)"
| "op_args_ok (Result_op (Id_log n)) = (n \<le> 4)"
| "op_args_ok _ = True"

text \<open>The number of immediate bytes that follow the opcode.\<close>

fun op_immediate :: "op_id \<Rightarrow> nat" where
  "op_immediate (Iter_op (Id_push n)) = n"
| "op_immediate _ = 0"

fun is_term_op :: "op_id \<Rightarrow> bool" where
  "is_term_op (Term_op _) = True"
| "is_term_op _ = False"

fun is_jump_op :: "op_id \<Rightarrow> bool" where
  "is_jump_op (Iter_op Id_jump) = True"
| "is_jump_op (Iter_op Id_jumpi) = True"
| "is_jump_op _ = False"

definition entry_agrees :: "op_id option \<Rightarrow> int \<Rightarrow> Traits \<Rightarrow> bool" where
  "entry_agrees io g tr =
     (case io of
        Some i \<Rightarrow>
          op_args_ok i \<and> (g, stack_height_required tr, stack_height_change tr) = op_info i \<and>
          name tr \<noteq> None \<and> immediate_size tr = op_immediate i \<and>
          is_terminating tr = is_term_op i
      | None \<Rightarrow> g = undefined_cost \<and> tr = default_traits)"

lemma tables_agree_all:
  "list_all (\<lambda>((op, io), g, tr). entry_agrees io g tr)
     (zip MAP_OPCODES (zip (gas_costs ZVMC_SHANGHAI) traits))"
  by code_simp

lemma length_assign [simp]: "length (assign upds tbl) = length tbl"
proof -
  have "length (fold (\<lambda>(i, v) t. t[i := v]) upds t) = length t" for t :: "'a list"
    by (induction upds arbitrary: t) auto
  then show ?thesis by (simp add: assign_def)
qed

lemma length_gas_costs [simp]: "length (gas_costs r) = 256"
  by (cases r) simp

declare gas_costs.simps [simp del]

lemma length_traits [simp]: "length traits = 256"
  by (simp add: traits_def)

lemma tables_agree:
  assumes "op < 256"
  shows "entry_agrees (snd (MAP_OPCODES ! op)) (gas_costs ZVMC_SHANGHAI ! op) (traits ! op)"
  using tables_agree_all assms
  by (auto simp: list_all_length split_def)

lemma op_tables:
  assumes "op < 256" and "map_of MAP_OPCODES op = Some (Some i)"
  shows "op_args_ok i"
    and "gas_costs ZVMC_SHANGHAI ! op = fst (op_info i)"
    and "stack_height_required (traits ! op) = fst (snd (op_info i))"
    and "stack_height_change (traits ! op) = snd (snd (op_info i))"
    and "immediate_size (traits ! op) = op_immediate i"
proof -
  have io: "snd (MAP_OPCODES ! op) = Some i"
    using MAP_OPCODES_index [OF assms(1)] assms(2) by simp
  have *: "op_args_ok i \<and> (gas_costs ZVMC_SHANGHAI ! op, stack_height_required (traits ! op),
      stack_height_change (traits ! op)) = op_info i \<and> immediate_size (traits ! op) = op_immediate i"
    using tables_agree [OF assms(1)] by (simp add: entry_agrees_def io)
  then show "op_args_ok i" by simp
  from * have eq: "op_info i = (gas_costs ZVMC_SHANGHAI ! op, stack_height_required (traits ! op),
      stack_height_change (traits ! op))" by simp
  show "gas_costs ZVMC_SHANGHAI ! op = fst (op_info i)"
    and "stack_height_required (traits ! op) = fst (snd (op_info i))"
    and "stack_height_change (traits ! op) = snd (snd (op_info i))"
    unfolding eq by simp_all
  from * show "immediate_size (traits ! op) = op_immediate i" by simp
qed

lemma has_const_gas_cost [simp]: "has_const_gas_cost op"
  by (simp add: has_const_gas_cost_def later_revisions_def)

lemma get_baseline_cost_table_eq:
  "op < 256 \<Longrightarrow> get_baseline_cost_table r ! op = gas_costs r ! op"
  by (simp add: get_baseline_cost_table_def)

end
