(* ===== verification/Zvm_State.thy ===== *)
theory Zvm_State
  imports Zvm_Memory Zvm_Traits
begin

text \<open>
  The data the interpreters work on: the stack space and the \<open>StackTop\<close> pointer, the
  types of the ZVMC interface that the code uses, the external functions (host, hash,
  256-bit library) as a record of parameters, and \<open>ExecutionState\<close>
  (\<open>lib/zvmone/execution_state.hpp\<close>, \<open>lib/zvmone/instructions.hpp\<close>).
\<close>

section \<open>ZVMC types\<close>

text \<open>The enumerators and structures of \<open>zvmc.h\<close> that the code names.\<close>

datatype status_code =
    ZVMC_SUCCESS | ZVMC_FAILURE | ZVMC_REVERT | ZVMC_OUT_OF_GAS | ZVMC_INVALID_INSTRUCTION
  | ZVMC_UNDEFINED_INSTRUCTION | ZVMC_STACK_OVERFLOW | ZVMC_STACK_UNDERFLOW
  | ZVMC_BAD_JUMP_DESTINATION | ZVMC_INVALID_MEMORY_ACCESS | ZVMC_STATIC_MODE_VIOLATION
  | ZVMC_PRECOMPILE_FAILURE | ZVMC_CONTRACT_VALIDATION_FAILURE | ZVMC_INTERNAL_ERROR

datatype access_status = ZVMC_ACCESS_COLD | ZVMC_ACCESS_WARM

datatype storage_status =
    ZVMC_STORAGE_ASSIGNED | ZVMC_STORAGE_ADDED | ZVMC_STORAGE_DELETED | ZVMC_STORAGE_MODIFIED
  | ZVMC_STORAGE_DELETED_ADDED | ZVMC_STORAGE_MODIFIED_DELETED | ZVMC_STORAGE_DELETED_RESTORED
  | ZVMC_STORAGE_ADDED_DELETED | ZVMC_STORAGE_MODIFIED_RESTORED

datatype call_kind = ZVMC_CALL | ZVMC_DELEGATECALL | ZVMC_CREATE | ZVMC_CREATE2

definition ZVMC_STATIC :: uint32 where
  "ZVMC_STATIC = 1"

text \<open>
  Byte arrays of fixed size (\<open>address\<close>, \<open>bytes32\<close>, \<open>uint256be\<close>) are the integers that
  \<open>be::load\<close> reads from them.  \<open>input_data\<close> with \<open>input_size\<close> is one byte string, and
  so is the output of a result; gas amounts (\<open>int64_t\<close>) are integers.
\<close>

record message =
  kind :: call_kind
  flags :: uint32
  depth :: int
  gas :: int
  recipient :: address
  sender :: address
  input_data :: bytes
  msg_value :: uint256
  create2_salt :: uint256
  code_address :: address

record zvmc_result =
  res_status :: status_code
  res_gas_left :: int
  res_gas_refund :: int
  output_data :: bytes
  create_address :: address

record tx_context =
  tx_gas_price :: uint256
  tx_origin :: address
  block_coinbase :: address
  block_number :: int
  block_timestamp :: int
  block_gas_limit :: int
  block_prev_randao :: uint256
  chain_id :: uint256
  block_base_fee :: uint256

definition empty_tx_context :: tx_context where
  "empty_tx_context = \<lparr>tx_gas_price = 0, tx_origin = 0, block_coinbase = 0, block_number = 0,
     block_timestamp = 0, block_gas_limit = 0, block_prev_randao = 0, chain_id = 0,
     block_base_fee = 0\<rparr>"

definition empty_message :: message where
  "empty_message = \<lparr>kind = ZVMC_CALL, flags = 0, depth = 0, gas = 0, recipient = 0, sender = 0,
     input_data = [], msg_value = 0, create2_salt = 0, code_address = 0\<rparr>"

section \<open>Code outside the repository\<close>

text \<open>
  The functions the interpreter calls but does not define, as one record of parameters:
  the ZVMC host interface over a host state \<open>'h\<close> (queries leave the host state alone, the
  other calls return the new one; \<open>copy_code\<close> returns the bytes it writes to the buffer),
  Keccak-256 of the ethash library, the non-operator functions of the intx library, and
  what uninitialised storage holds.
\<close>

record 'h platform =
  host_account_exists :: "'h \<Rightarrow> address \<Rightarrow> bool"
  host_get_storage :: "'h \<Rightarrow> address \<Rightarrow> uint256 \<Rightarrow> uint256"
  host_set_storage :: "'h \<Rightarrow> address \<Rightarrow> uint256 \<Rightarrow> uint256 \<Rightarrow> storage_status \<times> 'h"
  host_get_balance :: "'h \<Rightarrow> address \<Rightarrow> uint256"
  host_get_code_size :: "'h \<Rightarrow> address \<Rightarrow> nat"
  host_get_code_hash :: "'h \<Rightarrow> address \<Rightarrow> uint256"
  host_copy_code :: "'h \<Rightarrow> address \<Rightarrow> nat \<Rightarrow> nat \<Rightarrow> bytes"
  host_call :: "'h \<Rightarrow> message \<Rightarrow> zvmc_result \<times> 'h"
  host_get_tx_context :: "'h \<Rightarrow> tx_context"
  host_get_block_hash :: "'h \<Rightarrow> int \<Rightarrow> uint256"
  host_emit_log :: "'h \<Rightarrow> address \<Rightarrow> bytes \<Rightarrow> uint256 list \<Rightarrow> 'h"
  host_access_account :: "'h \<Rightarrow> address \<Rightarrow> access_status \<times> 'h"
  host_access_storage :: "'h \<Rightarrow> address \<Rightarrow> uint256 \<Rightarrow> access_status \<times> 'h"
  ethash_keccak256 :: "bytes \<Rightarrow> uint256"
  intx_sdivrem :: "uint256 \<Rightarrow> uint256 \<Rightarrow> uint256 \<times> uint256"
  intx_addmod :: "uint256 \<Rightarrow> uint256 \<Rightarrow> uint256 \<Rightarrow> uint256"
  intx_mulmod :: "uint256 \<Rightarrow> uint256 \<Rightarrow> uint256 \<Rightarrow> uint256"
  intx_exp :: "uint256 \<Rightarrow> uint256 \<Rightarrow> uint256"
  intx_count_significant_bytes :: "uint256 \<Rightarrow> nat"
  intx_slt :: "uint256 \<Rightarrow> uint256 \<Rightarrow> bool"
  fresh_memory :: "nat \<Rightarrow> byte"
  fresh_stack :: "nat \<Rightarrow> uint256"

section \<open>The stack\<close>

text \<open>
  \<open>StackSpace\<close> is an array of \<open>limit\<close> items; a stack top pointer that lies \<open>t\<close> items above
  the bottom pointer is the number \<open>t\<close>, so item \<open>i\<close> below the top is the array element
  \<open>t - 1 - i\<close>.  Accesses outside the array are undefined.
\<close>

type_synonym stack_space = "nat \<Rightarrow> uint256"
type_synonym stack_top = nat

definition limit :: nat where
  "limit = 1024"

definition stk_at :: "stack_space \<Rightarrow> stack_top \<Rightarrow> nat \<Rightarrow> uint256 option" where
  "stk_at sp t i = (if i < t \<and> t \<le> limit + i then Some (sp (t - 1 - i)) else None)"

definition stk_set :: "stack_space \<Rightarrow> stack_top \<Rightarrow> nat \<Rightarrow> uint256 \<Rightarrow> stack_space option" where
  "stk_set sp t i v = (if i < t \<and> t \<le> limit + i then Some (sp(t - 1 - i := v)) else None)"

definition stk_pop :: "stack_space \<Rightarrow> stack_top \<Rightarrow> (uint256 \<times> stack_top) option" where
  "stk_pop sp t = do { x \<leftarrow> stk_at sp t 0; Some (x, t - 1) }"

definition stk_push :: "stack_space \<Rightarrow> stack_top \<Rightarrow> uint256 \<Rightarrow> (stack_space \<times> stack_top) option" where
  "stk_push sp t v = do { sp' \<leftarrow> stk_set sp (t + 1) 0 v; Some (sp', t + 1) }"

text \<open>The stack as a list, top item first.\<close>

definition stack_view :: "stack_space \<Rightarrow> stack_top \<Rightarrow> uint256 list" where
  "stack_view sp t = map (\<lambda>i. sp (t - 1 - i)) [0..<t]"

lemma length_stack_view [simp]: "length (stack_view sp t) = t"
  by (simp add: stack_view_def)

lemma stack_view_0 [simp]: "stack_view sp 0 = []"
  by (simp add: stack_view_def)

lemma stack_view_Suc: "stack_view sp (Suc t) = sp t # stack_view sp t"
  by (rule nth_equalityI) (auto simp: stack_view_def nth_Cons' simp del: upt_Suc)

lemma stack_view_nth: "i < t \<Longrightarrow> stack_view sp t ! i = sp (t - 1 - i)"
  by (simp add: stack_view_def)

lemma stack_view_upd_above [simp]: "t \<le> i \<Longrightarrow> stack_view (sp(i := v)) t = stack_view sp t"
  by (rule nth_equalityI) (auto simp: stack_view_nth)

lemma stack_view_drop: "k \<le> t \<Longrightarrow> stack_view sp (t - k) = drop k (stack_view sp t)"
  by (rule nth_equalityI) (auto simp: stack_view_nth)

lemma stk_at_in [stack_simps]: "i < t \<Longrightarrow> t \<le> limit \<Longrightarrow> stk_at sp t i = Some (sp (t - 1 - i))"
  by (simp add: stk_at_def)

lemma stk_set_in [stack_simps]:
  "i < t \<Longrightarrow> t \<le> limit \<Longrightarrow> stk_set sp t i v = Some (sp(t - 1 - i := v))"
  by (simp add: stk_set_def)

lemma stk_pop_in [stack_simps]:
  "0 < t \<Longrightarrow> t \<le> limit \<Longrightarrow> stk_pop sp t = Some (sp (t - 1), t - 1)"
  by (simp add: stk_pop_def stk_at_def)

lemma stk_push_in [stack_simps]:
  "t < limit \<Longrightarrow> stk_push sp t v = Some (sp(t := v), t + 1)"
  by (simp add: stk_push_def stk_set_def)

section \<open>The execution state\<close>

text \<open>
  \<open>baseline::CodeAnalysis\<close>: the padded code (\<open>executable_code\<close> points into it and has the
  size of the original code) and the map of valid jump destinations.
\<close>

record code_analysis =
  padded_code :: bytes
  executable_size :: nat
  jumpdest_map :: "bool list"

record 'h exec_state =
  gas_refund :: int
  memory :: memory
  msg :: message
  host :: 'h
  st_rev :: revision
  return_data :: bytes
  original_code :: bytes
  status :: status_code
  output_offset :: nat
  output_size :: nat
  m_tx :: tx_context
  analysis :: code_analysis
  stack_space :: stack_space

definition no_analysis :: code_analysis where
  "no_analysis = \<lparr>padded_code = [], executable_size = 0, jumpdest_map = []\<rparr>"

definition ExecutionState :: "'h platform \<Rightarrow> message \<Rightarrow> revision \<Rightarrow> 'h \<Rightarrow> bytes \<Rightarrow> 'h exec_state" where
  "ExecutionState P m r h code =
     \<lparr>gas_refund = 0, memory = memory_new (fresh_memory P), msg = m, host = h, st_rev = r,
      return_data = [], original_code = code, status = ZVMC_SUCCESS, output_offset = 0,
      output_size = 0, m_tx = empty_tx_context, analysis = no_analysis,
      stack_space = fresh_stack P\<rparr>"

definition reset :: "'h exec_state \<Rightarrow> message \<Rightarrow> revision \<Rightarrow> 'h \<Rightarrow> bytes \<Rightarrow> 'h exec_state" where
  "reset st m r h code =
     st\<lparr>gas_refund := 0, memory := mem_clear (memory st), msg := m, host := h, st_rev := r,
        return_data := [], original_code := code, status := ZVMC_SUCCESS, output_offset := 0,
        output_size := 0, m_tx := empty_tx_context\<rparr>"

definition in_static_mode :: "'h exec_state \<Rightarrow> bool" where
  "in_static_mode st \<longleftrightarrow> flags (msg st) AND ZVMC_STATIC \<noteq> 0"

text \<open>The transaction context is fetched from the host on first use.\<close>

definition get_tx_context :: "'h platform \<Rightarrow> 'h exec_state \<Rightarrow> tx_context \<times> 'h exec_state" where
  "get_tx_context P st =
     (let st' = (if block_timestamp (m_tx st) = 0
                 then st\<lparr>m_tx := host_get_tx_context P (host st)\<rparr> else st)
      in (m_tx st', st'))"

lemma get_tx_context_frame [simp]:
  "memory (snd (get_tx_context P st)) = memory st"
  "stack_space (snd (get_tx_context P st)) = stack_space st"
  "msg (snd (get_tx_context P st)) = msg st"
  "host (snd (get_tx_context P st)) = host st"
  "analysis (snd (get_tx_context P st)) = analysis st"
  "output_size (snd (get_tx_context P st)) = output_size st"
  "output_offset (snd (get_tx_context P st)) = output_offset st"
  by (simp_all add: get_tx_context_def Let_def)

end
