(* ===== verification/Zvm_Gas_Memory.thy ===== *)
theory Zvm_Gas_Memory
  imports Zvm_State
begin

text \<open>
  Memory expansion and its gas cost: \<open>num_words\<close>, \<open>grow_memory\<close> and the two overloads of
  \<open>check_memory\<close> (\<open>lib/zvmone/instructions.hpp\<close>).  Every instruction that reads or writes
  memory first calls \<open>check_memory\<close>; the lemmas give what the callers rely on: a
  successful check makes the whole accessed range part of the memory, charges exactly
  the difference of the quadratic cost function, and never moves or changes old bytes.
\<close>

section \<open>Definitions\<close>

definition max_buffer_size :: nat where
  "max_buffer_size = 2 ^ 32 - 1"

definition word_size :: nat where
  "word_size = 32"

text \<open>The addition is done in \<open>uint64_t\<close>.\<close>

definition num_words :: "nat \<Rightarrow> int" where
  "num_words size_in_bytes = int (((size_in_bytes + (word_size - 1)) mod 2 ^ 64) div word_size)"

definition grow_memory :: "int \<Rightarrow> memory \<Rightarrow> nat \<Rightarrow> (int \<times> memory) option" where
  "grow_memory gas_left m new_size =
     (let new_words = num_words new_size;
          current_words = int (m_size m div word_size);
          new_cost = 3 * new_words + new_words * new_words div 512;
          current_cost = 3 * current_words + current_words * current_words div 512;
          gas_left = gas_left - (new_cost - current_cost)
      in if gas_left \<ge> 0
         then do { m \<leftarrow> grow m (nat (new_words * int word_size)); Some (gas_left, m) }
         else Some (gas_left, m))"

text \<open>\<open>check_memory\<close> for a size of type \<open>uint64_t\<close>; the gas is an in-out parameter.\<close>

definition check_memory_size :: "int \<Rightarrow> memory \<Rightarrow> uint256 \<Rightarrow> nat \<Rightarrow> (bool \<times> int \<times> memory) option" where
  "check_memory_size gas_left m offset sz =
     (if (limb offset 3 OR limb offset 2 OR limb offset 1) \<noteq> 0 \<or>
         unat (limb offset 0) > max_buffer_size
      then Some (False, gas_left, m)
      else let new_size = (to_size offset + sz) mod 2 ^ 64 in
        if new_size > m_size m
        then do { (gas_left, m) \<leftarrow> grow_memory gas_left m new_size;
                  Some (gas_left \<ge> 0, gas_left, m) }
        else Some (gas_left \<ge> 0, gas_left, m))"

text \<open>\<open>check_memory\<close> for the copy instructions, with a 256-bit size.\<close>

definition check_memory :: "int \<Rightarrow> memory \<Rightarrow> uint256 \<Rightarrow> uint256 \<Rightarrow> (bool \<times> int \<times> memory) option" where
  "check_memory gas_left m offset sz =
     (if sz = 0 then Some (True, gas_left, m)
      else if (limb sz 3 OR limb sz 2 OR limb sz 1) \<noteq> 0 \<or> unat (limb sz 0) > max_buffer_size
      then Some (False, gas_left, m)
      else check_memory_size gas_left m offset (to_size sz))"

section \<open>The cost of a memory size\<close>

text \<open>The total cost of a memory of \<open>w\<close> words, whatever the sequence of expansions.\<close>

definition memory_cost :: "int \<Rightarrow> int" where
  "memory_cost w = 3 * w + w * w div 512"

lemma memory_cost_mono: "0 \<le> a \<Longrightarrow> a \<le> b \<Longrightarrow> memory_cost a \<le> memory_cost b"
  unfolding memory_cost_def
  by (intro add_mono mult_left_mono zdiv_mono1 mult_mono) auto

lemma memory_cost_0 [simp]: "memory_cost 0 = 0"
  by (simp add: memory_cost_def)

lemma num_words_bounds:
  assumes "n + 31 < 2 ^ 64"
  shows "int n \<le> 32 * num_words n" and "32 * num_words n < int n + 32"
  using assms by (simp_all add: num_words_def word_size_def)

lemma num_words_nonneg [simp]: "0 \<le> num_words n"
  by (simp add: num_words_def)

section \<open>Limb tests\<close>

lemma high_limbs_zero_iff:
  "(limb x 3 OR limb x 2 OR limb x 1) = 0 \<longleftrightarrow> unat x < 2 ^ 64"
proof -
  have "(limb x 3 OR limb x 2 OR limb x 1) = 0 \<longleftrightarrow> drop_bit 64 x = 0"
  proof
    assume "(limb x 3 OR limb x 2 OR limb x 1) = 0"
    then have z: "\<not> bit (limb x 3) n \<and> \<not> bit (limb x 2) n \<and> \<not> bit (limb x 1) n" for n
      by (metis bit_0_eq bit_or_iff bot_apply bot_bool_def)
    show "drop_bit 64 x = 0"
    proof (rule bit_word_eqI)
      fix n assume "n < LENGTH(256)"
      consider "n < 64" | "64 \<le> n" "n < 128" | "128 \<le> n" "n < 192" | "192 \<le> n" by linarith
      then show "bit (drop_bit 64 x) n = bit (0 :: uint256) n"
      proof cases
        case 1 then show ?thesis using z [of n] by (simp add: bit_simps bit_limb)
      next
        case 2 then show ?thesis using z [of "n - 64"] by (auto simp: bit_simps bit_limb)
      next
        case 3 then show ?thesis using z [of "n - 128"] by (auto simp: bit_simps bit_limb)
      next
        case 4 then show ?thesis by (auto simp: bit_simps dest: bit_imp_le_length)
      qed
    qed
  next
    assume *: "drop_bit 64 x = 0"
    have "limb x (Suc i) = 0" for i
    proof -
      have "drop_bit (64 * Suc i) x = drop_bit (64 * i) (drop_bit 64 x)"
        by (simp add: drop_bit_drop_bit ac_simps)
      then show ?thesis by (simp add: limb_def * del: drop_bit_drop_bit)
    qed
    from this [of 0] this [of 1] this [of 2]
    show "(limb x 3 OR limb x 2 OR limb x 1) = 0" by (simp add: numeral_2_eq_2 numeral_3_eq_3)
  qed
  also have "\<dots> \<longleftrightarrow> unat x < 2 ^ 64"
    by (simp add: drop_bit_eq_div unat_div div_eq_0_iff flip: unat_eq_0)
  finally show ?thesis .
qed

lemma buffer_bound_iff:
  "(limb x 3 OR limb x 2 OR limb x 1) \<noteq> 0 \<or> unat (limb x 0) > max_buffer_size \<longleftrightarrow>
     unat x > max_buffer_size"
proof (cases "unat x < 2 ^ 64")
  case True
  then show ?thesis using to_size_small [of x] by (simp add: high_limbs_zero_iff to_size_def del: One_nat_def)
next
  case False
  then have "max_buffer_size < unat x" by (simp add: max_buffer_size_def)
  then show ?thesis using False by (simp only: high_limbs_zero_iff simp_thms not_True_eq_False)
qed

lemma to_size_buffer: "unat x \<le> max_buffer_size \<Longrightarrow> to_size x = unat x"
  by (rule to_size_small) (simp add: max_buffer_size_def)

section \<open>What a check does\<close>

lemma grow_memory_spec:
  assumes inv: "mem_inv m" and n: "m_size m < n" "n + 31 < 2 ^ 64"
  defines "cost \<equiv> memory_cost (num_words n) - memory_cost (int (m_size m div 32))"
  shows "if cost \<le> g
    then \<exists>m'. grow_memory g m n = Some (g - cost, m') \<and> mem_inv m' \<and>
           m_size m' = nat (32 * num_words n) \<and>
           mem_view m' = mem_view m @ replicate (m_size m' - m_size m) 0
    else grow_memory g m n = Some (g - cost, m)"
proof -
  define N where "N = nat (num_words n * int word_size)"
  have N: "N = nat (32 * num_words n)" by (simp add: N_def word_size_def ac_simps)
  have "m_size m < N" using num_words_bounds [OF n(2)] n(1) by (simp add: N)
  moreover have "N mod 32 = 0" by (simp add: N nat_mult_distrib)
  ultimately obtain m' where m': "grow m N = Some m'" using grow_defined [of N m] by auto
  have eq: "grow_memory g m n = (if cost \<le> g then Some (g - cost, m') else Some (g - cost, m))"
    using m' by (simp add: grow_memory_def Let_def cost_def memory_cost_def word_size_def N_def)
  show ?thesis
    using eq grow_inv [OF m' inv] grow_view [OF m' inv] grow_size [OF m'] by (auto simp: N)
qed

lemma expansion_cost_pos:
  assumes "mem_inv m" and "m_size m < n" and "n + 31 < 2 ^ 64"
  shows "3 \<le> memory_cost (num_words n) - memory_cost (int (m_size m div 32))"
proof -
  have "int (m_size m div 32) + 1 \<le> num_words n"
    using num_words_bounds(1) [OF assms(3)] assms(1,2) by (auto simp: mem_inv_def)
  then have "memory_cost (int (m_size m div 32) + 1) \<le> memory_cost (num_words n)"
    by (intro memory_cost_mono) auto
  moreover have "memory_cost w + 3 \<le> memory_cost (w + 1)" if "0 \<le> w" for w
  proof -
    have "w * w div 512 \<le> (w + 1) * (w + 1) div 512"
      using that by (intro zdiv_mono1 mult_mono) auto
    then show ?thesis by (simp add: memory_cost_def)
  qed
  from this [of "int (m_size m div 32)"]
  have "memory_cost (int (m_size m div 32)) + 3 \<le> memory_cost (int (m_size m div 32) + 1)" by simp
  ultimately show ?thesis by linarith
qed

text \<open>
  The outcome of a check, for all callers: the memory is extended by zeros or not at all,
  and the charge is the difference of the total costs.
\<close>

definition mem_extends :: "memory \<Rightarrow> memory \<Rightarrow> bool" where
  "mem_extends m m' \<longleftrightarrow> mem_inv m' \<and> m_size m \<le> m_size m' \<and>
     mem_view m' = mem_view m @ replicate (m_size m' - m_size m) 0"

definition checked :: "int \<Rightarrow> memory \<Rightarrow> nat \<Rightarrow> nat \<Rightarrow> bool \<times> int \<times> memory \<Rightarrow> bool" where
  "checked g m off n r \<longleftrightarrow> (case r of (ok, g', m') \<Rightarrow>
     mem_inv m' \<and> g' \<le> g \<and>
     (if ok then 0 \<le> g' \<and> mem_extends m m' \<and> (n \<noteq> 0 \<longrightarrow> off + n \<le> m_size m') \<and>
        g - g' = memory_cost (int (m_size m' div 32)) - memory_cost (int (m_size m div 32))
      else m' = m))"

lemma mem_extends_refl: "mem_inv m \<Longrightarrow> mem_extends m m"
  by (simp add: mem_extends_def)

lemma check_memory_size_checked:
  assumes inv: "mem_inv m" and g: "0 \<le> g" and sz: "sz \<le> max_buffer_size"
  shows "\<exists>r. check_memory_size g m offset sz = Some r \<and> checked g m (to_size offset) sz r \<and>
    (fst r \<longrightarrow> unat offset \<le> max_buffer_size)"
proof (cases "unat offset \<le> max_buffer_size")
  case False
  then have "check_memory_size g m offset sz = Some (False, g, m)"
    unfolding check_memory_size_def by (simp only: buffer_bound_iff not_le if_True)
  then show ?thesis using inv by (simp add: checked_def)
next
  case True
  define n where "n = to_size offset + sz"
  have small: "n + 31 < 2 ^ 64"
    using True sz to_size_buffer [OF True] by (simp add: n_def max_buffer_size_def)
  have eq: "check_memory_size g m offset sz =
      (if n > m_size m then do { (g, m) \<leftarrow> grow_memory g m n; Some (g \<ge> 0, g, m) }
       else Some (True, g, m))"
    unfolding check_memory_size_def buffer_bound_iff using True small g
    by (simp add: n_def [symmetric])
  show ?thesis
  proof (cases "n > m_size m")
    case False
    then show ?thesis using eq inv g True
      by (auto simp: checked_def mem_extends_refl n_def)
  next
    case big: True
    define cost where "cost = memory_cost (num_words n) - memory_cost (int (m_size m div 32))"
    have pos: "0 \<le> cost" using expansion_cost_pos [OF inv big small] by (simp add: cost_def)
    note spec = grow_memory_spec [OF inv big small, of g, folded cost_def]
    show ?thesis
    proof (cases "cost \<le> g")
      case False
      then show ?thesis using eq big spec inv pos by (auto simp: checked_def True)
    next
      case afford: True
      then obtain m' where m': "grow_memory g m n = Some (g - cost, m')" "mem_inv m'"
          "m_size m' = nat (32 * num_words n)"
          "mem_view m' = mem_view m @ replicate (m_size m' - m_size m) 0"
        using spec by auto
      have "n \<le> m_size m'" using num_words_bounds(1) [OF small] m'(3) by simp
      moreover have "int (m_size m' div 32) = num_words n"
        using m'(3) by (simp add: nat_mult_distrib zdiv_int)
      ultimately show ?thesis
        using eq big m' afford pos True
        by (auto simp: checked_def mem_extends_def n_def cost_def)
    qed
  qed
qed

lemma check_memory_checked:
  assumes inv: "mem_inv m" and g: "0 \<le> g"
  shows "\<exists>r. check_memory g m offset sz = Some r \<and> checked g m (to_size offset) (to_size sz) r \<and>
    (fst r \<longrightarrow> unat sz \<le> max_buffer_size \<and> (sz \<noteq> 0 \<longrightarrow> unat offset \<le> max_buffer_size))"
proof (cases "sz = 0")
  case True
  then show ?thesis using inv g
    by (simp add: check_memory_def checked_def mem_extends_refl to_size_def limb_def)
next
  case nz: False
  show ?thesis
  proof (cases "unat sz \<le> max_buffer_size")
    case False
    then have "check_memory g m offset sz = Some (False, g, m)"
      unfolding check_memory_def using nz by (simp only: buffer_bound_iff not_le if_True if_False)
    then show ?thesis using inv by (simp add: checked_def)
  next
    case True
    then have "check_memory g m offset sz = check_memory_size g m offset (to_size sz)"
      unfolding check_memory_def buffer_bound_iff using nz by simp
    then show ?thesis
      using check_memory_size_checked [OF inv g, of "to_size sz" offset] True nz
      by (auto simp: to_size_buffer)
  qed
qed

end
