(* ===== verification/Zvm_Core.thy ===== *)
theory Zvm_Core
  imports Zvm_Gas_Memory
begin

text \<open>
  The instructions of \<open>lib/zvmone/instructions.hpp\<close> that use the execution state: block
  and transaction information, memory access, copying, hashing, logging, jumps, pushes and
  the terminating instructions.  Every definition follows the order of checks, charges and
  effects of its C++ function.  Storage instructions and calls are in theories of their own.
\<close>

section \<open>Results and stack access through the state\<close>

type_synonym result = "status_code \<times> int"
type_synonym 'h result_fn =
  "'h platform \<Rightarrow> stack_top \<Rightarrow> int \<Rightarrow> 'h exec_state \<Rightarrow> (result \<times> 'h exec_state) option"
type_synonym 'h state_fn = "'h platform \<Rightarrow> stack_top \<Rightarrow> 'h exec_state \<Rightarrow> 'h exec_state option"

text \<open>A code position is an offset into the padded code; \<open>None\<close> is the null pointer.\<close>

type_synonym 'h iter_fn =
  "stack_top \<Rightarrow> 'h exec_state \<Rightarrow> nat \<Rightarrow> (nat option \<times> 'h exec_state) option"

definition st_at :: "'h exec_state \<Rightarrow> stack_top \<Rightarrow> nat \<Rightarrow> uint256 option" where
  "st_at st t i = stk_at (stack_space st) t i"

definition st_pop :: "'h exec_state \<Rightarrow> stack_top \<Rightarrow> (uint256 \<times> stack_top) option" where
  "st_pop st t = stk_pop (stack_space st) t"

definition st_set :: "'h exec_state \<Rightarrow> stack_top \<Rightarrow> nat \<Rightarrow> uint256 \<Rightarrow> 'h exec_state option" where
  "st_set st t i v = do { sp \<leftarrow> stk_set (stack_space st) t i v; Some (st\<lparr>stack_space := sp\<rparr>) }"

definition st_push :: "'h exec_state \<Rightarrow> stack_top \<Rightarrow> uint256 \<Rightarrow> ('h exec_state \<times> stack_top) option" where
  "st_push st t v = do { (sp, t) \<leftarrow> stk_push (stack_space st) t v; Some (st\<lparr>stack_space := sp\<rparr>, t) }"

text \<open>A signed 64-bit value on the stack: the conversion goes through \<open>uint64_t\<close>.\<close>

definition u256_of_int64 :: "int \<Rightarrow> uint256" where
  "u256_of_int64 x = ucast (word_of_int x :: uint64)"

text \<open>\<open>check_memory\<close> on the memory of the state.\<close>

definition st_check_memory ::
  "int \<Rightarrow> 'h exec_state \<Rightarrow> uint256 \<Rightarrow> uint256 \<Rightarrow> (bool \<times> int \<times> 'h exec_state) option" where
  "st_check_memory g st offset sz = do {
     (ok, g, m) \<leftarrow> check_memory g (memory st) offset sz;
     Some (ok, g, st\<lparr>memory := m\<rparr>) }"

definition st_check_memory_size ::
  "int \<Rightarrow> 'h exec_state \<Rightarrow> uint256 \<Rightarrow> nat \<Rightarrow> (bool \<times> int \<times> 'h exec_state) option" where
  "st_check_memory_size g st offset sz = do {
     (ok, g, m) \<leftarrow> check_memory_size g (memory st) offset sz;
     Some (ok, g, st\<lparr>memory := m\<rparr>) }"

definition st_write :: "'h exec_state \<Rightarrow> nat \<Rightarrow> bytes \<Rightarrow> 'h exec_state option" where
  "st_write st off bs = do { m \<leftarrow> mem_write (memory st) off bs; Some (st\<lparr>memory := m\<rparr>) }"

section \<open>Instructions without gas of their own\<close>

definition push_op :: "uint256 \<Rightarrow> stack_top \<Rightarrow> 'h exec_state \<Rightarrow> 'h exec_state option" where
  "push_op v t st = do { (st, t) \<leftarrow> st_push st t v; Some st }"

definition push_tx :: "(tx_context \<Rightarrow> uint256) \<Rightarrow> 'h state_fn" where
  "push_tx f P t st = (let (tx, st) = get_tx_context P st in push_op (f tx) t st)"

definition core_address :: "'h state_fn" where
  "core_address P t st = push_op (ucast (recipient (msg st))) t st"

definition core_origin :: "'h state_fn" where
  "core_origin = push_tx (\<lambda>tx. ucast (tx_origin tx))"

definition core_caller :: "'h state_fn" where
  "core_caller P t st = push_op (ucast (sender (msg st))) t st"

definition core_callvalue :: "'h state_fn" where
  "core_callvalue P t st = push_op (msg_value (msg st)) t st"

definition core_calldataload :: "'h state_fn" where
  "core_calldataload P t st = do {
     index \<leftarrow> st_at st t 0;
     let input = input_data (msg st);
     if length input < unat index then st_set st t 0 0
     else do {
       let first = to_size index;
       let last = min (first + 32) (length input);
       bs \<leftarrow> slice input first (last - first);
       st_set st t 0 (be_load (bs @ replicate (32 - (last - first)) 0)) } }"

definition core_calldatasize :: "'h state_fn" where
  "core_calldatasize P t st = push_op (of_nat (length (input_data (msg st)))) t st"

definition core_codesize :: "'h state_fn" where
  "core_codesize P t st = push_op (of_nat (length (original_code st))) t st"

definition core_gasprice :: "'h state_fn" where
  "core_gasprice = push_tx tx_gas_price"

definition core_basefee :: "'h state_fn" where
  "core_basefee = push_tx block_base_fee"

definition core_returndatasize :: "'h state_fn" where
  "core_returndatasize P t st = push_op (of_nat (length (return_data st))) t st"

definition core_blockhash :: "'h state_fn" where
  "core_blockhash P t st = do {
     number \<leftarrow> st_at st t 0;
     let (tx, st) = get_tx_context P st;
     let upper_bound = block_number tx;
     let lower_bound = max (upper_bound - 256) 0;
     let n = sint (limb number 0);
     let header = (if number < u256_of_int64 upper_bound \<and> n \<ge> lower_bound
                   then host_get_block_hash P (host st) n else 0);
     st_set st t 0 header }"

definition core_coinbase :: "'h state_fn" where
  "core_coinbase = push_tx (\<lambda>tx. ucast (block_coinbase tx))"

definition core_timestamp :: "'h state_fn" where
  "core_timestamp = push_tx (\<lambda>tx. u256_of_int64 (block_timestamp tx))"

definition core_number :: "'h state_fn" where
  "core_number = push_tx (\<lambda>tx. u256_of_int64 (block_number tx))"

definition core_prevrandao :: "'h state_fn" where
  "core_prevrandao = push_tx block_prev_randao"

definition core_gaslimit :: "'h state_fn" where
  "core_gaslimit = push_tx (\<lambda>tx. u256_of_int64 (block_gas_limit tx))"

definition core_chainid :: "'h state_fn" where
  "core_chainid = push_tx chain_id"

definition core_selfbalance :: "'h state_fn" where
  "core_selfbalance P t st = push_op (host_get_balance P (host st) (recipient (msg st))) t st"

definition core_msize :: "'h state_fn" where
  "core_msize P t st = push_op (of_nat (m_size (memory st))) t st"

fun state_impl :: "state_op \<Rightarrow> 'h state_fn" where
  "state_impl Id_address = core_address"
| "state_impl Id_origin = core_origin"
| "state_impl Id_caller = core_caller"
| "state_impl Id_callvalue = core_callvalue"
| "state_impl Id_calldataload = core_calldataload"
| "state_impl Id_calldatasize = core_calldatasize"
| "state_impl Id_codesize = core_codesize"
| "state_impl Id_gasprice = core_gasprice"
| "state_impl Id_basefee = core_basefee"
| "state_impl Id_returndatasize = core_returndatasize"
| "state_impl Id_blockhash = core_blockhash"
| "state_impl Id_coinbase = core_coinbase"
| "state_impl Id_timestamp = core_timestamp"
| "state_impl Id_number = core_number"
| "state_impl Id_prevrandao = core_prevrandao"
| "state_impl Id_gaslimit = core_gaslimit"
| "state_impl Id_chainid = core_chainid"
| "state_impl Id_selfbalance = core_selfbalance"
| "state_impl Id_msize = core_msize"

section \<open>Instructions that charge gas\<close>

definition core_exp :: "'h result_fn" where
  "core_exp P t gas_left st = do {
     (base, t) \<leftarrow> st_pop st t;
     exponent \<leftarrow> st_at st t 0;
     let gas_left = gas_left - int (intx_count_significant_bytes P exponent) * 50;
     if gas_left < 0 then Some ((ZVMC_OUT_OF_GAS, gas_left), st)
     else do {
       st \<leftarrow> st_set st t 0 (intx_exp P base exponent);
       Some ((ZVMC_SUCCESS, gas_left), st) } }"

definition core_keccak256 :: "'h result_fn" where
  "core_keccak256 P t gas_left st = do {
     (index, t) \<leftarrow> st_pop st t;
     sz \<leftarrow> st_at st t 0;
     (ok, gas_left, st) \<leftarrow> st_check_memory gas_left st index sz;
     if \<not> ok then Some ((ZVMC_OUT_OF_GAS, gas_left), st)
     else do {
       let i = to_size index;
       let s = to_size sz;
       let gas_left = gas_left - num_words s * 6;
       if gas_left < 0 then Some ((ZVMC_OUT_OF_GAS, gas_left), st)
       else do {
         data \<leftarrow> (if s \<noteq> 0 then mem_read (memory st) i s else Some []);
         st \<leftarrow> st_set st t 0 (ethash_keccak256 P data);
         Some ((ZVMC_SUCCESS, gas_left), st) } } }"

text \<open>The cold account surcharge, shared by the account access instructions.\<close>

definition access_account_cost ::
  "'h platform \<Rightarrow> address \<Rightarrow> int \<Rightarrow> 'h exec_state \<Rightarrow> bool \<times> int \<times> 'h exec_state" where
  "access_account_cost P addr gas_left st =
     (let (acc, h) = host_access_account P (host st) addr;
          st = st\<lparr>host := h\<rparr>
      in if acc = ZVMC_ACCESS_COLD
         then let gas_left = gas_left - additional_cold_account_access_cost
              in (gas_left \<ge> 0, gas_left, st)
         else (True, gas_left, st))"

definition account_query :: "('h \<Rightarrow> address \<Rightarrow> uint256) \<Rightarrow> 'h result_fn" where
  "account_query f P t gas_left st = do {
     x \<leftarrow> st_at st t 0;
     let addr = ucast x;
     let (ok, gas_left, st) = access_account_cost P addr gas_left st;
     if \<not> ok then Some ((ZVMC_OUT_OF_GAS, gas_left), st)
     else do {
       st \<leftarrow> st_set st t 0 (f (host st) addr);
       Some ((ZVMC_SUCCESS, gas_left), st) } }"

definition core_balance :: "'h result_fn" where
  "core_balance P = account_query (host_get_balance P) P"

definition core_extcodesize :: "'h result_fn" where
  "core_extcodesize P = account_query (\<lambda>h a. of_nat (host_get_code_size P h a)) P"

definition core_extcodehash :: "'h result_fn" where
  "core_extcodehash P = account_query (host_get_code_hash P) P"

text \<open>\<open>calldatacopy\<close> and \<open>codecopy\<close> have the same body over different buffers.\<close>

definition buffer_copy :: "bytes \<Rightarrow> 'h result_fn" where
  "buffer_copy buf P t gas_left st = do {
     (mem_index, t) \<leftarrow> st_pop st t;
     (input_index, t) \<leftarrow> st_pop st t;
     (sz, t) \<leftarrow> st_pop st t;
     (ok, gas_left, st) \<leftarrow> st_check_memory gas_left st mem_index sz;
     if \<not> ok then Some ((ZVMC_OUT_OF_GAS, gas_left), st)
     else do {
       let dst = to_size mem_index;
       let src = (if length buf < unat input_index then length buf else to_size input_index);
       let s = to_size sz;
       let copy_size = min s (length buf - src);
       let gas_left = gas_left - num_words s * 3;
       if gas_left < 0 then Some ((ZVMC_OUT_OF_GAS, gas_left), st)
       else do {
         st \<leftarrow> (if copy_size > 0
               then do { bs \<leftarrow> slice buf src copy_size; st_write st dst bs } else Some st);
         st \<leftarrow> (if s - copy_size > 0
               then st_write st (dst + copy_size) (replicate (s - copy_size) 0) else Some st);
         Some ((ZVMC_SUCCESS, gas_left), st) } } }"

definition core_calldatacopy :: "'h result_fn" where
  "core_calldatacopy P t gas_left st = buffer_copy (input_data (msg st)) P t gas_left st"

definition core_codecopy :: "'h result_fn" where
  "core_codecopy P t gas_left st = buffer_copy (original_code st) P t gas_left st"

text \<open>
  The host writes the bytes that \<open>copy_code\<close> returns into the memory itself; more bytes
  than the buffer size would be a write outside the buffer.
\<close>

definition core_extcodecopy :: "'h result_fn" where
  "core_extcodecopy P t gas_left st = do {
     (a, t) \<leftarrow> st_pop st t;
     let addr = ucast a;
     (mem_index, t) \<leftarrow> st_pop st t;
     (input_index, t) \<leftarrow> st_pop st t;
     (sz, t) \<leftarrow> st_pop st t;
     (ok, gas_left, st) \<leftarrow> st_check_memory gas_left st mem_index sz;
     if \<not> ok then Some ((ZVMC_OUT_OF_GAS, gas_left), st)
     else do {
       let s = to_size sz;
       let gas_left = gas_left - num_words s * 3;
       if gas_left < 0 then Some ((ZVMC_OUT_OF_GAS, gas_left), st)
       else do {
         let (ok, gas_left, st) = access_account_cost P addr gas_left st;
         if \<not> ok then Some ((ZVMC_OUT_OF_GAS, gas_left), st)
         else do {
           st \<leftarrow> (if s > 0
                 then do {
                   let src = (if max_buffer_size < unat input_index then max_buffer_size
                              else to_size input_index);
                   let dst = to_size mem_index;
                   let bs = host_copy_code P (host st) addr src s;
                   let num_bytes_copied = length bs;
                   if s < num_bytes_copied then None
                   else do {
                     st \<leftarrow> st_write st dst bs;
                     if s - num_bytes_copied > 0
                     then st_write st (dst + num_bytes_copied) (replicate (s - num_bytes_copied) 0)
                     else Some st } }
                 else Some st);
           Some ((ZVMC_SUCCESS, gas_left), st) } } } }"

definition core_returndatacopy :: "'h result_fn" where
  "core_returndatacopy P t gas_left st = do {
     (mem_index, t) \<leftarrow> st_pop st t;
     (input_index, t) \<leftarrow> st_pop st t;
     (sz, t) \<leftarrow> st_pop st t;
     (ok, gas_left, st) \<leftarrow> st_check_memory gas_left st mem_index sz;
     if \<not> ok then Some ((ZVMC_OUT_OF_GAS, gas_left), st)
     else do {
       let dst = to_size mem_index;
       let s = to_size sz;
       if length (return_data st) < unat input_index
       then Some ((ZVMC_INVALID_MEMORY_ACCESS, gas_left), st)
       else do {
         let src = to_size input_index;
         if src + s > length (return_data st)
         then Some ((ZVMC_INVALID_MEMORY_ACCESS, gas_left), st)
         else do {
           let gas_left = gas_left - num_words s * 3;
           if gas_left < 0 then Some ((ZVMC_OUT_OF_GAS, gas_left), st)
           else do {
             st \<leftarrow> (if s > 0
                   then do { bs \<leftarrow> slice (return_data st) src s; st_write st dst bs }
                   else Some st);
             Some ((ZVMC_SUCCESS, gas_left), st) } } } } }"

definition core_mload :: "'h result_fn" where
  "core_mload P t gas_left st = do {
     index \<leftarrow> st_at st t 0;
     (ok, gas_left, st) \<leftarrow> st_check_memory_size gas_left st index 32;
     if \<not> ok then Some ((ZVMC_OUT_OF_GAS, gas_left), st)
     else do {
       bs \<leftarrow> mem_read (memory st) (to_size index) 32;
       st \<leftarrow> st_set st t 0 (be_load bs);
       Some ((ZVMC_SUCCESS, gas_left), st) } }"

definition core_mstore :: "'h result_fn" where
  "core_mstore P t gas_left st = do {
     (index, t) \<leftarrow> st_pop st t;
     (v, t) \<leftarrow> st_pop st t;
     (ok, gas_left, st) \<leftarrow> st_check_memory_size gas_left st index 32;
     if \<not> ok then Some ((ZVMC_OUT_OF_GAS, gas_left), st)
     else do {
       st \<leftarrow> st_write st (to_size index) (be_store 32 v);
       Some ((ZVMC_SUCCESS, gas_left), st) } }"

definition core_mstore8 :: "'h result_fn" where
  "core_mstore8 P t gas_left st = do {
     (index, t) \<leftarrow> st_pop st t;
     (v, t) \<leftarrow> st_pop st t;
     (ok, gas_left, st) \<leftarrow> st_check_memory_size gas_left st index 1;
     if \<not> ok then Some ((ZVMC_OUT_OF_GAS, gas_left), st)
     else do {
       st \<leftarrow> st_write st (to_size index) [ucast v];
       Some ((ZVMC_SUCCESS, gas_left), st) } }"

definition core_gas :: "'h result_fn" where
  "core_gas P t gas_left st = do {
     (st, t) \<leftarrow> st_push st t (u256_of_int64 gas_left);
     Some ((ZVMC_SUCCESS, gas_left), st) }"

text \<open>\<open>log<NumTopics>\<close>: the topics are popped one after the other.\<close>

fun pop_topics :: "'h exec_state \<Rightarrow> stack_top \<Rightarrow> nat \<Rightarrow> uint256 list option" where
  "pop_topics st t 0 = Some []"
| "pop_topics st t (Suc n) = do {
     (x, t) \<leftarrow> st_pop st t; xs \<leftarrow> pop_topics st t n; Some (x # xs) }"

definition core_log :: "nat \<Rightarrow> 'h result_fn" where
  "core_log NumTopics P t gas_left st =
     (if in_static_mode st then Some ((ZVMC_STATIC_MODE_VIOLATION, 0), st)
      else do {
        (offset, t) \<leftarrow> st_pop st t;
        (sz, t) \<leftarrow> st_pop st t;
        (ok, gas_left, st) \<leftarrow> st_check_memory gas_left st offset sz;
        if \<not> ok then Some ((ZVMC_OUT_OF_GAS, gas_left), st)
        else do {
          let o' = to_size offset;
          let s = to_size sz;
          let gas_left = gas_left - int s * 8;
          if gas_left < 0 then Some ((ZVMC_OUT_OF_GAS, gas_left), st)
          else do {
            topics \<leftarrow> pop_topics st t NumTopics;
            data \<leftarrow> (if s \<noteq> 0 then mem_read (memory st) o' s else Some []);
            let st = st\<lparr>host := host_emit_log P (host st) (recipient (msg st)) data topics\<rparr>;
            Some ((ZVMC_SUCCESS, gas_left), st) } } })"

section \<open>Terminating instructions\<close>

definition core_stop_impl :: "status_code \<Rightarrow> 'h result_fn" where
  "core_stop_impl s P t gas_left st = Some ((s, gas_left), st)"

definition core_return_impl :: "status_code \<Rightarrow> 'h result_fn" where
  "core_return_impl s P t gas_left st = do {
     offset \<leftarrow> st_at st t 0;
     sz \<leftarrow> st_at st t 1;
     (ok, gas_left, st) \<leftarrow> st_check_memory gas_left st offset sz;
     if \<not> ok then Some ((ZVMC_OUT_OF_GAS, gas_left), st)
     else do {
       let st = st\<lparr>output_size := to_size sz\<rparr>;
       let st = (if output_size st \<noteq> 0 then st\<lparr>output_offset := to_size offset\<rparr> else st);
       Some ((s, gas_left), st) } }"

fun term_impl :: "term_op \<Rightarrow> 'h result_fn" where
  "term_impl Id_stop = core_stop_impl ZVMC_SUCCESS"
| "term_impl Id_invalid = core_stop_impl ZVMC_INVALID_INSTRUCTION"
| "term_impl Id_return = core_return_impl ZVMC_SUCCESS"
| "term_impl Id_revert = core_return_impl ZVMC_REVERT"

section \<open>Jumps and pushes\<close>

definition core_jump_impl :: "'h exec_state \<Rightarrow> uint256 \<Rightarrow> nat option \<times> 'h exec_state" where
  "core_jump_impl st dst =
     (let jm = jumpdest_map (analysis st) in
      if unat dst \<ge> length jm \<or> \<not> jm ! to_size dst
      then (None, st\<lparr>status := ZVMC_BAD_JUMP_DESTINATION\<rparr>)
      else (Some (to_size dst), st))"

definition core_jump :: "'h iter_fn" where
  "core_jump t st pos = do { (dst, t) \<leftarrow> st_pop st t; Some (core_jump_impl st dst) }"

definition core_jumpi :: "'h iter_fn" where
  "core_jumpi t st pos = do {
     (dst, t) \<leftarrow> st_pop st t;
     (c, t) \<leftarrow> st_pop st t;
     Some (if c \<noteq> 0 then core_jump_impl st dst else (Some (pos + 1), st)) }"

definition core_pc :: "'h iter_fn" where
  "core_pc t st pos = do {
     (st, t) \<leftarrow> st_push st t (ucast (of_nat pos :: uint64));
     Some (Some (pos + 1), st) }"

text \<open>
  \<open>load_partial_push_data<Len>\<close>: the lengths 1, 2 and 4 have their own loads, length 3
  loads one byte more and lengths 5 to 7 load 8 bytes and shift the excess out.
\<close>

definition load_partial_push_data :: "nat \<Rightarrow> bytes \<Rightarrow> nat \<Rightarrow> uint64 option" where
  "load_partial_push_data Len code pos =
     (if Len = 1 then do { bs \<leftarrow> slice code pos 1; Some (be_load bs) }
      else if Len = 2 then do { bs \<leftarrow> slice code pos 2; Some (ucast (be_load bs :: 16 word)) }
      else if Len = 3
      then do { bs \<leftarrow> slice code pos 4; Some (ucast (drop_bit 8 (be_load bs :: uint32))) }
      else if Len = 4 then do { bs \<leftarrow> slice code pos 4; Some (ucast (be_load bs :: uint32)) }
      else do { bs \<leftarrow> slice code pos 8; Some (drop_bit (8 * (8 - Len)) (be_load bs)) })"

text \<open>The loop over the full words; \<open>k\<close> words remain, word \<open>k - 1\<close> is loaded next.\<close>

fun load_full_words :: "nat \<Rightarrow> bytes \<Rightarrow> nat \<Rightarrow> uint256 \<Rightarrow> uint256 option" where
  "load_full_words 0 code data r = Some r"
| "load_full_words (Suc k) code data r = do {
     bs \<leftarrow> slice code data 8;
     load_full_words k code (data + 8) (set_limb r k (be_load bs)) }"

definition core_push :: "nat \<Rightarrow> 'h iter_fn" where
  "core_push Len t st pos = do {
     let code = padded_code (analysis st);
     let num_full_words = Len div 8;
     let num_partial_bytes = Len mod 8;
     let data = pos + 1;
     (r, data) \<leftarrow>
       (if num_partial_bytes \<noteq> 0
        then do {
          w \<leftarrow> load_partial_push_data num_partial_bytes code data;
          Some (set_limb 0 num_full_words w, data + num_partial_bytes) }
        else Some (0, data));
     r \<leftarrow> load_full_words num_full_words code data r;
     (st, t) \<leftarrow> st_push st t r;
     Some (Some (pos + (Len + 1)), st) }"

fun iter_impl :: "iter_op \<Rightarrow> 'h iter_fn" where
  "iter_impl Id_jump = core_jump"
| "iter_impl Id_jumpi = core_jumpi"
| "iter_impl Id_pc = core_pc"
| "iter_impl (Id_push n) = core_push n"

end
