(* ===== verification/Zvm_Storage.thy ===== *)
theory Zvm_Storage
  imports Zvm_Core
begin

text \<open>
  The storage instructions and their cost tables (\<open>lib/zvmone/instructions_storage.cpp\<close>).
\<close>

section \<open>Costs\<close>

text \<open>A conversion to \<open>int16_t\<close>.\<close>

definition int16 :: "int \<Rightarrow> int" where
  "int16 x = signed_take_bit 15 x"

record StorageCostSpec =
  warm_access :: int
  sset :: int
  sreset :: int
  sclear :: int

definition storage_cost_spec :: "revision \<Rightarrow> StorageCostSpec" where
  "storage_cost_spec r = (case r of ZVMC_SHANGHAI \<Rightarrow>
     \<lparr>warm_access = int16 warm_storage_read_cost, sset = int16 20000,
      sreset = int16 (5000 - cold_sload_cost), sclear = int16 4800\<rparr>)"

text \<open>The pair of \<open>gas_cost\<close> and \<open>gas_refund\<close> by the status of the storage update.\<close>

definition sstore_costs :: "revision \<Rightarrow> storage_status \<Rightarrow> int \<times> int" where
  "sstore_costs r s =
     (let c = storage_cost_spec r in
      case s of
        ZVMC_STORAGE_ASSIGNED \<Rightarrow> (warm_access c, 0)
      | ZVMC_STORAGE_ADDED \<Rightarrow> (sset c, 0)
      | ZVMC_STORAGE_DELETED \<Rightarrow> (sreset c, sclear c)
      | ZVMC_STORAGE_MODIFIED \<Rightarrow> (sreset c, 0)
      | ZVMC_STORAGE_DELETED_ADDED \<Rightarrow> (warm_access c, int16 (- sclear c))
      | ZVMC_STORAGE_MODIFIED_DELETED \<Rightarrow> (warm_access c, sclear c)
      | ZVMC_STORAGE_DELETED_RESTORED \<Rightarrow>
          (warm_access c, int16 (sreset c - warm_access c - sclear c))
      | ZVMC_STORAGE_ADDED_DELETED \<Rightarrow> (warm_access c, int16 (sset c - warm_access c))
      | ZVMC_STORAGE_MODIFIED_RESTORED \<Rightarrow> (warm_access c, int16 (sreset c - warm_access c)))"

section \<open>Instructions\<close>

definition core_sload :: "'h result_fn" where
  "core_sload P t gas_left st = do {
     key \<leftarrow> st_at st t 0;
     let (acc, h) = host_access_storage P (host st) (recipient (msg st)) key;
     let st = st\<lparr>host := h\<rparr>;
     let gas_left = (if acc = ZVMC_ACCESS_COLD
                     then gas_left - (cold_sload_cost - warm_storage_read_cost) else gas_left);
     if acc = ZVMC_ACCESS_COLD \<and> gas_left < 0 then Some ((ZVMC_OUT_OF_GAS, gas_left), st)
     else do {
       st \<leftarrow> st_set st t 0 (host_get_storage P (host st) (recipient (msg st)) key);
       Some ((ZVMC_SUCCESS, gas_left), st) } }"

definition core_sstore :: "'h result_fn" where
  "core_sstore P t gas_left st =
     (if in_static_mode st then Some ((ZVMC_STATIC_MODE_VIOLATION, gas_left), st)
      else if gas_left \<le> 2300 then Some ((ZVMC_OUT_OF_GAS, gas_left), st)
      else do {
        (key, t) \<leftarrow> st_pop st t;
        (v, t) \<leftarrow> st_pop st t;
        let (acc, h) = host_access_storage P (host st) (recipient (msg st)) key;
        let gas_cost_cold = (if acc = ZVMC_ACCESS_COLD then cold_sload_cost else 0);
        let (stat, h) = host_set_storage P h (recipient (msg st)) key v;
        let st = st\<lparr>host := h\<rparr>;
        let (gas_cost_warm, refund) = sstore_costs (st_rev st) stat;
        let gas_cost = gas_cost_warm + gas_cost_cold;
        let gas_left = gas_left - gas_cost;
        if gas_left < 0 then Some ((ZVMC_OUT_OF_GAS, gas_left), st)
        else Some ((ZVMC_SUCCESS, gas_left), st\<lparr>gas_refund := gas_refund st + refund\<rparr>) })"

section \<open>Lemmas\<close>

text \<open>All narrowing conversions keep the value, so the table holds the intended numbers.\<close>

lemma int16_id: "- 32768 \<le> x \<Longrightarrow> x < 32768 \<Longrightarrow> int16 x = x"
  unfolding int16_def by (rule signed_take_bit_int_eq_self) simp_all

lemma sstore_costs_eq:
  "sstore_costs r s = (case s of
        ZVMC_STORAGE_ASSIGNED \<Rightarrow> (100, 0)
      | ZVMC_STORAGE_ADDED \<Rightarrow> (20000, 0)
      | ZVMC_STORAGE_DELETED \<Rightarrow> (2900, 4800)
      | ZVMC_STORAGE_MODIFIED \<Rightarrow> (2900, 0)
      | ZVMC_STORAGE_DELETED_ADDED \<Rightarrow> (100, - 4800)
      | ZVMC_STORAGE_MODIFIED_DELETED \<Rightarrow> (100, 4800)
      | ZVMC_STORAGE_DELETED_RESTORED \<Rightarrow> (100, - 2000)
      | ZVMC_STORAGE_ADDED_DELETED \<Rightarrow> (100, 19900)
      | ZVMC_STORAGE_MODIFIED_RESTORED \<Rightarrow> (100, 2800))"
  by (cases r; cases s) (simp_all add: sstore_costs_def storage_cost_spec_def Let_def int16_id
      cost_constants)

lemma sstore_cost_min: "100 \<le> fst (sstore_costs r s)"
  by (cases s) (simp_all add: sstore_costs_eq)

end
