(* ===== verification/Zvm_Stack_Ops.thy ===== *)
theory Zvm_Stack_Ops
  imports Zvm_State
begin

text \<open>
  The instructions that only touch the stack (signature \<open>void (StackTop)\<close> in
  \<open>lib/zvmone/instructions.hpp\<close>): arithmetic, comparison, bit operations, \<open>DUP\<close> and
  \<open>SWAP\<close>.  Each is translated with its reads and writes of stack slots and, where the code
  works on 64-bit limbs (\<open>SIGNEXTEND\<close>, \<open>BYTE\<close>, \<open>SAR\<close>, \<open>SWAP\<close>), with the limb
  operations.  The refinement theorem states that all of them implement the list
  semantics \<open>stack_sem\<close>, with the stack height given by the traits table.
\<close>

section \<open>Implementations\<close>

definition core_noop :: "stack_space \<Rightarrow> stack_top \<Rightarrow> stack_space option" where
  "core_noop sp t = Some sp"

definition core_add :: "stack_space \<Rightarrow> stack_top \<Rightarrow> stack_space option" where
  "core_add sp t = do { (x, t) \<leftarrow> stk_pop sp t; y \<leftarrow> stk_at sp t 0; stk_set sp t 0 (y + x) }"

definition core_mul :: "stack_space \<Rightarrow> stack_top \<Rightarrow> stack_space option" where
  "core_mul sp t = do { (x, t) \<leftarrow> stk_pop sp t; y \<leftarrow> stk_at sp t 0; stk_set sp t 0 (y * x) }"

definition core_sub :: "stack_space \<Rightarrow> stack_top \<Rightarrow> stack_space option" where
  "core_sub sp t = do { a \<leftarrow> stk_at sp t 0; b \<leftarrow> stk_at sp t 1; stk_set sp t 1 (a - b) }"

definition core_div :: "stack_space \<Rightarrow> stack_top \<Rightarrow> stack_space option" where
  "core_div sp t = do {
     v \<leftarrow> stk_at sp t 1; a \<leftarrow> stk_at sp t 0;
     stk_set sp t 1 (if v \<noteq> 0 then a div v else 0) }"

definition core_sdiv :: "'h platform \<Rightarrow> stack_space \<Rightarrow> stack_top \<Rightarrow> stack_space option" where
  "core_sdiv P sp t = do {
     v \<leftarrow> stk_at sp t 1; a \<leftarrow> stk_at sp t 0;
     stk_set sp t 1 (if v \<noteq> 0 then fst (intx_sdivrem P a v) else 0) }"

definition core_mod :: "stack_space \<Rightarrow> stack_top \<Rightarrow> stack_space option" where
  "core_mod sp t = do {
     v \<leftarrow> stk_at sp t 1; a \<leftarrow> stk_at sp t 0;
     stk_set sp t 1 (if v \<noteq> 0 then a mod v else 0) }"

definition core_smod :: "'h platform \<Rightarrow> stack_space \<Rightarrow> stack_top \<Rightarrow> stack_space option" where
  "core_smod P sp t = do {
     v \<leftarrow> stk_at sp t 1; a \<leftarrow> stk_at sp t 0;
     stk_set sp t 1 (if v \<noteq> 0 then snd (intx_sdivrem P a v) else 0) }"

definition core_addmod :: "'h platform \<Rightarrow> stack_space \<Rightarrow> stack_top \<Rightarrow> stack_space option" where
  "core_addmod P sp t = do {
     (x, t) \<leftarrow> stk_pop sp t; (y, t) \<leftarrow> stk_pop sp t; m \<leftarrow> stk_at sp t 0;
     stk_set sp t 0 (if m \<noteq> 0 then intx_addmod P x y m else 0) }"

definition core_mulmod :: "'h platform \<Rightarrow> stack_space \<Rightarrow> stack_top \<Rightarrow> stack_space option" where
  "core_mulmod P sp t = do {
     x \<leftarrow> stk_at sp t 0; y \<leftarrow> stk_at sp t 1; m \<leftarrow> stk_at sp t 2;
     stk_set sp t 2 (if m \<noteq> 0 then intx_mulmod P x y m else 0) }"

text \<open>\<open>signextend\<close>: the new value of \<open>x\<close> when \<open>ext < 31\<close>.\<close>

definition signextend_value :: "uint256 \<Rightarrow> uint256 \<Rightarrow> uint256" where
  "signextend_value ext x =
     (let e = limb ext 0;
          sign_word_index = unat (e div 8);
          sign_byte_index = e mod 8;
          sign_word = limb x sign_word_index;
          sign_byte_offset = unat (sign_byte_index * 8);
          sign_byte = drop_bit sign_byte_offset sign_word;
          sext_byte = (scast (ucast sign_byte :: byte) :: uint64);
          sext = push_bit sign_byte_offset sext_byte;
          sign_mask = push_bit sign_byte_offset (NOT (0 :: uint64));
          val = sign_word AND NOT sign_mask;
          x1 = set_limb x sign_word_index (sext OR val);
          sign_ex = signed_drop_bit 8 sext_byte
      in foldl (\<lambda>x i. set_limb x i sign_ex) x1 (rev [sign_word_index + 1..<4]))"

definition core_signextend :: "stack_space \<Rightarrow> stack_top \<Rightarrow> stack_space option" where
  "core_signextend sp t = do {
     (ext, t) \<leftarrow> stk_pop sp t; x \<leftarrow> stk_at sp t 0;
     if ext < 31 then stk_set sp t 0 (signextend_value ext x) else Some sp }"

definition word_of_bool :: "bool \<Rightarrow> uint256" where
  "word_of_bool b = (if b then 1 else 0)"

definition core_lt :: "stack_space \<Rightarrow> stack_top \<Rightarrow> stack_space option" where
  "core_lt sp t = do {
     (x, t) \<leftarrow> stk_pop sp t; y \<leftarrow> stk_at sp t 0; stk_set sp t 0 (word_of_bool (x < y)) }"

definition core_gt :: "stack_space \<Rightarrow> stack_top \<Rightarrow> stack_space option" where
  "core_gt sp t = do {
     (x, t) \<leftarrow> stk_pop sp t; y \<leftarrow> stk_at sp t 0; stk_set sp t 0 (word_of_bool (y < x)) }"

definition core_slt :: "'h platform \<Rightarrow> stack_space \<Rightarrow> stack_top \<Rightarrow> stack_space option" where
  "core_slt P sp t = do {
     (x, t) \<leftarrow> stk_pop sp t; y \<leftarrow> stk_at sp t 0; stk_set sp t 0 (word_of_bool (intx_slt P x y)) }"

definition core_sgt :: "'h platform \<Rightarrow> stack_space \<Rightarrow> stack_top \<Rightarrow> stack_space option" where
  "core_sgt P sp t = do {
     (x, t) \<leftarrow> stk_pop sp t; y \<leftarrow> stk_at sp t 0; stk_set sp t 0 (word_of_bool (intx_slt P y x)) }"

definition core_eq :: "stack_space \<Rightarrow> stack_top \<Rightarrow> stack_space option" where
  "core_eq sp t = do {
     a \<leftarrow> stk_at sp t 0; b \<leftarrow> stk_at sp t 1; stk_set sp t 1 (word_of_bool (a = b)) }"

definition core_iszero :: "stack_space \<Rightarrow> stack_top \<Rightarrow> stack_space option" where
  "core_iszero sp t = do { a \<leftarrow> stk_at sp t 0; stk_set sp t 0 (word_of_bool (a = 0)) }"

definition core_and :: "stack_space \<Rightarrow> stack_top \<Rightarrow> stack_space option" where
  "core_and sp t = do { (x, t) \<leftarrow> stk_pop sp t; y \<leftarrow> stk_at sp t 0; stk_set sp t 0 (y AND x) }"

definition core_or :: "stack_space \<Rightarrow> stack_top \<Rightarrow> stack_space option" where
  "core_or sp t = do { (x, t) \<leftarrow> stk_pop sp t; y \<leftarrow> stk_at sp t 0; stk_set sp t 0 (y OR x) }"

definition core_xor :: "stack_space \<Rightarrow> stack_top \<Rightarrow> stack_space option" where
  "core_xor sp t = do { (x, t) \<leftarrow> stk_pop sp t; y \<leftarrow> stk_at sp t 0; stk_set sp t 0 (y XOR x) }"

definition core_not :: "stack_space \<Rightarrow> stack_top \<Rightarrow> stack_space option" where
  "core_not sp t = do { a \<leftarrow> stk_at sp t 0; stk_set sp t 0 (NOT a) }"

definition byte_value :: "uint256 \<Rightarrow> uint256 \<Rightarrow> uint256" where
  "byte_value n x =
     (let n_valid = n < 32;
          byte_mask = (if n_valid then 0xff else 0 :: uint64);
          index = 31 - unat (limb n 0 mod 32);
          w = limb x (index div 8);
          byte_index = index mod 8
      in ucast (drop_bit (byte_index * 8) w AND byte_mask))"

definition core_byte :: "stack_space \<Rightarrow> stack_top \<Rightarrow> stack_space option" where
  "core_byte sp t = do {
     (n, t) \<leftarrow> stk_pop sp t; x \<leftarrow> stk_at sp t 0; stk_set sp t 0 (byte_value n x) }"

definition core_shl :: "stack_space \<Rightarrow> stack_top \<Rightarrow> stack_space option" where
  "core_shl sp t = do {
     (y, t) \<leftarrow> stk_pop sp t; x \<leftarrow> stk_at sp t 0; stk_set sp t 0 (push_bit (unat y) x) }"

definition core_shr :: "stack_space \<Rightarrow> stack_top \<Rightarrow> stack_space option" where
  "core_shr sp t = do {
     (y, t) \<leftarrow> stk_pop sp t; x \<leftarrow> stk_at sp t 0; stk_set sp t 0 (drop_bit (unat y) x) }"

definition sar_value :: "uint256 \<Rightarrow> uint256 \<Rightarrow> uint256" where
  "sar_value y x =
     (let is_neg = sint (limb x 3) < 0;
          sign_mask = (if is_neg then NOT 0 else 0 :: uint256);
          mask_shift = (if y < 256 then 256 - limb y 0 else 0)
      in drop_bit (unat y) x OR push_bit (unat mask_shift) sign_mask)"

definition core_sar :: "stack_space \<Rightarrow> stack_top \<Rightarrow> stack_space option" where
  "core_sar sp t = do {
     (y, t) \<leftarrow> stk_pop sp t; x \<leftarrow> stk_at sp t 0; stk_set sp t 0 (sar_value y x) }"

definition core_push0 :: "stack_space \<Rightarrow> stack_top \<Rightarrow> stack_space option" where
  "core_push0 sp t = do { (sp, t) \<leftarrow> stk_push sp t 0; Some sp }"

definition core_dup :: "nat \<Rightarrow> stack_space \<Rightarrow> stack_top \<Rightarrow> stack_space option" where
  "core_dup N sp t = do { v \<leftarrow> stk_at sp t (N - 1); (sp, t) \<leftarrow> stk_push sp t v; Some sp }"

definition core_swap :: "nat \<Rightarrow> stack_space \<Rightarrow> stack_top \<Rightarrow> stack_space option" where
  "core_swap N sp t = do {
     a \<leftarrow> stk_at sp t N;
     tv \<leftarrow> stk_at sp t 0;
     sp \<leftarrow> stk_set sp t 0 a;
     stk_set sp t N (set_limb (set_limb (set_limb (set_limb a 0 (limb tv 0)) 1 (limb tv 1))
        2 (limb tv 2)) 3 (limb tv 3)) }"

text \<open>The implementation selected by \<open>instr::core::impl\<close> for each identifier.\<close>

fun stack_impl :: "'h platform \<Rightarrow> stack_op \<Rightarrow> stack_space \<Rightarrow> stack_top \<Rightarrow> stack_space option" where
  "stack_impl P Id_pop = core_noop"
| "stack_impl P Id_jumpdest = core_noop"
| "stack_impl P Id_add = core_add"
| "stack_impl P Id_mul = core_mul"
| "stack_impl P Id_sub = core_sub"
| "stack_impl P Id_div = core_div"
| "stack_impl P Id_sdiv = core_sdiv P"
| "stack_impl P Id_mod = core_mod"
| "stack_impl P Id_smod = core_smod P"
| "stack_impl P Id_addmod = core_addmod P"
| "stack_impl P Id_mulmod = core_mulmod P"
| "stack_impl P Id_signextend = core_signextend"
| "stack_impl P Id_lt = core_lt"
| "stack_impl P Id_gt = core_gt"
| "stack_impl P Id_slt = core_slt P"
| "stack_impl P Id_sgt = core_sgt P"
| "stack_impl P Id_eq = core_eq"
| "stack_impl P Id_iszero = core_iszero"
| "stack_impl P Id_and = core_and"
| "stack_impl P Id_or = core_or"
| "stack_impl P Id_xor = core_xor"
| "stack_impl P Id_not = core_not"
| "stack_impl P Id_byte = core_byte"
| "stack_impl P Id_shl = core_shl"
| "stack_impl P Id_shr = core_shr"
| "stack_impl P Id_sar = core_sar"
| "stack_impl P Id_push0 = core_push0"
| "stack_impl P (Id_dup n) = core_dup n"
| "stack_impl P (Id_swap n) = core_swap n"

lemmas stack_op_defs [core_defs] = core_noop_def core_add_def core_mul_def core_sub_def core_div_def
  core_sdiv_def core_mod_def core_smod_def core_addmod_def core_mulmod_def core_signextend_def
  core_lt_def core_gt_def core_slt_def core_sgt_def core_eq_def core_iszero_def core_and_def
  core_or_def core_xor_def core_not_def core_byte_def core_shl_def core_shr_def core_sar_def
  core_push0_def core_dup_def core_swap_def

section \<open>Limb computations against bit-level references\<close>

lemma bit_uint256_eqI: "(\<And>n. n < 256 \<Longrightarrow> bit x n = bit y n) \<Longrightarrow> x = (y :: uint256)"
  by (rule bit_word_eqI) simp

lemma set_limbs_all:
  "set_limb (set_limb (set_limb (set_limb a 0 (limb x 0)) 1 (limb x 1)) 2 (limb x 2)) 3 (limb x 3)
     = x"
proof (rule bit_uint256_eqI)
  fix n :: nat assume "n < 256"
  then consider "n < 64" | "64 \<le> n" "n < 128" | "128 \<le> n" "n < 192" | "192 \<le> n" "n < 256"
    by linarith
  then show "bit (set_limb (set_limb (set_limb (set_limb a 0 (limb x 0)) 1 (limb x 1))
      2 (limb x 2)) 3 (limb x 3)) n = bit x n"
    by cases (auto simp: bit_set_limb bit_limb)
qed

text \<open>Small values are read back from the lowest limb.\<close>

lemma limb0_small: "unat x < 2 ^ 64 \<Longrightarrow> unat (limb x 0) = unat x"
  using to_size_small [of x] by (simp add: to_size_def)

lemma byte_value_ref:
  "byte_value n x = (if n < 32 then drop_bit (8 * (31 - unat n)) x AND 0xff else 0)"
proof (cases "n < 32")
  case False
  then show ?thesis by (simp add: byte_value_def Let_def)
next
  case True
  then have n: "unat n < 32" by (simp add: word_less_nat_alt)
  then have l: "unat (limb n 0 mod 32) = unat n"
    by (simp add: unat_mod limb0_small)
  define k where "k = 31 - unat n"
  have k: "k < 32" by (simp add: k_def)
  have m: "bit (0xff :: int) j = (j < 8)" for j
  proof -
    have e: "(0xff :: int) = mask 8" by (simp add: mask_eq_exp_minus_1)
    show ?thesis unfolding e bit_mask_iff by auto
  qed
  have pos: "64 * (k div 8) + (k mod 8 * 8 + j) = 8 * k + j" for j
    using div_mult_mod_eq [of k 8] by linarith
  have "ucast (drop_bit (k mod 8 * 8) (limb x (k div 8)) AND 0xff) = drop_bit (8 * k) x AND 0xff"
  proof (rule bit_uint256_eqI)
    fix j :: nat assume "j < 256"
    have "k mod 8 < 8" by simp
    then have j8: "j < 8 \<Longrightarrow> k mod 8 * 8 + j < 64" by linarith
    show "bit (ucast (drop_bit (k mod 8 * 8) (limb x (k div 8)) AND 0xff) :: uint256) j =
        bit (drop_bit (8 * k) x AND 0xff) j"
      using \<open>j < 256\<close> j8 by (auto simp: bit_simps bit_limb m pos)
  qed
  then show ?thesis
    using True by (simp add: byte_value_def Let_def l k_def)
qed

lemma sar_value_ref: "sar_value y x = signed_drop_bit (unat y) x"
proof (rule bit_uint256_eqI)
  fix n :: nat assume n: "n < 256"
  have neg: "sint (limb x 3) < 0 \<longleftrightarrow> bit x 255"
    by (simp add: bit_limb flip: bit_last_iff)
  show "bit (sar_value y x) n = bit (signed_drop_bit (unat y) x) n"
  proof (cases "y < 256")
    case True
    then have y: "unat y < 256" by (simp add: word_less_nat_alt)
    then have "unat (limb y 0) = unat y" by (simp add: limb0_small)
    then have s: "unat (256 - limb y 0) = 256 - unat y"
      using y by (simp add: unat_sub word_le_nat_alt)
    show ?thesis
      using True n y
      by (auto simp: sar_value_def Let_def neg s bit_simps bit_signed_drop_bit_iff
          dest: bit_imp_le_length)
  next
    case False
    then have "256 \<le> unat y" by (simp add: word_less_nat_alt)
    then show ?thesis
      using False n
      by (auto simp: sar_value_def Let_def neg bit_simps bit_signed_drop_bit_iff
          dest: bit_imp_le_length)
  qed
qed

lemma bit_set_limb_div:
  assumes "i < 4" and "n < 256"
  shows "bit (set_limb x i w) n \<longleftrightarrow> (if n div 64 = i then bit w (n mod 64) else bit x n)"
proof -
  have "64 * i \<le> n \<and> n < 64 * i + 64 \<longleftrightarrow> n div 64 = i" by linarith
  moreover have "n div 64 = i \<Longrightarrow> n - 64 * i = n mod 64" by (simp flip: minus_mult_div_eq_mod)
  ultimately show ?thesis using assms by (simp add: bit_set_limb)
qed

lemma bit_fill_limbs_list:
  "set is \<subseteq> {..<4} \<Longrightarrow> n < 256 \<Longrightarrow>
   bit (foldl (\<lambda>x i. set_limb x i w) x is) n \<longleftrightarrow>
     (if n div 64 \<in> set is then bit w (n mod 64) else bit x n)"
  by (induction "is" arbitrary: x) (auto simp: bit_set_limb_div)

lemma bit_fill_limbs:
  assumes "n < 256"
  shows "bit (foldl (\<lambda>x i. set_limb x i w) x (rev [a..<4])) n \<longleftrightarrow>
    (if 64 * a \<le> n then bit w (n mod 64) else bit x n)"
proof -
  have "64 * a \<le> n \<longleftrightarrow> a \<le> n div 64" by linarith
  moreover have "n div 64 < 4" using assms by linarith
  moreover have "set (rev [a..<4]) \<subseteq> {..<4}" by auto
  ultimately show ?thesis using assms by (simp add: bit_fill_limbs_list)
qed

lemma signextend_value_ref:
  assumes "ext < 31"
  shows "signextend_value ext x = signed_take_bit (8 * unat ext + 7) x"
proof (rule bit_uint256_eqI)
  fix n :: nat assume n: "n < 256"
  define e where "e = unat ext"
  define a where "a = e div 8"
  define r where "r = e mod 8"
  have e31: "e < 31" using assms by (simp add: e_def word_less_nat_alt)
  then have limb: "unat (limb ext 0) = e" by (simp add: e_def limb0_small)
  then have idx: "unat (limb ext 0 div 8) = a" by (simp add: a_def unat_div)
  have off: "unat (limb ext 0 mod 8 * 8) = 8 * r"
    by (simp add: unat_mult_lem [THEN iffD1] unat_mod limb r_def)
  have a4: "a < 4" and r8: "r < 8" and ear: "e = 8 * a + r"
    using e31 by (auto simp: a_def r_def)
  define sb where "sb = (ucast (drop_bit (8 * r) (limb x a)) :: byte)"
  define sx where "sx = (scast sb :: uint64)"
  define w where "w = push_bit (8 * r) sx OR (limb x a AND NOT (push_bit (8 * r) (NOT 0)))"
  define x1 where "x1 = set_limb x a w"
  have val: "signextend_value ext x =
      foldl (\<lambda>x i. set_limb x i (signed_drop_bit 8 sx)) x1 (rev [a + 1..<4])"
    by (simp add: signextend_value_def Let_def idx off sx_def sb_def w_def x1_def)
  have bsb: "bit sb k \<longleftrightarrow> k < 8 \<and> bit x (8 * e + k)" for k
  proof -
    have "k < 8 \<Longrightarrow> 8 * r + k < 64" using r8 by linarith
    moreover have pos: "64 * a + (8 * r + k) = 8 * e + k" using ear by simp
    ultimately show ?thesis by (auto simp: sb_def bit_simps bit_limb pos)
  qed
  have bsx: "bit sx k \<longleftrightarrow> k < 64 \<and> bit x (8 * e + min 7 k)" for k
    by (auto simp: sx_def bit_simps bsb)
  have bex: "bit (signed_drop_bit 8 sx) k \<longleftrightarrow> k < 64 \<and> bit x (8 * e + 7)" for k
    by (auto simp: bit_signed_drop_bit_iff bsx dest: bit_imp_le_length)
  have bw: "bit w k \<longleftrightarrow> k < 64 \<and>
      (if k < 8 * r then bit x (64 * a + k) else bit x (8 * e + min 7 (k - 8 * r)))" for k
    by (auto simp: w_def bit_simps bsx bit_limb dest: bit_imp_le_length)
  have R: "bit (signed_take_bit (8 * e + 7) x) n \<longleftrightarrow> bit x (min (8 * e + 7) n)"
    using n by (simp add: bit_signed_take_bit_iff)
  show "bit (signextend_value ext x) n = bit (signed_take_bit (8 * unat ext + 7) x) n"
  proof (cases "64 * (a + 1) \<le> n")
    case True
    then have "8 * e + 7 \<le> n" using ear r8 by simp
    then show ?thesis
      unfolding e_def [symmetric] R val using True n a4
      by (simp add: bit_fill_limbs bex min_def)
  next
    case False
    then have "bit (signextend_value ext x) n = bit x1 n"
      unfolding val using n a4 by (simp add: bit_fill_limbs)
    also have "\<dots> = bit x (min (8 * e + 7) n)"
    proof (cases "n < 64 * a")
      case True
      then show ?thesis using n a4 ear by (simp add: x1_def bit_set_limb min_def)
    next
      case nlt: False
      define k where "k = n - 64 * a"
      have k: "n = 64 * a + k" "k < 64" using False nlt by (auto simp: k_def)
      have eq: "8 * e + min 7 (k - 8 * r) = min (8 * e + 7) n" if "8 * r \<le> k"
        using that k ear by (auto simp: min_def)
      have lt: "64 * a + k = min (8 * e + 7) n" if "k < 8 * r"
        using that k ear by (simp add: min_def)
      show ?thesis
        using n a4 k nlt eq lt by (simp add: x1_def bit_set_limb bw)
    qed
    finally show ?thesis unfolding e_def [symmetric] R .
  qed
qed

section \<open>The list semantics of the stack instructions\<close>

text \<open>
  What the library functions of intx are documented to compute: truncated signed
  division, addition and multiplication modulo \<open>m\<close> without intermediate overflow,
  modular exponentiation, signed comparison, and the number of significant bytes.
\<close>

locale intx_library =
  fixes P :: "'h platform"
  assumes sdivrem: "\<And>a v. v \<noteq> 0 \<Longrightarrow>
      intx_sdivrem P a v = (word_of_int (sint a sdiv sint v), word_of_int (sint a smod sint v))"
    and addmod: "\<And>x y m. m \<noteq> 0 \<Longrightarrow>
      intx_addmod P x y m = word_of_int ((uint x + uint y) mod uint m)"
    and mulmod: "\<And>x y m. m \<noteq> 0 \<Longrightarrow>
      intx_mulmod P x y m = word_of_int ((uint x * uint y) mod uint m)"
    and exp: "\<And>b e. intx_exp P b e = b ^ unat e"
    and slt: "\<And>x y. intx_slt P x y \<longleftrightarrow> sint x < sint y"
    and significant_bytes: "\<And>x. unat x < 256 ^ intx_count_significant_bytes P x"
    and significant_bytes_le: "\<And>x n. unat x < 256 ^ n \<Longrightarrow> intx_count_significant_bytes P x \<le> n"

fun stack_sem :: "stack_op \<Rightarrow> uint256 list \<Rightarrow> uint256 list" where
  "stack_sem Id_pop (x # s) = s"
| "stack_sem Id_jumpdest s = s"
| "stack_sem Id_add (x # y # s) = (x + y) # s"
| "stack_sem Id_mul (x # y # s) = (x * y) # s"
| "stack_sem Id_sub (x # y # s) = (x - y) # s"
| "stack_sem Id_div (x # y # s) = (if y = 0 then 0 else x div y) # s"
| "stack_sem Id_sdiv (x # y # s) = (if y = 0 then 0 else word_of_int (sint x sdiv sint y)) # s"
| "stack_sem Id_mod (x # y # s) = (if y = 0 then 0 else x mod y) # s"
| "stack_sem Id_smod (x # y # s) = (if y = 0 then 0 else word_of_int (sint x smod sint y)) # s"
| "stack_sem Id_addmod (x # y # m # s) =
     (if m = 0 then 0 else word_of_int ((uint x + uint y) mod uint m)) # s"
| "stack_sem Id_mulmod (x # y # m # s) =
     (if m = 0 then 0 else word_of_int ((uint x * uint y) mod uint m)) # s"
| "stack_sem Id_signextend (k # x # s) =
     (if k < 31 then signed_take_bit (8 * unat k + 7) x else x) # s"
| "stack_sem Id_lt (x # y # s) = (if x < y then 1 else 0) # s"
| "stack_sem Id_gt (x # y # s) = (if x > y then 1 else 0) # s"
| "stack_sem Id_slt (x # y # s) = (if sint x < sint y then 1 else 0) # s"
| "stack_sem Id_sgt (x # y # s) = (if sint x > sint y then 1 else 0) # s"
| "stack_sem Id_eq (x # y # s) = (if x = y then 1 else 0) # s"
| "stack_sem Id_iszero (x # s) = (if x = 0 then 1 else 0) # s"
| "stack_sem Id_and (x # y # s) = (x AND y) # s"
| "stack_sem Id_or (x # y # s) = (x OR y) # s"
| "stack_sem Id_xor (x # y # s) = (x XOR y) # s"
| "stack_sem Id_not (x # s) = NOT x # s"
| "stack_sem Id_byte (n # x # s) =
     (if n < 32 then drop_bit (8 * (31 - unat n)) x AND 0xff else 0) # s"
| "stack_sem Id_shl (n # x # s) = push_bit (unat n) x # s"
| "stack_sem Id_shr (n # x # s) = drop_bit (unat n) x # s"
| "stack_sem Id_sar (n # x # s) = signed_drop_bit (unat n) x # s"
| "stack_sem Id_push0 s = 0 # s"
| "stack_sem (Id_dup n) s = s ! (n - 1) # s"
| "stack_sem (Id_swap n) s = s[0 := s ! n, n := s ! 0]"
| "stack_sem _ s = s"

text \<open>Views of the stack after the writes that the instructions perform.\<close>

lemma stack_view_swap:
  assumes "n < t" and "0 < n"
  shows "stack_view (sp(t - Suc 0 := sp (t - 1 - n), t - Suc n := sp (t - 1))) t =
    (stack_view sp t)[0 := stack_view sp t ! n, n := stack_view sp t ! 0]"
  by (rule nth_equalityI) (use assms in \<open>auto simp: stack_view_nth nth_list_update\<close>)

text \<open>Inside the bounds no stack instruction leaves the stack space, whatever intx computes.\<close>

lemma stack_impl_total:
  assumes "op_args_ok (Stack_op i)" and "stack_op_info i = (c, req, chg)"
    and "req \<le> int t" "t \<le> limit" "int t + chg \<le> int limit"
  shows "\<exists>sp'. stack_impl P i sp t = Some sp'"
  by (cases i) (use assms in \<open>auto simp: core_defs stack_simps\<close>)

context intx_library
begin

lemma stack_impl_refines:
  assumes args: "op_args_ok (Stack_op i)" and info: "stack_op_info i = (c, req, chg)"
    and t: "req \<le> int t" "t \<le> limit" "int t + chg \<le> int limit"
  shows "\<exists>sp'. stack_impl P i sp t = Some sp' \<and>
    stack_view sp' (nat (int t + chg)) = stack_sem i (stack_view sp t)"
proof -
  have nat1: "nat (1 + int u) = Suc u" for u by simp
  note view = core_defs stack_simps stack_view_Suc nat1
  have ex: "\<exists>u. t = Suc u" if "1 \<le> req" using that t(1) by presburger
  have ex2: "\<exists>u. t = Suc (Suc u)" if "2 \<le> req" using that t(1) by presburger
  have ex3: "\<exists>u. t = Suc (Suc (Suc u))" if "3 \<le> req" using that t(1) by presburger
  note rest = info t ex ex2 ex3
  show ?thesis
  proof (cases i)
    case (Id_dup n)
    then show ?thesis using assms
      by (auto simp: core_dup_def stack_simps stack_view_nth stack_view_Suc nat_add_distrib)
  next
    case (Id_swap n)
    then show ?thesis using assms stack_view_swap [of n t sp]
      by (auto simp: core_swap_def stack_simps set_limbs_all [unfolded One_nat_def] fun_upd_def)
  next
    case Id_add with rest show ?thesis by (auto simp: view add.commute)
  next
    case Id_mul with rest show ?thesis by (auto simp: view mult.commute)
  next
    case Id_and with rest show ?thesis by (auto simp: view and.commute)
  next
    case Id_or with rest show ?thesis by (auto simp: view or.commute)
  next
    case Id_xor with rest show ?thesis by (auto simp: view xor.commute)
  next
    case Id_signextend with rest show ?thesis by (auto simp: view signextend_value_ref)
  qed (use rest in \<open>auto simp: view sdivrem addmod mulmod slt word_of_bool_def byte_value_ref
         sar_value_ref nat_add_distrib\<close>)
qed

end

end
