(* ===== verification/Zvm_Core_Laws.thy ===== *)
theory Zvm_Core_Laws
  imports Zvm_Storage Zvm_Stack_Ops
begin

text \<open>
  What the instructions guarantee.  A small calculus for computations that must return
  (\<open>returns m Q\<close>: the computation is defined and its result satisfies \<open>Q\<close>) carries the
  proofs; the contracts \<open>result_ok\<close>, \<open>state_ok\<close> and \<open>iter_ok\<close> collect what the
  interpreters rely on for the four kinds of implementations: no access outside the
  buffers, a well-formed memory, gas that never grows, a success only with gas left, and
  a frame (message, code and the stack below the arguments are untouched).
\<close>

section \<open>Computations that return\<close>

definition returns :: "'a option \<Rightarrow> ('a \<Rightarrow> bool) \<Rightarrow> bool" where
  "returns m Q \<longleftrightarrow> (\<exists>r. m = Some r \<and> Q r)"

named_theorems returns_simps \<open>rewriting of returns over the program constructs\<close>

lemma returns_Some [simp, returns_simps]: "returns (Some r) Q \<longleftrightarrow> Q r"
  by (simp add: returns_def)

lemma returns_None [simp, returns_simps]: "\<not> returns None Q"
  by (simp add: returns_def)

lemma returns_bind [returns_simps]: "returns (m \<bind> f) Q \<longleftrightarrow> returns m (\<lambda>r. returns (f r) Q)"
  by (cases m) (simp_all add: returns_def)

lemma returns_if [returns_simps]:
  "returns (if b then m else m') Q \<longleftrightarrow> (b \<longrightarrow> returns m Q) \<and> (\<not> b \<longrightarrow> returns m' Q)"
  by simp

lemma returns_prod [returns_simps]:
  "returns (case p of (a, b) \<Rightarrow> f a b) Q \<longleftrightarrow> (case p of (a, b) \<Rightarrow> returns (f a b) Q)"
  by (simp add: split_def)

lemma returns_mono: "returns m Q \<Longrightarrow> (\<And>r. Q r \<Longrightarrow> R r) \<Longrightarrow> returns m R"
  by (auto simp: returns_def)

lemma returnsE:
  assumes "returns m Q"
  obtains r where "m = Some r" and "Q r"
  using assms by (auto simp: returns_def)

section \<open>Stack and memory primitives\<close>

lemma returns_st_at [returns_simps]:
  "i < t \<Longrightarrow> t \<le> limit \<Longrightarrow> returns (st_at st t i) Q \<longleftrightarrow> Q (stack_space st (t - 1 - i))"
  by (simp add: st_at_def stack_simps)

lemma returns_st_pop [returns_simps]:
  "0 < t \<Longrightarrow> t \<le> limit \<Longrightarrow> returns (st_pop st t) Q \<longleftrightarrow> Q (stack_space st (t - 1), t - 1)"
  by (simp add: st_pop_def stack_simps)

lemma returns_st_set [returns_simps]:
  "i < t \<Longrightarrow> t \<le> limit \<Longrightarrow> returns (st_set st t i v) Q \<longleftrightarrow>
     Q (st\<lparr>stack_space := (stack_space st)(t - 1 - i := v)\<rparr>)"
  by (simp add: st_set_def stack_simps)

lemma returns_st_push [returns_simps]:
  "t < limit \<Longrightarrow> returns (st_push st t v) Q \<longleftrightarrow>
     Q (st\<lparr>stack_space := (stack_space st)(t := v)\<rparr>, t + 1)"
  by (simp add: st_push_def stack_simps)

lemma returns_slice [returns_simps]:
  "i + n \<le> length xs \<Longrightarrow> returns (slice xs i n) Q \<longleftrightarrow> Q (take n (drop i xs))"
  by (simp add: slice_in)

lemma returns_mem_read [returns_simps]:
  "off + n \<le> m_size m \<Longrightarrow> returns (mem_read m off n) Q \<longleftrightarrow> Q (take n (drop off (mem_view m)))"
  by (simp add: mem_read_view slice_in)

lemma returns_st_write:
  assumes "off + length bs \<le> m_size (memory st)"
    and "\<And>m'. mem_write (memory st) off bs = Some m' \<Longrightarrow> m_size m' = m_size (memory st) \<Longrightarrow>
      mem_view m' = list_write (mem_view (memory st)) off bs \<Longrightarrow>
      (mem_inv (memory st) \<Longrightarrow> mem_inv m') \<Longrightarrow> Q (st\<lparr>memory := m'\<rparr>)"
  shows "returns (st_write st off bs) Q"
proof -
  obtain m' where m': "mem_write (memory st) off bs = Some m'"
    using mem_write_in [OF assms(1)] by auto
  then show ?thesis
    using assms(2) [OF m' mem_write_size [OF m'] mem_write_view [OF m'] mem_write_inv [OF m']]
    by (simp add: st_write_def returns_simps)
qed

text \<open>What a successful memory check gives its caller.\<close>

definition range_ok :: "memory \<Rightarrow> uint256 \<Rightarrow> nat \<Rightarrow> bool" where
  "range_ok m off n \<longleftrightarrow> n \<le> max_buffer_size \<and>
     (n \<noteq> 0 \<longrightarrow> unat off \<le> max_buffer_size \<and> to_size off = unat off \<and> to_size off + n \<le> m_size m)"

lemma memory_update_same [simp]: "st\<lparr>memory := memory st\<rparr> = st"
  by (cases st) simp

text \<open>The gas paid for extending one memory to another.\<close>

definition extension_cost :: "memory \<Rightarrow> memory \<Rightarrow> int" where
  "extension_cost m m' =
     memory_cost (int (m_size m' div 32)) - memory_cost (int (m_size m div 32))"

lemma returns_st_check_memory:
  assumes "mem_inv (memory st)" and "0 \<le> g"
    and fail: "\<And>g'. g' \<le> g \<Longrightarrow> Q (False, g', st)"
    and ok: "\<And>g' m'. mem_inv m' \<Longrightarrow> 0 \<le> g' \<Longrightarrow> g' \<le> g \<Longrightarrow> mem_extends (memory st) m' \<Longrightarrow>
      range_ok m' off (to_size sz) \<Longrightarrow> to_size sz = unat sz \<Longrightarrow>
      g - g' = extension_cost (memory st) m' \<Longrightarrow> Q (True, g', st\<lparr>memory := m'\<rparr>)"
  shows "returns (st_check_memory g st off sz) Q"
proof -
  obtain b g' m' where r: "check_memory g (memory st) off sz = Some (b, g', m')"
    and c: "checked g (memory st) (to_size off) (to_size sz) (b, g', m')"
    and bnd: "b \<Longrightarrow> unat sz \<le> max_buffer_size \<and> (sz \<noteq> 0 \<longrightarrow> unat off \<le> max_buffer_size)"
    using check_memory_checked [OF assms(1,2), of off sz] by fastforce
  have z: "to_size sz \<noteq> 0 \<Longrightarrow> sz \<noteq> 0" by (auto simp: to_size_def limb_def)
  have "Q (b, g', st\<lparr>memory := m'\<rparr>)"
  proof (cases b)
    case True
    with bnd c z show ?thesis
      by (auto simp: checked_def range_ok_def to_size_buffer extension_cost_def intro!: ok)
  next
    case False
    then show ?thesis using c fail [of g'] by (simp add: checked_def)
  qed
  then show ?thesis by (simp add: st_check_memory_def r returns_simps)
qed

lemma returns_st_check_memory_size:
  assumes "mem_inv (memory st)" and "0 \<le> g" and "sz \<le> max_buffer_size"
    and fail: "\<And>g'. g' \<le> g \<Longrightarrow> Q (False, g', st)"
    and ok: "\<And>g' m'. mem_inv m' \<Longrightarrow> 0 \<le> g' \<Longrightarrow> g' \<le> g \<Longrightarrow> mem_extends (memory st) m' \<Longrightarrow>
      range_ok m' off sz \<Longrightarrow> g - g' = extension_cost (memory st) m' \<Longrightarrow>
      Q (True, g', st\<lparr>memory := m'\<rparr>)"
  shows "returns (st_check_memory_size g st off sz) Q"
proof -
  obtain b g' m' where r: "check_memory_size g (memory st) off sz = Some (b, g', m')"
    and c: "checked g (memory st) (to_size off) sz (b, g', m')"
    and bnd: "b \<Longrightarrow> unat off \<le> max_buffer_size"
    using check_memory_size_checked [OF assms(1,2,3), of off] by fastforce
  have "Q (b, g', st\<lparr>memory := m'\<rparr>)"
  proof (cases b)
    case True
    with bnd c assms(3) show ?thesis
      by (auto simp: checked_def range_ok_def to_size_buffer extension_cost_def intro!: ok)
  next
    case False
    then show ?thesis using c fail [of g'] by (simp add: checked_def)
  qed
  then show ?thesis by (simp add: st_check_memory_size_def r returns_simps)
qed

text \<open>The same laws as introduction rules, for the longer instructions.\<close>

named_theorems returns_intros \<open>backward rules for returns, one per program construct\<close>

lemma returns_bindI [returns_intros]:
  "returns m (\<lambda>r. returns (f r) Q) \<Longrightarrow> returns (m \<bind> f) Q"
  by (simp add: returns_simps)

lemma returns_ifI [returns_intros]:
  "(b \<Longrightarrow> returns m Q) \<Longrightarrow> (\<not> b \<Longrightarrow> returns m' Q) \<Longrightarrow> returns (if b then m else m') Q"
  by simp

lemma returns_letI [returns_intros]: "(\<And>x. x = v \<Longrightarrow> returns (f x) Q) \<Longrightarrow> returns (Let v f) Q"
  by simp

lemma returns_prodI [returns_intros]: "returns (f a b) Q \<Longrightarrow> returns (case (a, b) of (x, y) \<Rightarrow> f x y) Q"
  by simp

lemma returns_SomeI [returns_intros]: "Q r \<Longrightarrow> returns (Some r) Q"
  by simp

lemma returns_st_atI [returns_intros]:
  "i < t \<Longrightarrow> t \<le> limit \<Longrightarrow> Q (stack_space st (t - 1 - i)) \<Longrightarrow> returns (st_at st t i) Q"
  by (simp add: returns_simps)

lemma returns_st_popI [returns_intros]:
  "0 < t \<Longrightarrow> t \<le> limit \<Longrightarrow> Q (stack_space st (t - 1), t - 1) \<Longrightarrow> returns (st_pop st t) Q"
  by (simp add: returns_simps)

lemma returns_st_setI [returns_intros]:
  "i < t \<Longrightarrow> t \<le> limit \<Longrightarrow> Q (st\<lparr>stack_space := (stack_space st)(t - 1 - i := v)\<rparr>) \<Longrightarrow>
   returns (st_set st t i v) Q"
  by (simp add: returns_simps)

lemma returns_st_pushI [returns_intros]:
  "t < limit \<Longrightarrow> Q (st\<lparr>stack_space := (stack_space st)(t := v)\<rparr>, t + 1) \<Longrightarrow>
   returns (st_push st t v) Q"
  by (simp add: returns_simps)

section \<open>Copying into memory\<close>

text \<open>\<open>n\<close> bytes of a buffer from \<open>src\<close> on, with zeros where the buffer ends.\<close>

definition padded_slice :: "bytes \<Rightarrow> nat \<Rightarrow> nat \<Rightarrow> bytes" where
  "padded_slice buf src n = take n (drop src buf) @ replicate (n - (length buf - src)) 0"

lemma length_padded_slice [simp]: "length (padded_slice buf src n) = n"
  by (simp add: padded_slice_def min_def)

lemma list_write_Nil [simp]: "list_write xs off [] = xs"
  by (simp add: list_write_def)

lemma padded_slice_beyond: "length buf \<le> src \<Longrightarrow> padded_slice buf src n = replicate n 0"
  by (simp add: padded_slice_def)

lemma list_write_append:
  assumes "off + length ys + length zs \<le> length xs"
  shows "list_write (list_write xs off ys) (off + length ys) zs = list_write xs off (ys @ zs)"
  using assms by (simp add: list_write_def ac_simps)

text \<open>
  The two writes of the copy instructions, the copied bytes and the zeros behind them,
  are one write of the padded slice.
\<close>

lemma returns_copy_padded:
  assumes fits: "s \<noteq> 0 \<longrightarrow> dst + s \<le> m_size (memory st)"
    and len: "length bs \<le> s" and pad: "bs @ replicate (s - length bs) 0 = ps"
    and Q: "\<And>m'. m_size m' = m_size (memory st) \<Longrightarrow> (mem_inv (memory st) \<Longrightarrow> mem_inv m') \<Longrightarrow>
      mem_view m' = list_write (mem_view (memory st)) dst ps \<Longrightarrow> Q (st\<lparr>memory := m'\<rparr>)"
  shows "returns (if 0 < length bs then st_write st dst bs else Some st)
    (\<lambda>st. returns (if 0 < s - length bs
       then st_write st (dst + length bs) (replicate (s - length bs) 0) else Some st) Q)"
proof -
  define st1 where "st1 m = st\<lparr>memory := m\<rparr>" for m
  have rest: "returns (if 0 < s - length bs
       then st_write (st1 m) (dst + length bs) (replicate (s - length bs) 0) else Some (st1 m)) Q"
    if m: "m_size m = m_size (memory st)" "mem_inv (memory st) \<Longrightarrow> mem_inv m"
      "mem_view m = list_write (mem_view (memory st)) dst bs" for m
  proof (cases "0 < s - length bs")
    case True
    then have f: "dst + length bs + (s - length bs) \<le> m_size (memory st)" using fits len by auto
    then show ?thesis
      using True m f
      by (auto simp: st1_def list_write_append pad [symmetric] intro!: returns_st_write Q)
  next
    case False
    then have "ps = bs" using len pad by simp
    then show ?thesis using False m by (simp add: st1_def Q)
  qed
  show ?thesis
  proof (cases "0 < length bs")
    case True
    then have "dst + length bs \<le> m_size (memory st)" using fits len by auto
    then have "returns (st_write st dst bs) (\<lambda>st. returns (if 0 < s - length bs
       then st_write st (dst + length bs) (replicate (s - length bs) 0) else Some st) Q)"
      by (rule returns_st_write) (rule rest [unfolded st1_def])
    then show ?thesis using True by simp
  next
    case False
    then show ?thesis using rest [of "memory st"] by (simp add: st1_def cong: if_cong)
  qed
qed

lemma returns_copy_buffer:
  assumes c: "c = min s (length buf - src)" and src: "src \<le> length buf"
    and fits: "s \<noteq> 0 \<longrightarrow> dst + s \<le> m_size (memory st)"
    and Q: "\<And>m'. m_size m' = m_size (memory st) \<Longrightarrow> (mem_inv (memory st) \<Longrightarrow> mem_inv m') \<Longrightarrow>
      mem_view m' = list_write (mem_view (memory st)) dst (padded_slice buf src s) \<Longrightarrow>
      returns (f (st\<lparr>memory := m'\<rparr>)) Q"
  shows "returns ((if 0 < c then Zvm_Prelude.slice buf src c \<bind> st_write st dst else Some st)
      \<bind> (\<lambda>st. (if 0 < s - c then st_write st (dst + c) (replicate (s - c) 0) else Some st) \<bind> f)) Q"
proof -
  define bs where "bs = take c (drop src buf)"
  have len: "length bs = c" using c src by (simp add: bs_def)
  have "padded_slice buf src s = bs @ replicate (s - length bs) 0"
    using c by (simp add: padded_slice_def bs_def min_def)
  then have "returns (if 0 < length bs then st_write st dst bs else Some st)
    (\<lambda>st. returns (if 0 < s - length bs
       then st_write st (dst + length bs) (replicate (s - length bs) 0) else Some st)
       (\<lambda>st. returns (f st) Q))"
    using c len Q by (intro returns_copy_padded [OF fits]) auto
  then show ?thesis using c src
    by (simp add: len returns_simps slice_in bs_def cong: if_cong)
qed

lemma returns_copy_exact:
  assumes src: "src + n \<le> length buf" and fits: "n \<noteq> 0 \<longrightarrow> dst + n \<le> m_size (memory st)"
    and Q: "\<And>m'. m_size m' = m_size (memory st) \<Longrightarrow> (mem_inv (memory st) \<Longrightarrow> mem_inv m') \<Longrightarrow>
      mem_view m' = list_write (mem_view (memory st)) dst (take n (drop src buf)) \<Longrightarrow>
      returns (f (st\<lparr>memory := m'\<rparr>)) Q"
  shows "returns ((if 0 < n then Zvm_Prelude.slice buf src n \<bind> st_write st dst else Some st)
    \<bind> f) Q"
proof (cases "n = 0")
  case True
  then show ?thesis using Q [of "memory st"] by simp
next
  case False
  have "returns (st_write st dst (take n (drop src buf))) (\<lambda>st. returns (f st) Q)"
    using src fits False by (intro returns_st_write Q) (auto simp: min_def)
  then show ?thesis using False src by (simp add: slice_in returns_bind)
qed

section \<open>Contracts\<close>

text \<open>The parts of the state that no instruction changes, and the stack below the arguments.\<close>

definition framed :: "'h exec_state \<Rightarrow> 'h exec_state \<Rightarrow> bool" where
  "framed st st' \<longleftrightarrow> msg st' = msg st \<and> analysis st' = analysis st \<and>
     original_code st' = original_code st \<and> st_rev st' = st_rev st"

definition below_kept :: "nat \<Rightarrow> stack_space \<Rightarrow> stack_space \<Rightarrow> bool" where
  "below_kept n sp sp' \<longleftrightarrow> (\<forall>i < n. sp' i = sp i)"

definition output_kept :: "'h exec_state \<Rightarrow> 'h exec_state \<Rightarrow> bool" where
  "output_kept st st' \<longleftrightarrow> output_size st' = output_size st \<and> output_offset st' = output_offset st"

text \<open>
  What the execution of a message can do to its host: mark accounts and its own storage
  slots as accessed, write its own storage and emit its own logs outside static mode, and
  pass on calls.  \<open>call_allowed\<close> says which calls: one level deeper, with gas, in the name of
  the executing account and with no more value than that account has; a static execution
  makes only static calls and creates nothing, and a static call has no value.
\<close>

definition is_static :: "message \<Rightarrow> bool" where
  "is_static m \<longleftrightarrow> flags m AND ZVMC_STATIC \<noteq> 0"

lemma is_static_gas [simp]: "is_static (m\<lparr>gas := g\<rparr>) = is_static m"
  by (simp add: is_static_def)

definition call_allowed :: "'h platform \<Rightarrow> message \<Rightarrow> 'h \<Rightarrow> message \<Rightarrow> bool" where
  "call_allowed P m h c \<longleftrightarrow>
     depth m < 1024 \<and> depth c = depth m + 1 \<and> 0 \<le> gas c \<and>
     (case kind c of
        ZVMC_CALL \<Rightarrow>
          sender c = recipient m \<and> code_address c = recipient c \<and>
          msg_value c \<le> host_get_balance P h (recipient m) \<and>
          (flags c = flags m \<or> flags c = ZVMC_STATIC) \<and> (is_static c \<longrightarrow> msg_value c = 0)
      | ZVMC_DELEGATECALL \<Rightarrow>
          sender c = sender m \<and> recipient c = recipient m \<and> msg_value c = msg_value m \<and>
          flags c = flags m
      | _ \<Rightarrow>
          \<not> is_static m \<and> sender c = recipient m \<and> recipient c = 0 \<and> code_address c = 0 \<and>
          msg_value c \<le> host_get_balance P h (recipient m) \<and> flags c = 0)"

inductive vm_effects :: "'h platform \<Rightarrow> message \<Rightarrow> 'h \<Rightarrow> int \<Rightarrow> 'h \<Rightarrow> bool"
  for P :: "'h platform" and m :: message and h :: 'h
  where
    eff_refl [simp, intro]: "vm_effects P m h 0 h"
  | eff_account: "vm_effects P m h n h' \<Longrightarrow> vm_effects P m h n (snd (host_access_account P h' a))"
  | eff_access_storage: "vm_effects P m h n h' \<Longrightarrow>
      vm_effects P m h n (snd (host_access_storage P h' (recipient m) k))"
  | eff_set_storage: "vm_effects P m h n h' \<Longrightarrow> \<not> is_static m \<Longrightarrow>
      vm_effects P m h (n + snd (sstore_costs r (fst (host_set_storage P h' (recipient m) k v))))
        (snd (host_set_storage P h' (recipient m) k v))"
  | eff_log: "vm_effects P m h n h' \<Longrightarrow> \<not> is_static m \<Longrightarrow>
      vm_effects P m h n (host_emit_log P h' (recipient m) data topics)"
  | eff_call: "vm_effects P m h n h' \<Longrightarrow> call_allowed P m h' c \<Longrightarrow>
      vm_effects P m h (n + res_gas_refund (fst (host_call P h' c))) (snd (host_call P h' c))"

lemma vm_effects_trans:
  assumes "vm_effects P m h1 n h2" and "vm_effects P m h2 k h3"
  shows "vm_effects P m h1 (n + k) h3"
  using assms(2,1)
  by (induction rule: vm_effects.induct) (auto simp: add.assoc [symmetric] intro: vm_effects.intros)

text \<open>
  The refund counter of an execution: when the instruction succeeds (\<open>booked\<close>), the counter
  has grown by the refund that the effects earned.
\<close>

definition earns :: "'h platform \<Rightarrow> bool \<Rightarrow> message \<Rightarrow> 'h \<Rightarrow> int \<Rightarrow> 'h \<Rightarrow> int \<Rightarrow> bool" where
  "earns P booked m h r h' r' \<longleftrightarrow> (\<exists>n. vm_effects P m h n h' \<and> (booked \<longrightarrow> r' = r + n))"

lemma earns_same [simp]: "earns P b m h r h r"
  unfolding earns_def by (intro exI [of _ 0]) simp

lemma earns_nothing [simp]: "vm_effects P m h 0 h' \<Longrightarrow> earns P b m h r h' r"
  unfolding earns_def by (intro exI [of _ 0]) simp

lemma earns_booked [simp]: "vm_effects P m h n h' \<Longrightarrow> earns P b m h r h' (r + n)"
  unfolding earns_def by blast

lemma earns_unbooked: "earns P True m h r h' r' \<Longrightarrow> earns P b m h r h' r'"
  unfolding earns_def by blast

lemma earns_forfeited: "earns P False m h r h' k \<Longrightarrow> earns P False m h r h' k'"
  unfolding earns_def by blast

lemma earns_trans:
  assumes "earns P True m h r h1 r1" and "earns P b m h1 r1 h2 r2"
  shows "earns P b m h r h2 r2"
proof -
  obtain n k where "vm_effects P m h n h1" "r1 = r + n" "vm_effects P m h1 k h2" "b \<longrightarrow> r2 = r1 + k"
    using assms unfolding earns_def by blast
  then show ?thesis using vm_effects_trans unfolding earns_def by (fastforce simp: add.assoc)
qed

lemma in_static_mode_eq: "in_static_mode st = is_static (msg st)"
  by (simp add: in_static_mode_def is_static_def)

lemma framed_msg: "framed st st' \<Longrightarrow> msg st' = msg st"
  by (simp add: framed_def)

definition state_ok :: "nat \<Rightarrow> stack_top \<Rightarrow> 'h exec_state \<Rightarrow> 'h exec_state \<Rightarrow> bool" where
  "state_ok n t st st' \<longleftrightarrow> framed st st' \<and> below_kept (t - n) (stack_space st) (stack_space st') \<and> output_kept st st' \<and>
     memory st' = memory st \<and> status st' = status st \<and> host st' = host st \<and> gas_refund st' = gas_refund st"

definition result_ok ::
  "'h platform \<Rightarrow> nat \<Rightarrow> stack_top \<Rightarrow> int \<Rightarrow> 'h exec_state \<Rightarrow> result \<times> 'h exec_state \<Rightarrow> bool" where
  "result_ok P n t g st r \<longleftrightarrow> (case r of ((s, g'), st') \<Rightarrow>
     framed st st' \<and> below_kept (t - n) (stack_space st) (stack_space st') \<and> output_kept st st' \<and> mem_inv (memory st') \<and>
     status st' = status st \<and> m_size (memory st) \<le> m_size (memory st') \<and>
     g' \<le> g \<and> (s = ZVMC_SUCCESS \<longrightarrow> 0 \<le> g') \<and> s \<noteq> ZVMC_REVERT \<and>
     earns P (s = ZVMC_SUCCESS) (msg st) (host st) (gas_refund st) (host st') (gas_refund st'))"

lemma framed_simps [simp]:
  "framed st st"
  "framed st (st'\<lparr>stack_space := sp\<rparr>) = framed st st'"
  "framed st (st'\<lparr>memory := m\<rparr>) = framed st st'"
  "framed st (st'\<lparr>host := h\<rparr>) = framed st st'"
  "framed st (st'\<lparr>return_data := d\<rparr>) = framed st st'"
  "framed st (st'\<lparr>status := s\<rparr>) = framed st st'"
  "framed st (st'\<lparr>gas_refund := g\<rparr>) = framed st st'"
  "framed st (st'\<lparr>output_size := n\<rparr>) = framed st st'"
  "framed st (st'\<lparr>output_offset := n\<rparr>) = framed st st'"
  "framed st (st'\<lparr>m_tx := x\<rparr>) = framed st st'"
  by (simp_all add: framed_def)

lemma output_kept_simps [simp]:
  "output_kept st st"
  "output_kept st (st'\<lparr>stack_space := sp\<rparr>) = output_kept st st'"
  "output_kept st (st'\<lparr>memory := m\<rparr>) = output_kept st st'"
  "output_kept st (st'\<lparr>host := h\<rparr>) = output_kept st st'"
  "output_kept st (st'\<lparr>return_data := d\<rparr>) = output_kept st st'"
  "output_kept st (st'\<lparr>status := s\<rparr>) = output_kept st st'"
  "output_kept st (st'\<lparr>gas_refund := g\<rparr>) = output_kept st st'"
  "output_kept st (st'\<lparr>m_tx := x\<rparr>) = output_kept st st'"
  by (simp_all add: output_kept_def)

lemma below_kept_simps [simp]:
  "below_kept n sp sp"
  "n \<le> i \<Longrightarrow> below_kept n sp (sp'(i := v)) = below_kept n sp sp'"
  by (simp_all add: below_kept_def)

lemma framed_trans: "framed a b \<Longrightarrow> framed b c \<Longrightarrow> framed a c"
  by (simp add: framed_def)

lemma output_kept_trans: "output_kept a b \<Longrightarrow> output_kept b c \<Longrightarrow> output_kept a c"
  by (simp add: output_kept_def)

lemmas contract_defs = state_ok_def result_ok_def

lemma mem_extends_size: "mem_extends m m' \<Longrightarrow> m_size m \<le> m_size m'"
  by (simp add: mem_extends_def)

section \<open>State instructions\<close>

lemma get_tx_context_eq:
  "get_tx_context P st = (m_tx (snd (get_tx_context P st)), snd (get_tx_context P st))"
  by (simp add: get_tx_context_def Let_def)

lemma get_tx_context_keeps [simp]:
  "original_code (snd (get_tx_context P st)) = original_code st"
  "st_rev (snd (get_tx_context P st)) = st_rev st"
  "status (snd (get_tx_context P st)) = status st"
  "gas_refund (snd (get_tx_context P st)) = gas_refund st"
  by (simp_all add: get_tx_context_def Let_def)

lemma get_tx_context_framed [simp]:
  "framed st (snd (get_tx_context P st))"
  "output_kept st (snd (get_tx_context P st))"
  by (simp_all add: framed_def output_kept_def)

lemma push_op_ok: "t < limit \<Longrightarrow> returns (push_op v t st) (state_ok 0 t st)"
  by (simp add: push_op_def returns_simps contract_defs)

lemma push_tx_ok: "t < limit \<Longrightarrow> returns (push_tx f P t st) (state_ok 0 t st)"
  unfolding push_tx_def Let_def
  by (subst get_tx_context_eq) (simp add: push_op_def returns_simps contract_defs)

lemma core_calldataload_ok:
  "0 < t \<Longrightarrow> t \<le> limit \<Longrightarrow> returns (core_calldataload P t st) (state_ok 1 t st)"
  by (auto simp: core_calldataload_def returns_simps contract_defs Let_def min_def to_size_eq_mod
      not_less intro: order_trans [OF mod_less_eq_dividend])

lemma core_blockhash_ok:
  "0 < t \<Longrightarrow> t \<le> limit \<Longrightarrow> returns (core_blockhash P t st) (state_ok 1 t st)"
  unfolding core_blockhash_def Let_def
  by (subst get_tx_context_eq) (simp add: returns_simps contract_defs)

lemmas state_op_defs [core_defs] = core_address_def core_origin_def core_caller_def
  core_callvalue_def core_calldatasize_def core_codesize_def core_gasprice_def core_basefee_def
  core_returndatasize_def core_coinbase_def core_timestamp_def core_number_def
  core_prevrandao_def core_gaslimit_def core_chainid_def core_selfbalance_def core_msize_def

theorem state_impl_ok:
  assumes "state_op_info i = (c, req, chg)"
    and "req \<le> int t" "t \<le> limit" "int t + chg \<le> int limit"
  shows "returns (state_impl i P t st) (state_ok (nat req) t st)"
  using assms
  by (cases i) (auto simp: state_op_defs intro!: push_op_ok push_tx_ok core_calldataload_ok [simplified]
    core_blockhash_ok [simplified])

section \<open>Instructions with gas\<close>

lemma charge_words: "g' \<le> g \<Longrightarrow> 0 \<le> k \<Longrightarrow> g' - num_words n * k \<le> g"
  using mult_nonneg_nonneg [OF num_words_nonneg, of k n] by linarith

lemma charge_uint: "g' \<le> g \<Longrightarrow> 0 \<le> k \<Longrightarrow> g' - uint x * k \<le> g"
  using mult_nonneg_nonneg [OF unsigned_greater_eq, of k x] by linarith

lemma core_exp_ok:
  assumes "2 \<le> t" "t \<le> limit" "0 \<le> g" "mem_inv (memory st)"
  shows "returns (core_exp P t g st) (result_ok P 2 t g st)"
  using assms by (auto simp: core_exp_def returns_simps contract_defs Let_def)

lemma access_account_cost_eq:
  "access_account_cost P addr g st =
     (let cold = fst (host_access_account P (host st) addr) = ZVMC_ACCESS_COLD;
          g' = (if cold then g - additional_cold_account_access_cost else g)
      in (\<not> cold \<or> 0 \<le> g', g', st\<lparr>host := snd (host_access_account P (host st) addr)\<rparr>))"
  by (simp add: access_account_cost_def Let_def split_def)

lemma returns_access_account:
  assumes "0 \<le> g"
    and "\<And>g' h. g' \<le> g \<Longrightarrow> vm_effects P (msg st) (host st) 0 h \<Longrightarrow> returns (f False g' (st\<lparr>host := h\<rparr>)) Q"
    and "\<And>g' h. 0 \<le> g' \<Longrightarrow> g' \<le> g \<Longrightarrow> vm_effects P (msg st) (host st) 0 h \<Longrightarrow> returns (f True g' (st\<lparr>host := h\<rparr>)) Q"
  shows "returns (case access_account_cost P addr g st of (ok, g, st) \<Rightarrow> f ok g st) Q"
  using assms
  by (cases "fst (host_access_account P (host st) addr)"; cases "additional_cold_account_access_cost \<le> g")
     (simp_all add: access_account_cost_eq Let_def cost_constants eff_account)

lemma account_query_ok:
  assumes "1 \<le> t" "t \<le> limit" "0 \<le> g" "mem_inv (memory st)"
  shows "returns (account_query f P t g st) (result_ok P 1 t g st)"
  using assms
  by (auto simp: account_query_def access_account_cost_eq returns_simps Let_def contract_defs
      cost_constants eff_account)

text \<open>The source position of a copy: the \<open>size_t\<close> of the index, or the end of the buffer.\<close>

definition copy_src :: "bytes \<Rightarrow> uint256 \<Rightarrow> nat" where
  "copy_src buf i = (if length buf < unat i then length buf else to_size i)"

lemma copy_src_le: "copy_src buf i \<le> length buf"
  by (auto simp: copy_src_def to_size_eq_mod not_less intro: order_trans [OF mod_less_eq_dividend])

lemma padded_slice_copy_src:
  "length buf < 2 ^ 64 \<Longrightarrow> padded_slice buf (copy_src buf i) n = padded_slice buf (unat i) n"
  by (auto simp: copy_src_def padded_slice_beyond to_size_eq_mod)

text \<open>
  The copy instructions write the requested slice of their buffer, padded with zeros, to
  the extended memory.
\<close>

lemma st_pop_in: "0 < t \<Longrightarrow> t \<le> limit \<Longrightarrow> st_pop st t = Some (stack_space st (t - 1), t - 1)"
  by (simp add: st_pop_def stack_simps)

lemma st_at_in: "i < t \<Longrightarrow> t \<le> limit \<Longrightarrow> st_at st t i = Some (stack_space st (t - 1 - i))"
  by (simp add: st_at_def stack_simps)

lemma st_push_in:
  "t < limit \<Longrightarrow> st_push st t v = Some (st\<lparr>stack_space := (stack_space st)(t := v)\<rparr>, t + 1)"
  by (simp add: st_push_def stack_simps)

lemma buffer_copy_spec:
  assumes t: "3 \<le> t" "t \<le> limit" and g: "0 \<le> g" and inv: "mem_inv (memory st)"
  shows "returns (buffer_copy buf P t g st) (\<lambda>((s, g'), st'). result_ok P 3 t g st ((s, g'), st') \<and>
    (s = ZVMC_SUCCESS \<longrightarrow> (\<exists>k. mem_view (memory st') =
       list_write (mem_view (memory st) @ replicate k 0) (to_size (stack_space st (t - 1)))
         (padded_slice buf (copy_src buf (stack_space st (t - 2)))
            (unat (stack_space st (t - 3)))))))"
  (is "returns _ ?Q")
proof -
  have tail: "returns ((if 0 < c then Zvm_Prelude.slice buf src c \<bind> st_write (st\<lparr>memory := m'\<rparr>) dst
         else Some (st\<lparr>memory := m'\<rparr>))
      \<bind> (\<lambda>st. (if 0 < n - c then st_write st (dst + c) (replicate (n - c) 0) else Some st)
      \<bind> (\<lambda>st. Some ((ZVMC_SUCCESS, g'), st)))) ?Q"
    if "mem_inv m'" "g' \<le> g" "0 \<le> g'" and ext: "mem_extends (memory st) m'"
      "range_ok m' (stack_space st (t - 1)) n"
      and eqs: "dst = to_size (stack_space st (t - 1))" "src = copy_src buf (stack_space st (t - 2))"
        "n = unat (stack_space st (t - 3))"
      and c: "c = min n (length buf - src)"
    for m' g' c src dst n
  proof (rule returns_copy_buffer [OF c])
    show "src \<le> length buf" by (simp add: eqs copy_src_le)
    show "n \<noteq> 0 \<longrightarrow> dst + n \<le> m_size (memory (st\<lparr>memory := m'\<rparr>))"
      using ext by (auto simp: range_ok_def eqs)
    fix m2
    assume "m_size m2 = m_size (memory (st\<lparr>memory := m'\<rparr>))"
      and "mem_inv (memory (st\<lparr>memory := m'\<rparr>)) \<Longrightarrow> mem_inv m2"
      and "mem_view m2 = list_write (mem_view (memory (st\<lparr>memory := m'\<rparr>))) dst (padded_slice buf src n)"
    then show "returns (Some ((ZVMC_SUCCESS, g'), st\<lparr>memory := m', memory := m2\<rparr>)) ?Q"
      using that by (auto simp: result_ok_def mem_extends_def)
  qed
  show ?thesis
    unfolding buffer_copy_def using t
    apply (simp only: st_pop_in bind.bind_lunit prod.case)
    apply (rule returns_bindI, rule returns_st_check_memory [OF inv g])
     apply (simp add: result_ok_def inv)
    apply (simp only: prod.case not_True_eq_False if_False Let_def copy_src_def [symmetric])
    apply (rule returns_ifI)
     apply (simp add: result_ok_def mem_extends_size charge_words)
    apply (rule tail)
            apply (simp_all add: charge_words numeral_3_eq_3 numeral_2_eq_2)
    done
qed

text \<open>The specification of a write of \<open>bs\<close> at the address \<open>off\<close> of the extended memory.\<close>

definition writes :: "'h exec_state \<Rightarrow> uint256 \<Rightarrow> bytes \<Rightarrow> 'h exec_state \<Rightarrow> bool" where
  "writes st off bs st' \<longleftrightarrow>
     (\<exists>k. mem_view (memory st') = list_write (mem_view (memory st) @ replicate k 0) (to_size off) bs)"

lemma core_mstore_spec:
  assumes t: "2 \<le> t" "t \<le> limit" and g: "0 \<le> g" and inv: "mem_inv (memory st)"
  shows "returns (core_mstore P t g st) (\<lambda>((s, g'), st'). result_ok P 2 t g st ((s, g'), st') \<and>
    (s = ZVMC_SUCCESS \<longrightarrow> stack_space st' = stack_space st \<and>
       writes st (stack_space st (t - 1)) (be_store 32 (stack_space st (t - 2))) st'))"
  unfolding core_mstore_def using t
  apply (simp only: st_pop_in bind.bind_lunit prod.case)
  apply (rule returns_bindI, rule returns_st_check_memory_size [OF inv g])
    apply (simp add: max_buffer_size_def)
   apply (simp add: result_ok_def inv)
  apply (simp only: prod.case not_True_eq_False if_False)
  apply (rule returns_bindI, rule returns_st_write)
   apply (simp add: range_ok_def)
  apply (auto simp: result_ok_def writes_def mem_extends_def numeral_2_eq_2)
  done

lemma core_mstore8_spec:
  assumes t: "2 \<le> t" "t \<le> limit" and g: "0 \<le> g" and inv: "mem_inv (memory st)"
  shows "returns (core_mstore8 P t g st) (\<lambda>((s, g'), st'). result_ok P 2 t g st ((s, g'), st') \<and>
    (s = ZVMC_SUCCESS \<longrightarrow> stack_space st' = stack_space st \<and>
       writes st (stack_space st (t - 1)) [ucast (stack_space st (t - 2))] st'))"
  unfolding core_mstore8_def using t
  apply (simp only: st_pop_in bind.bind_lunit prod.case)
  apply (rule returns_bindI, rule returns_st_check_memory_size [OF inv g])
    apply (simp add: max_buffer_size_def)
   apply (simp add: result_ok_def inv)
  apply (simp only: prod.case not_True_eq_False if_False)
  apply (rule returns_bindI, rule returns_st_write)
   apply (simp add: range_ok_def)
  apply (auto simp: result_ok_def writes_def mem_extends_def numeral_2_eq_2)
  done

text \<open>Reading the extended memory is reading the old one padded with zeros.\<close>

lemma mem_extends_read:
  "mem_extends m m' \<Longrightarrow> off + n \<le> m_size m' \<Longrightarrow>
   take n (drop off (mem_view m')) = padded_slice (mem_view m) off n"
  by (auto simp: mem_extends_def padded_slice_def min_def)

lemma core_mload_spec:
  assumes t: "1 \<le> t" "t \<le> limit" and g: "0 \<le> g" and inv: "mem_inv (memory st)"
  shows "returns (core_mload P t g st) (\<lambda>((s, g'), st'). result_ok P 1 t g st ((s, g'), st') \<and>
    (s = ZVMC_SUCCESS \<longrightarrow> mem_extends (memory st) (memory st') \<and>
       stack_space st' = (stack_space st)(t - 1 :=
         be_load (padded_slice (mem_view (memory st)) (unat (stack_space st (t - 1))) 32))))"
  unfolding core_mload_def using t
  apply (simp only: st_at_in bind.bind_lunit prod.case)
  apply (rule returns_bindI, rule returns_st_check_memory_size [OF inv g])
    apply (simp add: max_buffer_size_def)
   apply (simp add: result_ok_def inv)
  apply (auto simp: returns_simps result_ok_def range_ok_def mem_extends_size mem_extends_read)
  done

text \<open>Without bytes the address of a range is irrelevant.\<close>

lemma padded_slice_0 [simp]: "padded_slice buf off 0 = []"
  by (simp add: padded_slice_def)

lemma range_read:
  assumes "mem_extends m m'" and "range_ok m' off n" and "n \<noteq> 0"
  shows "mem_read m' (to_size off) n = Some (padded_slice (mem_view m) (unat off) n)"
  using assms by (auto simp: range_ok_def mem_read_view slice_in mem_extends_read)

lemma core_keccak256_spec:
  assumes t: "2 \<le> t" "t \<le> limit" and g: "0 \<le> g" and inv: "mem_inv (memory st)"
  shows "returns (core_keccak256 P t g st) (\<lambda>((s, g'), st'). result_ok P 2 t g st ((s, g'), st') \<and>
    (s = ZVMC_SUCCESS \<longrightarrow> mem_extends (memory st) (memory st') \<and>
       stack_space st' = (stack_space st)(t - 2 := ethash_keccak256 P
         (padded_slice (mem_view (memory st)) (unat (stack_space st (t - 1)))
            (unat (stack_space st (t - 2)))))))"
  unfolding core_keccak256_def using t
  apply (simp only: st_pop_in st_at_in bind.bind_lunit prod.case)
  apply (rule returns_bindI, rule returns_st_check_memory [OF inv g])
   apply (simp add: result_ok_def inv)
  apply (simp only: prod.case not_True_eq_False if_False Let_def)
  apply (rule returns_ifI)
   apply (simp add: result_ok_def mem_extends_size charge_words)
  apply (simp add: range_read returns_simps result_ok_def mem_extends_size charge_words
      numeral_2_eq_2)
  done

lemma pop_topics_in:
  "n \<le> t \<Longrightarrow> t \<le> limit \<Longrightarrow> pop_topics st t n = Some (map (\<lambda>i. stack_space st (t - 1 - i)) [0..<n])"
proof (induction n arbitrary: t)
  case (Suc n)
  have "map (\<lambda>i. stack_space st (t - 1 - i)) [0..<Suc n] =
      stack_space st (t - 1) # map (\<lambda>i. stack_space st (t - 1 - 1 - i)) [0..<n]"
    by (rule nth_equalityI) (auto simp: nth_Cons' simp del: upt_Suc)
  then show ?case using Suc.prems Suc.IH [of "t - 1"]
    by (simp add: st_pop_in del: upt_Suc)
qed simp

text \<open>A log is passed to the host only outside static mode, with the bytes of the memory.\<close>

lemma core_log_spec:
  assumes t: "n + 2 \<le> t" "t \<le> limit" and g: "0 \<le> g" and inv: "mem_inv (memory st)"
  shows "returns (core_log n P t g st) (\<lambda>((s, g'), st'). result_ok P (n + 2) t g st ((s, g'), st') \<and>
    (in_static_mode st \<longrightarrow> s = ZVMC_STATIC_MODE_VIOLATION) \<and>
    (if s = ZVMC_SUCCESS
     then host st' = host_emit_log P (host st) (recipient (msg st))
       (padded_slice (mem_view (memory st)) (unat (stack_space st (t - 1)))
          (unat (stack_space st (t - 2))))
       (map (\<lambda>i. stack_space st (t - 3 - i)) [0..<n])
     else host st' = host st))"
  unfolding core_log_def using t
  apply (intro returns_ifI)
   apply (simp add: result_ok_def g inv)
  apply (simp only: st_pop_in st_at_in bind.bind_lunit prod.case)
  apply (rule returns_bindI, rule returns_st_check_memory [OF inv g])
   apply (simp add: result_ok_def inv)
  apply (simp only: prod.case not_True_eq_False if_False Let_def)
  apply (rule returns_ifI)
   apply (simp add: result_ok_def mem_extends_size)
  apply (simp add: range_read returns_simps result_ok_def mem_extends_size
      numeral_2_eq_2 numeral_3_eq_3 pop_topics_in charge_uint eff_log in_static_mode_eq)
  done

lemma core_gas_ok:
  assumes "t < limit" "0 \<le> g" "mem_inv (memory st)"
  shows "returns (core_gas P t g st) (result_ok P 0 t g st)"
  using assms by (simp add: core_gas_def returns_simps result_ok_def)

text \<open>
  Copying return data outside of its bounds is an error, even for zero bytes; in bounds the
  copied bytes need no padding.
\<close>

lemma core_returndatacopy_spec:
  assumes t: "3 \<le> t" "t \<le> limit" and g: "0 \<le> g" and inv: "mem_inv (memory st)"
  shows "returns (core_returndatacopy P t g st) (\<lambda>((s, g'), st').
    result_ok P 3 t g st ((s, g'), st') \<and>
    (s = ZVMC_SUCCESS \<longrightarrow>
       to_size (stack_space st (t - 2)) + unat (stack_space st (t - 3)) \<le> length (return_data st) \<and>
       writes st (stack_space st (t - 1))
         (take (unat (stack_space st (t - 3)))
            (drop (to_size (stack_space st (t - 2))) (return_data st))) st'))"
  (is "returns _ ?Q")
proof -
  let ?src = "to_size (stack_space st (t - 2))" and ?n = "unat (stack_space st (t - 3))"
  have tail: "returns ((if 0 < n
        then Zvm_Prelude.slice (return_data st) src n \<bind> st_write (st\<lparr>memory := m'\<rparr>) dst
        else Some (st\<lparr>memory := m'\<rparr>)) \<bind> (\<lambda>st. Some ((ZVMC_SUCCESS, g'), st))) ?Q"
    if ok: "mem_inv m'" "g' \<le> g" "0 \<le> g'" "mem_extends (memory st) m'"
        "range_ok m' (stack_space st (t - 1)) n"
      and eqs: "dst = to_size (stack_space st (t - 1))" "src = ?src" "n = ?n"
      and src: "src + n \<le> length (return_data st)"
    for m' g' src dst n
  proof (rule returns_copy_exact [OF src])
    show "n \<noteq> 0 \<longrightarrow> dst + n \<le> m_size (memory (st\<lparr>memory := m'\<rparr>))"
      using ok by (auto simp: range_ok_def eqs)
  qed (use ok src in \<open>auto simp: result_ok_def mem_extends_def writes_def eqs\<close>)
  have rd: "return_data (st\<lparr>memory := m\<rparr>) = return_data st" for m by simp
  show ?thesis
    unfolding core_returndatacopy_def using t
    apply (simp only: st_pop_in st_at_in bind.bind_lunit prod.case)
    apply (rule returns_bindI, rule returns_st_check_memory [OF inv g])
     apply (simp add: result_ok_def inv)
    apply (simp only: prod.case not_True_eq_False if_False Let_def rd)
    apply (intro returns_ifI tail)
                apply (simp_all add: result_ok_def mem_extends_size charge_words numeral_2_eq_2
        numeral_3_eq_3)
    done
qed

section \<open>The host interface\<close>

text \<open>
  What the interpreter relies on of a ZVMC host: \<open>copy_code\<close> returns at most as many bytes
  as the buffer holds, and a call gives back gas between zero and the gas of its message.
\<close>

locale zvmc_host =
  fixes P :: "'h platform"
  assumes copy_code_length: "\<And>h a off n. length (host_copy_code P h a off n) \<le> n"
    and call_gas_left: "\<And>h m. 0 \<le> gas m \<Longrightarrow>
      0 \<le> res_gas_left (fst (host_call P h m)) \<and> res_gas_left (fst (host_call P h m)) \<le> gas m"
begin

lemma core_extcodecopy_spec:
  assumes t: "4 \<le> t" "t \<le> limit" and g: "0 \<le> g" and inv: "mem_inv (memory st)"
  shows "returns (core_extcodecopy P t g st) (result_ok P 4 t g st)"
proof -
  have tail: "returns ((if 0 < n
         then if n < length bs then None
              else st_write st1 dst bs \<bind> (\<lambda>st. if 0 < n - length bs
                then st_write st (dst + length bs) (replicate (n - length bs) 0) else Some st)
         else Some st1) \<bind> (\<lambda>st. Some ((ZVMC_SUCCESS, g'), st))) (result_ok P 4 t g st)"
    if ok: "mem_inv m'" "0 \<le> g'" "mem_extends (memory st) m'" "range_ok m' off n"
      and eqs: "st1 = st\<lparr>memory := m', host := h\<rparr>" "dst = to_size off"
      and "length bs \<le> n" "vm_effects P (msg st) (host st) 0 h" "g' \<le> g"
    for m' g' h n bs st1 dst off
    using that
    by (auto simp: Let_def returns_bind returns_if not_less range_ok_def result_ok_def
        mem_extends_def intro!: returns_st_write)
  show ?thesis
    unfolding core_extcodecopy_def using t
    apply (simp only: st_pop_in st_at_in bind.bind_lunit prod.case)
    apply (simp only: Let_def)
    apply (rule returns_bindI, rule returns_st_check_memory [OF inv g])
     apply (simp add: result_ok_def inv)
    apply (simp only: prod.case not_True_eq_False if_False)
    apply (rule returns_ifI)
     apply (simp add: result_ok_def mem_extends_size charge_words)
    apply (rule returns_access_account)
      apply simp
     apply (simp add: result_ok_def mem_extends_size)
     apply (rule order_trans, assumption, simp add: charge_words)
    apply (simp only: not_True_eq_False if_False)
    apply (rule tail, assumption+, rule refl, rule refl, rule copy_code_length, simp)
    apply (rule order_trans, assumption, simp add: charge_words)
    done
qed

end

end
