(* ===== verification/Zvm_Control.thy ===== *)
theory Zvm_Control
  imports Zvm_Core_Laws
begin

text \<open>
  Lemmas on the instructions that move in the code or end the execution: pushes with their
  unaligned loads, jumps, and the terminating instructions.
\<close>

section \<open>Push data\<close>

lemma bit_be_load_take:
  assumes "p + n \<le> length code"
  shows "bit (be_load (take n (drop p code)) :: 'a::len word) k \<longleftrightarrow>
    k < LENGTH('a) \<and> k div 8 < n \<and> bit (code ! (p + (n - 1 - k div 8))) (k mod 8)"
proof -
  have "length (take n (drop p code)) = n" using assms by simp
  then show ?thesis using assms by (auto simp: bit_be_load)
qed

text \<open>The partial word holds the first \<open>Len\<close> bytes, whatever is read behind them.\<close>

lemma bit_shifted_load:
  assumes "pos + m \<le> length code" and "0 < n" "n \<le> m" and "8 * m \<le> LENGTH('a)"
  shows "bit (drop_bit (8 * (m - n)) (be_load (take m (drop pos code)) :: 'a::len word)) k \<longleftrightarrow>
    k < 8 * n \<and> bit (code ! (pos + (n - 1 - k div 8))) (k mod 8)"
proof -
  have e: "(8 * (m - n) + k) div 8 = m - n + k div 8" "(8 * (m - n) + k) mod 8 = k mod 8" by auto
  have "k < 8 * n \<longleftrightarrow> k div 8 < n" by auto
  moreover have "k div 8 < n \<Longrightarrow> m - 1 - (m - n + k div 8) = n - 1 - k div 8"
    and "k div 8 < n \<Longrightarrow> 8 * (m - n) + k < LENGTH('a)" using assms by auto
  ultimately show ?thesis using assms(1,3)
    by (auto simp: bit_drop_bit_eq bit_be_load_take e)
qed

lemma load_partial_push_data_spec:
  assumes p: "0 < Len" "Len < 8" and pos: "pos + 8 \<le> length code"
  shows "returns (load_partial_push_data Len code pos)
    (\<lambda>w. \<forall>k. bit w k \<longleftrightarrow> k < 8 * Len \<and> bit (code ! (pos + (Len - 1 - k div 8))) (k mod 8))"
proof -
  have "Len \<in> {1, 2, 3, 4} \<or> 5 \<le> Len" using p by auto
  then consider "Len = 1" | "Len = 2" | "Len = 3" | "Len = 4" | "5 \<le> Len" by auto
  then show ?thesis
    using p pos
      bit_shifted_load [where 'a = 64, of pos 1 code 1] bit_shifted_load [where 'a = 16, of pos 2 code 2]
      bit_shifted_load [where 'a = 32, of pos 4 code 3] bit_shifted_load [where 'a = 32, of pos 4 code 4]
      bit_shifted_load [where 'a = 64, of pos 8 code Len]
    by cases (auto simp: load_partial_push_data_def slice_in bit_simps)
qed

lemma div_mod_64:
  fixes f j :: nat
  shows "(64 * f + j) div 8 = 8 * f + j div 8" and "(64 * f + j) mod 8 = j mod 8"
proof -
  have e: "64 * f + j = j + (8 * f) * 8" by simp
  show "(64 * f + j) div 8 = 8 * f + j div 8" unfolding e div_mult_self1 [OF numeral_neq_zero]
    by (rule refl)
  show "(64 * f + j) mod 8 = j mod 8" unfolding e by (rule mod_mult_self1)
qed

lemma load_full_words_spec:
  assumes "k \<le> 4" and "data + 8 * k \<le> length code"
  shows "returns (load_full_words k code data r)
    (\<lambda>v. \<forall>n < 256 :: nat. bit v n \<longleftrightarrow> (if n < 64 * k
       then bit (code ! (data + (8 * k - 1 - n div 8))) (n mod 8) else bit r n))"
  using assms
proof (induction k arbitrary: data r)
  case (Suc k)
  define w :: uint64 where "w = be_load (take 8 (drop data code))"
  have w: "bit w n \<longleftrightarrow> n < 64 \<and> bit (code ! (data + (7 - n div 8))) (n mod 8)" for n
    using bit_be_load_take [of data 8 code n, where 'a = 64] Suc.prems by (auto simp: w_def)
  have "returns (load_full_words k code (data + 8) (set_limb r k w))
    (\<lambda>v. \<forall>n < 256 :: nat. bit v n \<longleftrightarrow> (if n < 64 * k
       then bit (code ! (data + 8 + (8 * k - 1 - n div 8))) (n mod 8) else bit (set_limb r k w) n))"
    using Suc.prems by (intro Suc.IH) auto
  then have "returns (load_full_words k code (data + 8) (set_limb r k w))
    (\<lambda>v. \<forall>n < 256 :: nat. bit v n \<longleftrightarrow> (if n < 64 * Suc k
       then bit (code ! (data + (8 * Suc k - 1 - n div 8))) (n mod 8) else bit r n))"
  proof (rule returns_mono, intro allI impI)
    fix v :: uint256 and n :: nat
    assume v: "\<forall>n<256. bit v n \<longleftrightarrow> (if n < 64 * k
       then bit (code ! (data + 8 + (8 * k - 1 - n div 8))) (n mod 8) else bit (set_limb r k w) n)"
      and n: "n < 256"
    show "bit v n \<longleftrightarrow> (if n < 64 * Suc k
       then bit (code ! (data + (8 * Suc k - 1 - n div 8))) (n mod 8) else bit r n)"
    proof (cases "n < 64 * k")
      case True
      then have "data + 8 + (8 * k - 1 - n div 8) = data + (8 * Suc k - 1 - n div 8)" by auto
      then show ?thesis using True v n by simp
    next
      case False
      then obtain j where j: "n = 64 * k + j" by (metis le_Suc_ex not_less)
      have "n div 8 = 8 * k + j div 8" "n mod 8 = j mod 8" unfolding j by (rule div_mod_64)+
      then show ?thesis using v n False Suc.prems(1) j
        by (auto simp: bit_set_limb w)
    qed
  qed
  then show ?case using Suc.prems by (simp add: returns_bind returns_slice w_def)
qed simp

text \<open>The bits of the immediate value, most significant byte first.\<close>

definition imm_bit :: "bytes \<Rightarrow> nat \<Rightarrow> nat \<Rightarrow> nat \<Rightarrow> bool" where
  "imm_bit code data Len n \<longleftrightarrow>
     n div 8 < Len \<and> bit (code ! (data + (Len - 1 - n div 8))) (n mod 8)"

lemma imm_bit_high:
  "imm_bit code data (8 * f + p) (64 * f + j) \<longleftrightarrow>
     j < 8 * p \<and> bit (code ! (data + (p - 1 - j div 8))) (j mod 8)"
proof -
  have "j div 8 < p \<longleftrightarrow> j < 8 * p" by auto
  then show ?thesis by (auto simp: imm_bit_def div_mod_64)
qed

lemma imm_bit_low:
  "n < 64 * f \<Longrightarrow> imm_bit code data (8 * f + p) n \<longleftrightarrow>
     bit (code ! (data + p + (8 * f - 1 - n div 8))) (n mod 8)"
proof -
  assume "n < 64 * f"
  then have "n div 8 < 8 * f" by auto
  then have "data + p + (8 * f - 1 - n div 8) = data + (8 * f + p - 1 - n div 8)" by simp
  then show ?thesis using \<open>n div 8 < 8 * f\<close> by (simp add: imm_bit_def)
qed

lemma partial_word_spec:
  assumes p: "0 < p" "p < 8" and f: "f < 4" and pos: "data + 8 \<le> length code"
  shows "returns (load_partial_push_data p code data)
    (\<lambda>w. \<forall>n < 256. 64 * f \<le> n \<longrightarrow> bit (set_limb 0 f w) n = imm_bit code data (8 * f + p) n)"
  using load_partial_push_data_spec [OF p pos]
proof (rule returns_mono, intro allI impI)
  fix w :: uint64 and n :: nat
  assume w: "\<forall>k. bit w k \<longleftrightarrow> k < 8 * p \<and> bit (code ! (data + (p - 1 - k div 8))) (k mod 8)"
    and n: "n < 256" "64 * f \<le> n"
  obtain j where j: "n = 64 * f + j" using n(2) le_Suc_ex by blast
  show "bit (set_limb 0 f w) n = imm_bit code data (8 * f + p) n"
    using p(2) n unfolding j imm_bit_high bit_set_limb [OF f] by (simp add: w)
qed

lemma load_words_value:
  assumes f: "f \<le> 4" and Len: "8 * f + p \<le> 32" and data: "data + 32 \<le> length code"
    and r: "\<And>n. n < 256 \<Longrightarrow> 64 * f \<le> n \<Longrightarrow> bit r n = imm_bit code data (8 * f + p) n"
  shows "load_full_words f code (data + p) r = Some (be_load (take (8 * f + p) (drop data code)))"
proof -
  obtain v where v: "load_full_words f code (data + p) r = Some v"
    and vb: "\<And>n. n < 256 \<Longrightarrow> bit v n \<longleftrightarrow> (if n < 64 * f
      then bit (code ! (data + p + (8 * f - 1 - n div 8))) (n mod 8) else bit r n)"
    using load_full_words_spec [OF f, of "data + p" code r] Len data by (auto elim!: returnsE)
  have "v = be_load (take (8 * f + p) (drop data code))"
  proof (rule bit_uint256_eqI)
    fix n :: nat assume n: "n < 256"
    have "bit v n = imm_bit code data (8 * f + p) n"
      using vb [OF n] r [OF n] imm_bit_low [of n f code data p] by auto
    moreover have "data + (8 * f + p) \<le> length code" using Len data by simp
    ultimately show "bit v n = bit (be_load (take (8 * f + p) (drop data code)) :: uint256) n"
      using n by (simp add: bit_be_load_take imm_bit_def)
  qed
  then show ?thesis using v by simp
qed

lemma core_push_spec:
  assumes Len: "1 \<le> Len" "Len \<le> 32" and t: "t < limit"
    and pos: "pos + 33 \<le> length (padded_code (analysis st))"
  shows "core_push Len t st pos = Some (Some (pos + (Len + 1)),
    st\<lparr>stack_space := (stack_space st)(t :=
      be_load (take Len (drop (pos + 1) (padded_code (analysis st)))))\<rparr>)"
proof -
  let ?code = "padded_code (analysis st)"
  define f p where "f = Len div 8" and "p = Len mod 8"
  have L: "Len = 8 * f + p" "p < 8" "f \<le> 4" "8 * f + p \<le> 32" using Len by (auto simp: f_def p_def)
  obtain r where r: "(if p \<noteq> 0 then do {
          w \<leftarrow> load_partial_push_data p ?code (pos + 1);
          Some (set_limb 0 f w, pos + 1 + p) } else Some (0, pos + 1)) = Some (r, pos + 1 + p)"
    and rb: "\<And>n :: nat. n < 256 \<Longrightarrow> 64 * f \<le> n \<Longrightarrow> bit r n = imm_bit ?code (pos + 1) (8 * f + p) n"
  proof (cases "p = 0")
    case True
    then have "\<And>n. 64 * f \<le> n \<Longrightarrow> \<not> imm_bit ?code (pos + 1) (8 * f + p) n"
      by (auto simp: imm_bit_def)
    then show thesis using True that [of 0] by simp
  next
    case False
    then have "f < 4" using L by simp
    then obtain w where "load_partial_push_data p ?code (pos + 1) = Some w"
      and "\<forall>n < 256. 64 * f \<le> n \<longrightarrow> bit (set_limb 0 f w) n = imm_bit ?code (pos + 1) (8 * f + p) n"
      using partial_word_spec [of p f "pos + 1" ?code] L False pos by (auto elim!: returnsE)
    then show thesis using False that [of "set_limb 0 f w"] by simp
  qed
  have "load_full_words f ?code (pos + 1 + p) r = Some (be_load (take Len (drop (pos + 1) ?code)))"
    using load_words_value [OF L(3,4) _ rb] pos L(1) by simp
  then show ?thesis
    unfolding core_push_def Let_def f_def [symmetric] p_def [symmetric] r
    using t by (simp add: st_push_def stack_simps)
qed

section \<open>Moving in the code\<close>

text \<open>
  The contract of the instructions that return a code position: the next position is the
  one behind the instruction and its immediate bytes, or for a jump (\<open>jmp\<close>) a marked
  destination; a null
  position comes with the status of a bad jump.
\<close>

definition iter_ok ::
  "bool \<Rightarrow> nat \<Rightarrow> nat \<Rightarrow> stack_top \<Rightarrow> nat \<Rightarrow> 'h exec_state \<Rightarrow> nat option \<times> 'h exec_state \<Rightarrow> bool" where
  "iter_ok jmp n imm t pos st r \<longleftrightarrow> (case r of (np, st') \<Rightarrow>
     framed st st' \<and> below_kept (t - n) (stack_space st) (stack_space st') \<and> output_kept st st' \<and>
     memory st' = memory st \<and> host st' = host st \<and> gas_refund st' = gas_refund st \<and>
     (case np of
        None \<Rightarrow> status st' = ZVMC_BAD_JUMP_DESTINATION
      | Some p \<Rightarrow> status st' = status st \<and>
          (p = pos + imm + 1 \<or>
           jmp \<and> p < length (jumpdest_map (analysis st)) \<and> jumpdest_map (analysis st) ! p)))"

lemma core_jump_impl_ok:
  "iter_ok True n imm t pos st (core_jump_impl st dst)"
  by (auto simp: core_jump_impl_def iter_ok_def Let_def to_size_eq_mod not_le
      intro: order_le_less_trans [OF mod_less_eq_dividend])

lemma core_jump_ok:
  "1 \<le> t \<Longrightarrow> t \<le> limit \<Longrightarrow> returns (core_jump t st pos) (iter_ok True 1 0 t pos st)"
  by (simp add: core_jump_def returns_simps core_jump_impl_ok)

lemma core_jumpi_ok:
  "2 \<le> t \<Longrightarrow> t \<le> limit \<Longrightarrow> returns (core_jumpi t st pos) (iter_ok True 2 0 t pos st)"
  by (simp add: core_jumpi_def returns_simps core_jump_impl_ok) (simp add: iter_ok_def)

lemma core_pc_ok:
  "t < limit \<Longrightarrow> returns (core_pc t st pos) (iter_ok False 0 0 t pos st)"
  by (simp add: core_pc_def returns_simps iter_ok_def)

theorem iter_impl_ok:
  assumes "op_args_ok (Iter_op i)" and "iter_op_info i = (c, req, chg)"
    and "req \<le> int t" "t \<le> limit" "int t + chg \<le> int limit"
    and "pos + 33 \<le> length (padded_code (analysis st))"
  shows "returns (iter_impl i t st pos) (iter_ok (is_jump_op (Iter_op i)) (nat req) (op_immediate (Iter_op i)) t pos st)"
proof (cases i)
  case (Id_push n)
  then show ?thesis using assms core_push_spec [of n t pos st] by (auto simp: iter_ok_def)
qed (use assms core_jump_ok [of t st pos] core_jumpi_ok [of t st pos] core_pc_ok [of t st pos] in auto)

text \<open>
  A jump is taken exactly when the 256-bit destination is a marked position; the
  comparison with the size comes before the truncation to \<open>size_t\<close>.
\<close>

lemma core_jump_impl_iff:
  assumes "length (jumpdest_map (analysis st)) < 2 ^ 64"
  shows "core_jump_impl st dst =
    (if unat dst < length (jumpdest_map (analysis st)) \<and> jumpdest_map (analysis st) ! unat dst
     then (Some (unat dst), st) else (None, st\<lparr>status := ZVMC_BAD_JUMP_DESTINATION\<rparr>))"
  using assms by (auto simp: core_jump_impl_def Let_def to_size_small)

section \<open>Ending the execution\<close>

text \<open>The bytes that a state returns to its caller.\<close>

definition output_bytes :: "'h exec_state \<Rightarrow> bytes" where
  "output_bytes st = take (output_size st) (drop (output_offset st) (mem_view (memory st)))"

definition output_ok :: "'h exec_state \<Rightarrow> bool" where
  "output_ok st \<longleftrightarrow> (if output_size st = 0 then output_offset st = 0
     else output_offset st + output_size st \<le> m_size (memory st))"

lemma core_return_impl_spec:
  assumes t: "2 \<le> t" "t \<le> limit" and g: "0 \<le> g" and inv: "mem_inv (memory st)"
    and s: "s = ZVMC_SUCCESS \<or> s = ZVMC_REVERT" and out: "output_size st = 0" "output_offset st = 0"
  shows "returns (core_return_impl s P t g st) (\<lambda>((s', g'), st').
    framed st st' \<and> mem_inv (memory st') \<and> stack_space st' = stack_space st \<and> host st' = host st \<and>
    gas_refund st' = gas_refund st \<and> g' \<le> g \<and> output_ok st' \<and>
    (if s' = s then 0 \<le> g' \<and> mem_extends (memory st) (memory st') \<and>
       output_bytes st' = padded_slice (mem_view (memory st)) (unat (stack_space st (t - 1)))
         (unat (stack_space st (t - 2)))
     else s' = ZVMC_OUT_OF_GAS \<and> output_size st' = 0))"
  unfolding core_return_impl_def using t
  apply (simp only: st_at_in bind.bind_lunit prod.case)
  apply (rule returns_bindI, rule returns_st_check_memory [OF inv g])
  using s out apply (auto simp: output_ok_def inv)[1]
  using out
  apply (auto simp: Let_def output_ok_def output_bytes_def range_ok_def mem_extends_read
      numeral_2_eq_2)
  done

lemma term_impl_ok:
  assumes "term_op_info i = (c, req, chg)" and "req \<le> int t" "t \<le> limit"
    and "0 \<le> g" and "mem_inv (memory st)" and "output_size st = 0" "output_offset st = 0"
  shows "returns (term_impl i P t g st) (\<lambda>((s', g'), st').
    framed st st' \<and> mem_inv (memory st') \<and> host st' = host st \<and>
    gas_refund st' = gas_refund st \<and> g' \<le> g \<and> output_ok st' \<and>
    (if s' = ZVMC_SUCCESS \<or> s' = ZVMC_REVERT then 0 \<le> g' \<and> i \<noteq> Id_invalid else output_size st' = 0))"
proof (cases i)
  case Id_return
  then show ?thesis using assms
    by (auto intro!: returns_mono [OF core_return_impl_spec] split: if_splits)
next
  case Id_revert
  then show ?thesis using assms
    by (auto intro!: returns_mono [OF core_return_impl_spec] split: if_splits)
qed (use assms in \<open>auto simp: core_stop_impl_def output_ok_def\<close>)

end
