(* ===== verification/Zvm_Storage_Laws.thy ===== *)
theory Zvm_Storage_Laws
  imports Zvm_Control
begin

text \<open>
  What the storage instructions guarantee: the costs, the guard against static mode and
  reentrancy, and the effects on the host with the refund they earn.
\<close>

lemma access_storage_effect:
  "host_access_storage P h (recipient m) k = (acc, h') \<Longrightarrow> vm_effects P m h 0 h'"
  using eff_access_storage [of P m h 0 h k] by simp

lemma set_storage_effect:
  "host_set_storage P h (recipient m) k v = (s, h') \<Longrightarrow> \<not> is_static m \<Longrightarrow>
   vm_effects P m h (snd (sstore_costs r s)) h'"
  using eff_set_storage [of P m h 0 h r k v] by simp

lemma core_sload_spec:
  assumes "1 \<le> t" "t \<le> limit" "0 \<le> g" "mem_inv (memory st)"
  shows "returns (core_sload P t g st) (\<lambda>((s, g'), st'). result_ok P 1 t g st ((s, g'), st') \<and>
    (case host_access_storage P (host st) (recipient (msg st)) (stack_space st (t - 1)) of
       (acc, h) \<Rightarrow> host st' = h \<and> g' = g - (if acc = ZVMC_ACCESS_COLD then 2000 else 0) \<and>
         (s = ZVMC_SUCCESS \<longrightarrow> stack_space st' = (stack_space st)(t - 1 :=
            host_get_storage P h (recipient (msg st)) (stack_space st (t - 1))))))"
  using assms
  by (cases "host_access_storage P (host st) (recipient (msg st)) (stack_space st (t - 1))")
     (simp add: core_sload_def returns_simps Let_def result_ok_def cost_constants
       access_storage_effect)

text \<open>
  A store needs more than the 2300 gas of the call stipend and never happens in static mode;
  it charges at least 100 gas.
\<close>

lemma core_sstore_spec:
  assumes "2 \<le> t" "t \<le> limit" "0 \<le> g" "mem_inv (memory st)"
  shows "returns (core_sstore P t g st) (\<lambda>((s, g'), st'). result_ok P 2 t g st ((s, g'), st') \<and>
    (in_static_mode st \<or> g \<le> 2300 \<longrightarrow> s \<noteq> ZVMC_SUCCESS \<and> st' = st) \<and>
    (s = ZVMC_SUCCESS \<longrightarrow> g' + 100 \<le> g))"
proof (cases "in_static_mode st \<or> g \<le> 2300")
  case True
  then show ?thesis using assms by (auto simp: core_sstore_def result_ok_def)
next
  case False
  obtain acc h where a: "host_access_storage P (host st) (recipient (msg st))
    (stack_space st (t - Suc 0)) = (acc, h)" by fastforce
  obtain stat h2 where s: "host_set_storage P h (recipient (msg st)) (stack_space st (t - Suc 0))
    (stack_space st (t - Suc (Suc 0))) = (stat, h2)" by fastforce
  obtain c r where c: "sstore_costs (st_rev st) stat = (c, r)" by fastforce
  have "100 \<le> c" using sstore_cost_min [of "st_rev st" stat] c by simp
  moreover have "earns P b (msg st) (host st) n h2 (if b then n + r else n)" if "\<not> is_static (msg st)" for n b
    using vm_effects_trans [OF access_storage_effect [OF a] set_storage_effect [OF s that, of "st_rev st"]] c
    by (auto simp: earns_def)
  from this [of True] this [of False]
  have "earns P True (msg st) (host st) n h2 (n + r)" "earns P False (msg st) (host st) n h2 n"
    if "\<not> is_static (msg st)" for n using that by simp_all
  ultimately show ?thesis using False assms
    by (simp add: core_sstore_def returns_simps Let_def a s c result_ok_def cost_constants
        in_static_mode_eq)
qed

end
