(* ===== verification/Zvm_Calls.thy ===== *)
theory Zvm_Calls
  imports Zvm_Storage_Laws
begin

text \<open>
  The instructions that call the host to run other code or to create contracts
  (\<open>lib/zvmone/instructions_calls.cpp\<close>), and the table of all instructions that return a
  status and the gas left.
\<close>

section \<open>Calls\<close>

text \<open>
  The last part of \<open>call_impl\<close>: the gas of the message, the two \<open>light\<close> failures, the call of
  the host and the use of its result.  \<open>m\<close> is the message without its gas, \<open>t\<close> the stack
  top above the pushed zero.
\<close>

definition call_host ::
  "uint256 \<Rightarrow> uint256 \<Rightarrow> message \<Rightarrow> nat \<Rightarrow> nat \<Rightarrow> 'h result_fn" where
  "call_host gas256 v m out_offset out_size P t gas_left st = do {
     let has_value = v \<noteq> 0;
     let msg_gas = 2 ^ 63 - 1;
     let msg_gas = (if uint gas256 < msg_gas then uint gas256 else msg_gas);
     let msg_gas = min msg_gas (gas_left - gas_left sdiv 64);
     let msg_gas = (if has_value then msg_gas + 2300 else msg_gas);
     let gas_left = (if has_value then gas_left + 2300 else gas_left);
     if depth (msg st) \<ge> 1024 then Some ((ZVMC_SUCCESS, gas_left), st)
     else if has_value \<and> host_get_balance P (host st) (recipient (msg st)) < v
     then Some ((ZVMC_SUCCESS, gas_left), st)
     else do {
       let (result, h) = host_call P (host st) (m\<lparr>gas := msg_gas\<rparr>);
       let st = st\<lparr>host := h, return_data := output_data result\<rparr>;
       st \<leftarrow> st_set st t 0 (if res_status result = ZVMC_SUCCESS then 1 else 0);
       let copy_size = min out_size (length (output_data result));
       st \<leftarrow> (if copy_size > 0
             then st_write st out_offset (take copy_size (output_data result)) else Some st);
       let gas_used = msg_gas - res_gas_left result;
       let gas_left = gas_left - gas_used;
       let st = st\<lparr>gas_refund := gas_refund st + res_gas_refund result\<rparr>;
       Some ((ZVMC_SUCCESS, gas_left), st) } }"

text \<open>The message of a call, without its gas.\<close>

definition call_message :: "nat \<Rightarrow> message \<Rightarrow> address \<Rightarrow> uint256 \<Rightarrow> bytes \<Rightarrow> message" where
  "call_message Op parent dst v input =
     empty_message
       \<lparr>kind := (if Op = OP_DELEGATECALL then ZVMC_DELEGATECALL else ZVMC_CALL),
        flags := (if Op = OP_STATICCALL then ZVMC_STATIC else flags parent),
        depth := depth parent + 1,
        recipient := (if Op = OP_CALL \<or> Op = OP_STATICCALL then dst else recipient parent),
        code_address := dst,
        sender := (if Op = OP_DELEGATECALL then sender parent else recipient parent),
        msg_value := (if Op = OP_DELEGATECALL then msg_value parent else v),
        input_data := input\<rparr>"

definition call_impl :: "nat \<Rightarrow> 'h result_fn" where
  "call_impl Op P t gas_left st = do {
     (gas256, t) \<leftarrow> st_pop st t;
     (d, t) \<leftarrow> st_pop st t;
     let dst = ucast d;
     (v, t) \<leftarrow> (if Op = OP_STATICCALL \<or> Op = OP_DELEGATECALL then Some (0, t) else st_pop st t);
     let has_value = v \<noteq> 0;
     (input_offset_u256, t) \<leftarrow> st_pop st t;
     (input_size_u256, t) \<leftarrow> st_pop st t;
     (output_offset_u256, t) \<leftarrow> st_pop st t;
     (output_size_u256, t) \<leftarrow> st_pop st t;
     (st, t) \<leftarrow> st_push st t 0;
     let st = st\<lparr>return_data := []\<rparr>;
     let (ok, gas_left, st) = access_account_cost P dst gas_left st;
     if \<not> ok then Some ((ZVMC_OUT_OF_GAS, gas_left), st)
     else do {
       (ok, gas_left, st) \<leftarrow> st_check_memory gas_left st input_offset_u256 input_size_u256;
       if \<not> ok then Some ((ZVMC_OUT_OF_GAS, gas_left), st)
       else do {
         (ok, gas_left, st) \<leftarrow> st_check_memory gas_left st output_offset_u256 output_size_u256;
         if \<not> ok then Some ((ZVMC_OUT_OF_GAS, gas_left), st)
         else do {
           let input_offset = to_size input_offset_u256;
           let input_size = to_size input_size_u256;
           let out_offset = to_size output_offset_u256;
           let out_size = to_size output_size_u256;
           input \<leftarrow> (if input_size \<noteq> 0 then mem_read (memory st) input_offset input_size
                     else Some []);
           let m = call_message Op (msg st) dst v input;
           let cost = (if has_value then 9000 else 0);
           if Op = OP_CALL \<and> has_value \<and> in_static_mode st
           then Some ((ZVMC_STATIC_MODE_VIOLATION, gas_left), st)
           else do {
             let cost = (if Op = OP_CALL \<and> has_value \<and> \<not> host_account_exists P (host st) dst
                         then cost + 25000 else cost);
             let gas_left = gas_left - cost;
             if gas_left < 0 then Some ((ZVMC_OUT_OF_GAS, gas_left), st)
             else call_host gas256 v m out_offset out_size P t gas_left st } } } } }"

section \<open>Contract creation\<close>

text \<open>The last part of \<open>create_impl\<close>: the message, the call of the host and its result.\<close>

definition create_host :: "nat \<Rightarrow> uint256 \<Rightarrow> uint256 \<Rightarrow> nat \<Rightarrow> nat \<Rightarrow> 'h result_fn" where
  "create_host Op endowment salt init_code_offset init_code_size P t gas_left st = do {
     let msg_gas = gas_left;
     let msg_gas = msg_gas - msg_gas sdiv 64;
     input \<leftarrow> (if init_code_size \<noteq> 0
               then mem_read (memory st) init_code_offset init_code_size else Some []);
     let m = empty_message
       \<lparr>gas := msg_gas,
        kind := (if Op = OP_CREATE then ZVMC_CREATE else ZVMC_CREATE2),
        input_data := input,
        sender := recipient (msg st),
        depth := depth (msg st) + 1,
        create2_salt := salt,
        msg_value := endowment\<rparr>;
     let (result, h) = host_call P (host st) m;
     let st = st\<lparr>host := h\<rparr>;
     let gas_left = gas_left - (msg_gas - res_gas_left result);
     let st = st\<lparr>gas_refund := gas_refund st + res_gas_refund result,
                 return_data := output_data result\<rparr>;
     st \<leftarrow> (if res_status result = ZVMC_SUCCESS
           then st_set st t 0 (ucast (create_address result)) else Some st);
     Some ((ZVMC_SUCCESS, gas_left), st) }"

definition create_impl :: "nat \<Rightarrow> 'h result_fn" where
  "create_impl Op P t gas_left st =
     (if in_static_mode st then Some ((ZVMC_STATIC_MODE_VIOLATION, gas_left), st)
      else do {
        (endowment, t) \<leftarrow> st_pop st t;
        (init_code_offset_u256, t) \<leftarrow> st_pop st t;
        (init_code_size_u256, t) \<leftarrow> st_pop st t;
        (salt, t) \<leftarrow> (if Op = OP_CREATE2 then st_pop st t else Some (0, t));
        (st, t) \<leftarrow> st_push st t 0;
        let st = st\<lparr>return_data := []\<rparr>;
        (ok, gas_left, st) \<leftarrow> st_check_memory gas_left st init_code_offset_u256 init_code_size_u256;
        if \<not> ok then Some ((ZVMC_OUT_OF_GAS, gas_left), st)
        else do {
          let init_code_offset = to_size init_code_offset_u256;
          let init_code_size = to_size init_code_size_u256;
          if init_code_size > 0xC000 then Some ((ZVMC_OUT_OF_GAS, gas_left), st)
          else do {
            let init_code_word_cost = 6 * (if Op = OP_CREATE2 then 1 else 0) + 2;
            let init_code_cost = num_words init_code_size * init_code_word_cost;
            let gas_left = gas_left - init_code_cost;
            if gas_left < 0 then Some ((ZVMC_OUT_OF_GAS, gas_left), st)
            else if depth (msg st) \<ge> 1024 then Some ((ZVMC_SUCCESS, gas_left), st)
            else if endowment \<noteq> 0 \<and> host_get_balance P (host st) (recipient (msg st)) < endowment
            then Some ((ZVMC_SUCCESS, gas_left), st)
            else create_host Op endowment salt init_code_offset init_code_size P t gas_left st } } })"

section \<open>The instruction table\<close>

fun result_impl :: "result_op \<Rightarrow> 'h result_fn" where
  "result_impl Id_exp = core_exp"
| "result_impl Id_keccak256 = core_keccak256"
| "result_impl Id_balance = core_balance"
| "result_impl Id_calldatacopy = core_calldatacopy"
| "result_impl Id_codecopy = core_codecopy"
| "result_impl Id_extcodesize = core_extcodesize"
| "result_impl Id_extcodecopy = core_extcodecopy"
| "result_impl Id_returndatacopy = core_returndatacopy"
| "result_impl Id_extcodehash = core_extcodehash"
| "result_impl Id_mload = core_mload"
| "result_impl Id_mstore = core_mstore"
| "result_impl Id_mstore8 = core_mstore8"
| "result_impl Id_sload = core_sload"
| "result_impl Id_sstore = core_sstore"
| "result_impl Id_gas = core_gas"
| "result_impl (Id_log n) = core_log n"
| "result_impl Id_call = call_impl OP_CALL"
| "result_impl Id_delegatecall = call_impl OP_DELEGATECALL"
| "result_impl Id_staticcall = call_impl OP_STATICCALL"
| "result_impl Id_create = create_impl OP_CREATE"
| "result_impl Id_create2 = create_impl OP_CREATE2"

section \<open>What a call guarantees\<close>

text \<open>The gas passed to the callee is at most all but one 64th of the gas left.\<close>

lemma sdiv_64: "0 \<le> g \<Longrightarrow> g sdiv 64 = (g :: int) div 64"
  by (cases "g = 0") (simp_all add: signed_divide_int_def)

definition call_gas :: "uint256 \<Rightarrow> uint256 \<Rightarrow> int \<Rightarrow> int" where
  "call_gas gas256 v g =
     min (min (uint gas256) (2 ^ 63 - 1)) (g - g div 64) + (if v = 0 then 0 else 2300)"

lemma call_gas_bounds: "0 \<le> g \<Longrightarrow> 0 \<le> call_gas gas256 v g \<and>
    call_gas gas256 v g \<le> g + (if v = 0 then 0 else 2300)"
  by (auto simp: call_gas_def min_def)

lemma call_host_eq:
  assumes "0 \<le> g"
  shows "call_host gas256 v m out_offset out_size P t g st =
    (let g' = g + (if v = 0 then 0 else 2300) in
     if depth (msg st) \<ge> 1024 \<or> v \<noteq> 0 \<and> host_get_balance P (host st) (recipient (msg st)) < v
     then Some ((ZVMC_SUCCESS, g'), st)
     else case host_call P (host st) (m\<lparr>gas := call_gas gas256 v g\<rparr>) of (result, h) \<Rightarrow> do {
       st \<leftarrow> st_set (st\<lparr>host := h, return_data := output_data result\<rparr>) t 0
              (if res_status result = ZVMC_SUCCESS then 1 else 0);
       let copy_size = min out_size (length (output_data result));
       st \<leftarrow> (if copy_size > 0
             then st_write st out_offset (take copy_size (output_data result)) else Some st);
       Some ((ZVMC_SUCCESS, g' - (call_gas gas256 v g - res_gas_left result)),
             st\<lparr>gas_refund := gas_refund st + res_gas_refund result\<rparr>) })"
proof -
  have "(if uint gas256 < 2 ^ 63 - 1 then uint gas256 else 2 ^ 63 - 1) = min (uint gas256) (2 ^ 63 - 1)"
    by (simp add: min_def)
  then have "(if v \<noteq> 0 then min (if uint gas256 < 2 ^ 63 - 1 then uint gas256 else 2 ^ 63 - 1)
      (g - g sdiv 64) + 2300 else min (if uint gas256 < 2 ^ 63 - 1 then uint gas256 else 2 ^ 63 - 1)
      (g - g sdiv 64)) = call_gas gas256 v g"
    using assms by (simp add: call_gas_def sdiv_64)
  then show ?thesis unfolding call_host_def Let_def by (cases "v = 0") simp_all
qed

lemma range_okD: "range_ok m off n \<Longrightarrow> n \<noteq> 0 \<longrightarrow> to_size off + n \<le> m_size m"
  by (auto simp: range_ok_def)

context zvmc_host
begin

lemma call_host_ok:
  assumes g: "0 \<le> g" and inv: "mem_inv (memory st)" and t: "0 < t" "t \<le> limit"
    and out: "out_size \<noteq> 0 \<longrightarrow> out_offset + out_size \<le> m_size (memory st)"
    and allowed: "depth (msg st) < 1024 \<Longrightarrow>
      v = 0 \<or> v \<le> host_get_balance P (host st) (recipient (msg st)) \<Longrightarrow>
      call_allowed P (msg st) (host st) (m\<lparr>gas := 0\<rparr>)"
  shows "returns (call_host gas256 v m out_offset out_size P t g st)
    (result_ok P 1 t (g + (if v = 0 then 0 else 2300)) st)"
proof -
  let ?m = "m\<lparr>gas := call_gas gas256 v g\<rparr>"
  obtain result h where r: "host_call P (host st) ?m = (result, h)" by fastforce
  have gas: "0 \<le> res_gas_left result" "res_gas_left result \<le> call_gas gas256 v g"
    using call_gas_left [of ?m "host st"] call_gas_bounds [OF g] by (auto simp: r)
  have eff: "vm_effects P (msg st) (host st) (res_gas_refund result) h"
    if "\<not> (depth (msg st) \<ge> 1024 \<or> v \<noteq> 0 \<and> host_get_balance P (host st) (recipient (msg st)) < v)"
  proof -
    have "call_allowed P (msg st) (host st) ?m"
      using allowed that call_gas_bounds [OF g, of gas256 v]
      by (auto simp: call_allowed_def not_less split: call_kind.splits)
    then show ?thesis using eff_call [of P "msg st" "host st" 0 "host st" ?m] by (simp add: r)
  qed
  show ?thesis
    unfolding call_host_eq [OF g] Let_def r prod.case
    using gas call_gas_bounds [OF g, of gas256 v] eff inv t out
    apply (intro returns_ifI returns_bindI returns_st_setI)
      apply (simp_all add: result_ok_def)
    apply (intro conjI impI returns_st_write)
       apply (auto simp: min_def)
    done
qed

lemma call_message_allowed:
  assumes "\<not> (Op = OP_CALL \<and> v \<noteq> 0 \<and> is_static m)"
    and "Op = OP_CALL \<or> Op = OP_DELEGATECALL \<or> Op = OP_STATICCALL" and "Op \<noteq> OP_CALL \<Longrightarrow> v = 0"
    and "depth m < 1024" and "v = 0 \<or> v \<le> host_get_balance P h (recipient m)"
  shows "call_allowed P m h ((call_message Op m dst v input)\<lparr>gas := 0\<rparr>)"
  using assms by (auto simp: call_message_def call_allowed_def is_static_def)

lemma result_ok_trans:
  assumes "result_ok P n t g st ((ZVMC_SUCCESS, g1), st1)" and "result_ok P k t1 g2 st1 r"
    and "g2 \<le> g" and "t - n \<le> t1 - k"
  shows "result_ok P n t g st r"
  using assms
  by (auto simp: result_ok_def below_kept_def framed_msg
      intro: framed_trans output_kept_trans earns_trans)

lemma call_tail_ok:
  assumes pre: "result_ok P n t g st ((ZVMC_SUCCESS, g1), st1)"
    and Op: "Op = OP_CALL \<or> Op = OP_DELEGATECALL \<or> Op = OP_STATICCALL" "Op \<noteq> OP_CALL \<Longrightarrow> v = 0"
    and t: "n \<le> t" "t < limit + n"
    and input: "k \<noteq> 0 \<longrightarrow> off + k \<le> m_size (memory st1)"
    and out: "os \<noteq> 0 \<longrightarrow> oo + os \<le> m_size (memory st1)"
    and cost: "(if v \<noteq> 0 then 9000 else 0) \<le> cost"
  shows "returns ((if k \<noteq> 0 then mem_read (memory st1) off k else Some []) \<bind> (\<lambda>input.
      if Op = OP_CALL \<and> v \<noteq> 0 \<and> in_static_mode st1 then Some ((ZVMC_STATIC_MODE_VIOLATION, g1), st1)
      else if g1 - cost < 0 then Some ((ZVMC_OUT_OF_GAS, g1 - cost), st1)
      else call_host gas256 v (call_message Op (msg st1) d v input) oo os P (t - n + 1) (g1 - cost) st1))
    (result_ok P n t g st)"
proof -
  obtain input where i: "(if k \<noteq> 0 then mem_read (memory st1) off k else Some []) = Some input"
    using mem_read_in [of off k "memory st1"] input by (cases "k = 0") auto
  have cost0: "0 \<le> cost" "v \<noteq> 0 \<Longrightarrow> 2300 \<le> cost" using cost by (auto split: if_splits)
  have "returns (call_host gas256 v (call_message Op (msg st1) d v input) oo os P (t - n + 1)
      (g1 - cost) st1) (result_ok P n t g st)"
    if nv: "\<not> (Op = OP_CALL \<and> v \<noteq> 0 \<and> in_static_mode st1)" and "0 \<le> g1 - cost"
  proof (rule returns_mono [OF call_host_ok])
    fix r assume "result_ok P 1 (t - n + 1) (g1 - cost + (if v = 0 then 0 else 2300)) st1 r"
    then show "result_ok P n t g st r"
      by (rule result_ok_trans [OF pre]) (use cost0 pre in \<open>auto simp: result_ok_def\<close>)
  qed (use that pre t out call_message_allowed [OF _ Op, of "msg st1" "host st1" d input] in
      \<open>auto simp: result_ok_def in_static_mode_eq\<close>)
  then show ?thesis using pre cost0 unfolding i bind.bind_lunit
    by (intro returns_ifI) (auto simp: result_ok_def intro: earns_unbooked)
qed

lemma call_impl_ok:
  assumes Op: "Op = OP_CALL \<or> Op = OP_DELEGATECALL \<or> Op = OP_STATICCALL"
    and n: "n = (if Op = OP_CALL then 7 else 6)"
    and t: "n \<le> t" "t \<le> limit" and g: "0 \<le> g" and inv: "mem_inv (memory st)"
  shows "returns (call_impl Op P t g st) (result_ok P n t g st)"
proof -
  define t0 where "t0 = t - n"
  have t0: "6 \<le> t" "t0 + 4 \<le> limit" "t0 < limit" using n t by (auto simp: t0_def split: if_splits)
  obtain v where v: "(if Op = OP_STATICCALL \<or> Op = OP_DELEGATECALL then Some (0, t - 1 - 1)
      else Some (stack_space st (t - 1 - 1 - 1), t - 1 - 1 - 1)) = Some (v, t0 + 4)"
      "Op \<noteq> OP_CALL \<Longrightarrow> v = 0"
    using Op n t by (auto simp: t0_def)
  have down: "t0 + 4 - 1 - 1 - 1 - 1 = t0" by simp
  show ?thesis
    unfolding call_impl_def using t t0
    apply (simp only: st_pop_in bind.bind_lunit prod.case Let_def v(1) down st_push_in)
    apply (rule returns_access_account [OF g])
     apply (simp add: result_ok_def inv t0_def)
    apply (simp only: not_True_eq_False if_False)
    apply (rule returns_bindI, rule returns_st_check_memory)
       apply (simp add: inv)
      apply assumption
     apply (simp add: result_ok_def inv t0_def)
    apply (simp only: prod.case not_True_eq_False if_False)
    apply (rule returns_bindI, rule returns_st_check_memory)
       apply simp
      apply assumption
     apply (simp add: result_ok_def t0_def mem_extends_size)
    apply (simp only: prod.case not_True_eq_False if_False t0_def)
    apply (rule call_tail_ok [OF _ Op v(2)])
         apply (simp_all add: result_ok_def mem_extends_size)
      apply (auto simp: range_ok_def dest!: mem_extends_size)
    done
qed

lemma create_host_ok:
  assumes g: "0 \<le> g" and inv: "mem_inv (memory st)" and t: "0 < t" "t \<le> limit"
    and input: "k \<noteq> 0 \<longrightarrow> off + k \<le> m_size (memory st)" and stat: "\<not> in_static_mode st"
    and d: "depth (msg st) < 1024"
    and bal: "e = 0 \<or> e \<le> host_get_balance P (host st) (recipient (msg st))"
  shows "returns (create_host Op e salt off k P t g st) (result_ok P 1 t g st)"
proof -
  obtain input where i: "(if k \<noteq> 0 then mem_read (memory st) off k else Some []) = Some input"
    using mem_read_in [of off k "memory st"] input by (cases "k = 0") auto
  have msg_gas: "0 \<le> g - g sdiv 64" "g - g sdiv 64 \<le> g" using g by (simp_all add: sdiv_64)
  define m where "m = empty_message
       \<lparr>gas := g - g sdiv 64, kind := (if Op = OP_CREATE then ZVMC_CREATE else ZVMC_CREATE2),
        input_data := input, sender := recipient (msg st), depth := depth (msg st) + 1,
        create2_salt := salt, msg_value := e\<rparr>"
  obtain result h where r: "host_call P (host st) m = (result, h)" by fastforce
  have "call_allowed P (msg st) (host st) m"
    using stat d bal msg_gas(1)
    by (auto simp: m_def call_allowed_def empty_message_def in_static_mode_eq)
  then have eff: "vm_effects P (msg st) (host st) (res_gas_refund result) h"
    using eff_call [of P "msg st" "host st" 0 "host st" m] by (simp add: r)
  have "0 \<le> res_gas_left result" "res_gas_left result \<le> g - g sdiv 64"
    using call_gas_left [of m "host st"] msg_gas by (simp_all add: r) (simp_all add: m_def)
  then show ?thesis
    unfolding create_host_def Let_def i bind.bind_lunit m_def [symmetric] r prod.case
    using msg_gas inv t eff
    by (intro returns_ifI returns_bindI returns_st_setI) (simp_all add: result_ok_def returns_simps)
qed

lemma create_impl_ok:
  assumes Op: "Op = OP_CREATE \<or> Op = OP_CREATE2" and n: "n = (if Op = OP_CREATE then 3 else 4)"
    and t: "n \<le> t" "t \<le> limit" and g: "0 \<le> g" and inv: "mem_inv (memory st)"
  shows "returns (create_impl Op P t g st) (result_ok P n t g st)"
proof -
  define t0 where "t0 = t - n"
  have t0: "3 \<le> t" "t0 < limit" using n t by (auto simp: t0_def split: if_splits)
  obtain salt where salt: "(if Op = OP_CREATE2 then st_pop st (t - 1 - 1 - 1)
      else Some (0, t - 1 - 1 - 1)) = Some (salt, t0)"
    using Op n t by (auto simp: t0_def st_pop_in)
  have w: "0 \<le> (6 * (if Op = OP_CREATE2 then 1 else 0) + 2 :: int)" by simp
  show ?thesis
    unfolding create_impl_def using t t0
    apply (intro returns_ifI)
     apply (simp add: result_ok_def inv)
    apply (rule returns_bindI, rule returns_st_popI, simp, simp, rule returns_prodI)
    apply (rule returns_bindI, rule returns_st_popI, simp, simp, rule returns_prodI)
    apply (rule returns_bindI, rule returns_st_popI, simp, simp, rule returns_prodI)
    apply (simp only: salt bind.bind_lunit prod.case st_push_in Let_def)
    apply (rule returns_bindI, rule returns_st_check_memory)
       apply (simp add: inv)
      apply (rule g)
     apply (simp add: result_ok_def inv t0_def)
    apply (simp only: prod.case not_True_eq_False if_False)
    apply (intro returns_ifI)
        apply (simp add: result_ok_def t0_def mem_extends_size)
       apply (simp add: result_ok_def t0_def mem_extends_size charge_words)
      apply (simp add: result_ok_def t0_def mem_extends_size charge_words)
     apply (simp add: result_ok_def t0_def mem_extends_size charge_words)
    apply (rule returns_mono [OF create_host_ok])
          apply simp
         apply simp
        apply simp
       apply simp
      apply (simp add: range_okD)
       apply (simp add: in_static_mode_def)
      apply simp
     apply (auto simp: not_less)[1]
    apply (erule result_ok_trans [rotated])
      apply (simp_all add: charge_words t0_def)
    apply (simp add: result_ok_def mem_extends_size charge_words)
    done
qed

section \<open>All instructions with a status\<close>

text \<open>
  Every instruction of this kind, called with enough stack items and room for its result,
  returns, keeps to its arguments and never increases the gas; \<open>sstore\<close>, which has no
  base cost in the table, charges on success.
\<close>

lemma returns_result_ok:
  "returns m (\<lambda>((s, g'), st'). result_ok P k t g st ((s, g'), st') \<and> R s g' st') \<Longrightarrow>
   returns m (result_ok P k t g st)"
  by (erule returns_mono) auto

lemmas memory_ops_ok = core_keccak256_spec [THEN returns_result_ok]
  buffer_copy_spec [THEN returns_result_ok] core_returndatacopy_spec [THEN returns_result_ok]
  core_mload_spec [THEN returns_result_ok] core_mstore_spec [THEN returns_result_ok]
  core_mstore8_spec [THEN returns_result_ok] core_log_spec [THEN returns_result_ok]

lemmas result_ops_ok = core_exp_ok account_query_ok [unfolded One_nat_def] core_extcodecopy_spec
  memory_ops_ok [unfolded One_nat_def]
  core_sload_spec [THEN returns_result_ok, unfolded One_nat_def]
  core_sstore_spec [THEN returns_result_ok] core_gas_ok

theorem result_impl_ok:
  assumes "op_args_ok (Result_op i)" and "result_op_info i = (c, req, chg)"
    and "req \<le> int t" "t \<le> limit" "int t + chg \<le> int limit"
    and "0 \<le> g" and "mem_inv (memory st)"
  shows "returns (result_impl i P t g st) (result_ok P (nat req) t g st)"
proof (cases i)
  case (Id_log n)
  then have "nat req = n + 2" "n + 2 \<le> t" using assms(2,3) by auto
  then show ?thesis using assms memory_ops_ok(7) [of n t g st] Id_log by simp
qed (use assms call_impl_ok [of OP_CALL 7 t g st] call_impl_ok [of OP_DELEGATECALL 6 t g st]
      call_impl_ok [of OP_STATICCALL 6 t g st] create_impl_ok [of OP_CREATE 3 t g st]
      create_impl_ok [of OP_CREATE2 4 t g st]
      in \<open>auto simp: core_balance_def core_extcodesize_def core_extcodehash_def
        core_calldatacopy_def core_codecopy_def intro!: result_ops_ok\<close>)

end

end
