(* ===== verification/Zvm_Analysis.thy ===== *)
theory Zvm_Analysis
  imports Zvm_Calls
begin

text \<open>
  The code analysis of the Baseline interpreter (\<open>lib/zvmone/baseline.cpp\<close>): the bitmap of
  jump destinations and the padded code.  The specification is the set of instruction
  boundaries that the immediate sizes of the instruction traits define.
\<close>

section \<open>Definitions\<close>

text \<open>
  The loop of \<open>analyze_jumpdests\<close>.  The test for a push compares the opcode as a signed
  byte, so that it needs no upper bound.
\<close>

function jumpdest_loop :: "bytes \<Rightarrow> nat \<Rightarrow> bool list \<Rightarrow> bool list" where
  "jumpdest_loop code i m =
     (if i < length code
      then let op = code ! i in
        if sint op \<ge> int OP_PUSH1
        then jumpdest_loop code (i + (unat op - (OP_PUSH1 - 1)) + 1) m
        else if unat op = OP_JUMPDEST then jumpdest_loop code (i + 1) (m[i := True])
        else jumpdest_loop code (i + 1) m
      else m)"
  by auto
termination
  by (relation "measure (\<lambda>(code, i, m). length code - i)") auto

declare jumpdest_loop.simps [simp del]

definition analyze_jumpdests :: "bytes \<Rightarrow> bool list" where
  "analyze_jumpdests code = jumpdest_loop code 0 (replicate (length code) False)"

definition pad_code :: "bytes \<Rightarrow> bytes" where
  "pad_code code = code @ replicate (32 + 1) (of_nat OP_STOP)"

definition analyze_legacy :: "bytes \<Rightarrow> code_analysis" where
  "analyze_legacy code = \<lparr>padded_code = pad_code code, executable_size = length code,
     jumpdest_map = analyze_jumpdests code\<rparr>"

definition analyze :: "revision \<Rightarrow> bytes \<Rightarrow> code_analysis" where
  "analyze r code = analyze_legacy code"

section \<open>Instruction boundaries\<close>

text \<open>The position behind the instruction at \<open>i\<close> and its immediate bytes.\<close>

definition next_instr :: "bytes \<Rightarrow> nat \<Rightarrow> nat" where
  "next_instr code i = i + 1 + immediate_size (traits ! unat (code ! i))"

inductive starts_from :: "bytes \<Rightarrow> nat \<Rightarrow> nat \<Rightarrow> bool" for code :: bytes and i :: nat where
  here: "starts_from code i i"
| step: "starts_from code i j \<Longrightarrow> j < length code \<Longrightarrow> starts_from code i (next_instr code j)"

abbreviation instr_start :: "bytes \<Rightarrow> nat \<Rightarrow> bool" where
  "instr_start code \<equiv> starts_from code 0"

text \<open>A position is a valid jump destination: an instruction boundary that holds \<open>JUMPDEST\<close>.\<close>

definition valid_jumpdest :: "bytes \<Rightarrow> nat \<Rightarrow> bool" where
  "valid_jumpdest code j \<longleftrightarrow> j < length code \<and> instr_start code j \<and> unat (code ! j) = OP_JUMPDEST"

lemma next_instr_greater: "i < next_instr code i"
  by (simp add: next_instr_def)

lemma starts_from_ge: "starts_from code i j \<Longrightarrow> i \<le> j"
  by (induction rule: starts_from.induct)
     (auto intro: order_trans less_imp_le [OF next_instr_greater])

lemma starts_from_trans:
  "starts_from code j k \<Longrightarrow> starts_from code i j \<Longrightarrow> starts_from code i k"
  by (induction rule: starts_from.induct) (auto intro: starts_from.intros)

lemma starts_from_unfold:
  "starts_from code i j \<longleftrightarrow> j = i \<or> i < length code \<and> starts_from code (next_instr code i) j"
proof
  assume "starts_from code i j"
  then show "j = i \<or> i < length code \<and> starts_from code (next_instr code i) j"
    by (induction rule: starts_from.induct) (auto intro: starts_from.intros)
next
  assume "j = i \<or> i < length code \<and> starts_from code (next_instr code i) j"
  then show "starts_from code i j"
    by (auto intro: starts_from.here starts_from_trans starts_from.step [OF starts_from.here])
qed

section \<open>Immediate sizes\<close>

lemma immediate_sizes_all:
  "list_all (\<lambda>(op, io). (case io of None \<Rightarrow> 0 | Some i \<Rightarrow> op_immediate i) =
      (if 0x60 \<le> op \<and> op \<le> 0x7f then op - 0x5f else 0)) MAP_OPCODES"
  by code_simp

lemma immediate_size_traits:
  fixes op :: byte
  shows "immediate_size (traits ! unat op) =
    (if 0x60 \<le> unat op \<and> unat op \<le> 0x7f then unat op - 0x5f else 0)"
proof -
  have lt: "unat op < 256" using unsigned_less [of op] by simp
  obtain io where io: "MAP_OPCODES ! unat op = (unat op, io)"
    using fst_MAP_OPCODES_nth [OF lt] by (cases "MAP_OPCODES ! unat op") simp
  have "immediate_size (traits ! unat op) = (case io of None \<Rightarrow> 0 | Some i \<Rightarrow> op_immediate i)"
    using tables_agree [OF lt] io by (auto simp: entry_agrees_def default_traits_def split: option.splits)
  also have "\<dots> = (if 0x60 \<le> unat op \<and> unat op \<le> 0x7f then unat op - 0x5f else 0)"
    using immediate_sizes_all lt io
    by (auto simp: list_all_length split: option.splits)
  finally show ?thesis .
qed

text \<open>The signed comparison recognises exactly the push instructions.\<close>

lemma signed_push_test:
  fixes op :: byte
  shows "sint op \<ge> 0x60 \<longleftrightarrow> 0x60 \<le> unat op \<and> unat op \<le> 0x7f"
proof -
  have u: "uint op = int (unat op)" "unat op < 256" using unsigned_less [of op] by simp_all
  have "sint op = (uint op + 128) mod 256 - 128"
    by (simp add: sint_uint signed_take_bit_eq_take_bit_shift take_bit_eq_mod)
  moreover have "(uint op + 128) mod 256 = (if unat op < 128 then uint op + 128 else uint op - 128)"
  proof (cases "unat op < 128")
    case True
    then have "(uint op + 128) mod 256 = uint op + 128"
      using u by (intro mod_pos_pos_trivial) linarith+
    then show ?thesis using True by simp
  next
    case False
    have "(uint op + 128) mod 256 = (uint op - 128 + 256) mod 256" by (simp add: ac_simps)
    also have "\<dots> = (uint op - 128) mod 256" by (rule mod_add_self2)
    also have "\<dots> = uint op - 128" using False u by (intro mod_pos_pos_trivial) linarith+
    finally show ?thesis using False by simp
  qed
  ultimately have s: "sint op = (if unat op < 128 then int (unat op) else int (unat op) - 256)"
    unfolding u(1) by (simp only: split: if_split) linarith
  show ?thesis using u(2) unfolding s by (simp only: split: if_split) arith
qed

lemma jumpdest_step:
  assumes "i < length code"
  shows "jumpdest_loop code i m = jumpdest_loop code (next_instr code i)
    (if unat (code ! i) = OP_JUMPDEST then m[i := True] else m)"
  using assms immediate_size_traits [of "code ! i"] signed_push_test [of "code ! i"]
  by (subst jumpdest_loop.simps) (auto simp: Let_def next_instr_def)

section \<open>Correctness of the analysis\<close>

lemma length_jumpdest_loop [simp]: "length (jumpdest_loop code i m) = length m"
  by (induction code i m rule: jumpdest_loop.induct) (subst jumpdest_loop.simps, auto simp: Let_def)

lemma jumpdest_loop_nth:
  assumes "length m = length code" and "j < length code"
  shows "jumpdest_loop code i m ! j \<longleftrightarrow>
    m ! j \<or> starts_from code i j \<and> unat (code ! j) = OP_JUMPDEST"
  using assms
proof (induction "length code - i" arbitrary: i m rule: less_induct)
  case less
  show ?case
  proof (cases "i < length code")
    case False
    then show ?thesis using less.prems starts_from_ge [of code i j]
      by (subst jumpdest_loop.simps) auto
  next
    case True
    have "length code - next_instr code i < length code - i"
      using True next_instr_greater [of i code] by linarith
    then show ?thesis
      using less True jumpdest_step [OF True, of m] starts_from_unfold [of code i j]
      by (auto simp: nth_list_update)
  qed
qed

text \<open>The bitmap marks exactly the valid jump destinations.\<close>

theorem analyze_jumpdests_nth:
  "j < length code \<Longrightarrow> analyze_jumpdests code ! j \<longleftrightarrow> valid_jumpdest code j"
  by (simp add: analyze_jumpdests_def jumpdest_loop_nth valid_jumpdest_def)

lemma length_analyze_jumpdests [simp]: "length (analyze_jumpdests code) = length code"
  by (simp add: analyze_jumpdests_def)

lemma length_pad_code [simp]: "length (pad_code code) = length code + 33"
  by (simp add: pad_code_def)

lemma analyze_simps [simp]:
  "padded_code (analyze r code) = pad_code code"
  "executable_size (analyze r code) = length code"
  "jumpdest_map (analyze r code) = analyze_jumpdests code"
  by (simp_all add: analyze_def analyze_legacy_def)

lemma pad_code_nth: "i < length code \<Longrightarrow> pad_code code ! i = code ! i"
  by (simp add: pad_code_def nth_append)

lemma pad_code_beyond: "length code \<le> i \<Longrightarrow> i < length code + 33 \<Longrightarrow> pad_code code ! i = 0"
  by (simp add: pad_code_def nth_append del: replicate.simps)

text \<open>
  The padding is enough: a position that follows an instruction of the code lies inside
  the padded code.
\<close>

lemma next_instr_padded: "i < length code \<Longrightarrow> next_instr code i < length (pad_code code)"
  by (auto simp: next_instr_def immediate_size_traits)

lemma instr_start_padded: "instr_start code i \<Longrightarrow> i < length (pad_code code)"
  by (induction rule: starts_from.induct) (simp, simp only: next_instr_padded)

end
