(* ===== verification/Zvm_Advanced_Analysis.thy ===== *)
theory Zvm_Advanced_Analysis
  imports Zvm_Analysis
begin

text \<open>
  The code analysis of the Advanced interpreter (\<open>lib/zvmone/advanced_analysis.hpp\<close>,
  \<open>lib/zvmone/advanced_analysis.cpp\<close> and the tables of \<open>lib/zvmone/advanced_instructions.cpp\<close>):
  the code is translated to a list of instructions with arguments, grouped in basic blocks
  whose gas cost and stack requirements are summed up in advance.  The loop patches the
  summary of a block into an earlier instruction when the block ends; the specification
  \<open>spec_instrs\<close> is a translation without patching, which looks ahead instead.
\<close>

section \<open>Data\<close>

text \<open>The numeric conversions of \<open>clamp\<close> and of the jump tables.\<close>

definition int32 :: "int \<Rightarrow> int" where
  "int32 x = sint (word_of_int x :: 32 word)"

definition clamp_uint32 :: "int \<Rightarrow> int" where
  "clamp_uint32 x = (if x \<le> 2 ^ 32 - 1 then x mod 2 ^ 32 else 2 ^ 32 - 1)"

definition clamp_int16 :: "int \<Rightarrow> int" where
  "clamp_int16 x = (if x \<le> 2 ^ 15 - 1 then sint (word_of_int x :: 16 word) else 2 ^ 15 - 1)"

record BlockInfo =
  bi_gas_cost :: int
  bi_stack_req :: int
  bi_stack_max_growth :: int

record BlockAnalysis =
  ba_gas_cost :: int
  ba_stack_req :: int
  ba_stack_max_growth :: int
  ba_stack_change :: int
  begin_block_index :: nat

definition new_block :: "nat \<Rightarrow> BlockAnalysis" where
  "new_block i = \<lparr>ba_gas_cost = 0, ba_stack_req = 0, ba_stack_max_growth = 0,
     ba_stack_change = 0, begin_block_index = i\<rparr>"

definition close_block :: "BlockAnalysis \<Rightarrow> BlockInfo" where
  "close_block b = \<lparr>bi_gas_cost = clamp_uint32 (ba_gas_cost b),
     bi_stack_req = clamp_int16 (ba_stack_req b),
     bi_stack_max_growth = clamp_int16 (ba_stack_max_growth b)\<rparr>"

text \<open>
  The argument union: the constructor is the member that was written last.  A pointer to a
  large push value is its index in \<open>push_values\<close>.
\<close>

datatype InstructionArgument =
    Arg_number int | Arg_push_value nat | Arg_small_push_value uint64 | Arg_block BlockInfo

text \<open>The functions that execute an instruction; \<open>Op_impl op\<close> is \<open>op<instr::impl<op>>\<close>.\<close>

datatype exec_fn =
    Fn_null | Op_impl nat | Op_sstore | Opx_beginblock | Op_jump | Op_jumpi | Op_pc | Op_gas
  | Op_push_small | Op_push_full | Op_call nat | Op_create nat | Op_undefined

record Instruction =
  fn :: exec_fn
  arg :: InstructionArgument

definition mk_instr :: "exec_fn \<Rightarrow> Instruction" where
  "mk_instr f = \<lparr>fn = f,
     arg = Arg_block \<lparr>bi_gas_cost = 0, bi_stack_req = 0, bi_stack_max_growth = 0\<rparr>\<rparr>"

record AdvancedCodeAnalysis =
  instrs :: "Instruction list"
  push_values :: "uint256 list"
  jumpdest_offsets :: "int list"
  jumpdest_targets :: "int list"

section \<open>The instruction table\<close>

text \<open>The initialiser wraps every listed opcode, then overwrites some entries.\<close>

definition generic_implementations :: "(nat \<times> exec_fn) list" where
  "generic_implementations =
     map (\<lambda>(op, i). (op, Op_impl op)) (filter (\<lambda>(op, i). i \<noteq> None) MAP_OPCODES)"

definition advanced_implementations :: "(nat \<times> exec_fn) list" where
  "advanced_implementations =
     [(OP_SSTORE, Op_sstore), (OP_JUMP, Op_jump), (OP_JUMPI, Op_jumpi), (OP_PC, Op_pc),
      (OP_GAS, Op_gas), (OP_JUMPDEST, Opx_beginblock)] @
     map (\<lambda>op. (op, Op_push_small)) [OP_PUSH1..<OP_PUSH8 + 1] @
     map (\<lambda>op. (op, Op_push_full)) [OP_PUSH9..<OP_PUSH32 + 1] @
     [(OP_CREATE, Op_create OP_CREATE), (OP_CALL, Op_call OP_CALL),
      (OP_DELEGATECALL, Op_call OP_DELEGATECALL), (OP_CREATE2, Op_create OP_CREATE2),
      (OP_STATICCALL, Op_call OP_STATICCALL)]"

definition instruction_implementations :: "exec_fn list" where
  "instruction_implementations =
     assign (generic_implementations @ advanced_implementations) (replicate 256 Fn_null)"

record OpTableEntry =
  op_fn :: exec_fn
  op_gas_cost :: int
  op_stack_req :: int
  op_stack_change :: int

definition op_table_entry :: "revision \<Rightarrow> nat \<Rightarrow> OpTableEntry" where
  "op_table_entry r i =
     (let gas_cost = gas_costs r ! i in
      if gas_cost = undefined_cost
      then \<lparr>op_fn = Op_undefined, op_gas_cost = 0, op_stack_req = 0, op_stack_change = 0\<rparr>
      else \<lparr>op_fn = instruction_implementations ! i, op_gas_cost = gas_cost,
            op_stack_req = stack_height_required (traits ! i),
            op_stack_change = stack_height_change (traits ! i)\<rparr>)"

definition get_op_table :: "revision \<Rightarrow> OpTableEntry list" where
  "get_op_table r = map (op_table_entry r) [0..<256]"

section \<open>The analysis loop\<close>

definition ANY_SMALL_PUSH :: "nat \<Rightarrow> bool" where
  "ANY_SMALL_PUSH op \<longleftrightarrow> OP_PUSH1 \<le> op \<and> op \<le> OP_PUSH8"

definition ANY_LARGE_PUSH :: "nat \<Rightarrow> bool" where
  "ANY_LARGE_PUSH op \<longleftrightarrow> OP_PUSH9 \<le> op \<and> op \<le> OP_PUSH32"

text \<open>The loop that skips instructions which cannot be reached, up to the next \<open>JUMPDEST\<close>.\<close>

function skip_dead :: "bytes \<Rightarrow> nat \<Rightarrow> nat" where
  "skip_dead code p =
     (if p < length code \<and> unat (code ! p) \<noteq> OP_JUMPDEST
      then skip_dead code
        (if OP_PUSH1 \<le> unat (code ! p) \<and> unat (code ! p) \<le> OP_PUSH32
         then min (p + (unat (code ! p) - OP_PUSH1 + 1) + 1) (length code) else p + 1)
      else p)"
  by auto
termination
  by (relation "measure (\<lambda>(code, p). length code - p)") auto

declare skip_dead.simps [simp del]

text \<open>
  The loops that collect the immediate bytes: shifted into a 64-bit value, or stored as
  bytes of a 256-bit value from the most significant one down.  Behind the last byte the
  bit position and the byte position are not used any more.
\<close>

function small_push_loop :: "bytes \<Rightarrow> nat \<Rightarrow> nat \<Rightarrow> uint64 \<Rightarrow> nat \<Rightarrow> uint64 \<times> nat" where
  "small_push_loop code p push_end v insert_bit_pos =
     (if p < push_end
      then small_push_loop code (p + 1) push_end
        (v OR push_bit insert_bit_pos (ucast (code ! p))) (insert_bit_pos - 8)
      else (v, p))"
  by auto
termination
  by (relation "measure (\<lambda>(code, p, e, v, i). e - p)") auto

declare small_push_loop.simps [simp del]

definition set_byte :: "uint256 \<Rightarrow> nat \<Rightarrow> byte \<Rightarrow> uint256" where
  "set_byte v i b = (v AND NOT (push_bit (8 * i) (ucast (- 1 :: byte)))) OR push_bit (8 * i) (ucast b)"

function large_push_loop :: "bytes \<Rightarrow> nat \<Rightarrow> nat \<Rightarrow> uint256 \<Rightarrow> nat \<Rightarrow> uint256 \<times> nat" where
  "large_push_loop code p push_end v insert_pos =
     (if p < push_end \<and> p < length code
      then large_push_loop code (p + 1) push_end (set_byte v insert_pos (code ! p)) (insert_pos - 1)
      else (v, p))"
  by auto
termination
  by (relation "measure (\<lambda>(code, p, e, v, i). e - p)") auto

declare large_push_loop.simps [simp del]

text \<open>Operations on the analysis under construction.\<close>

definition set_arg :: "nat \<Rightarrow> InstructionArgument \<Rightarrow> AdvancedCodeAnalysis \<Rightarrow> AdvancedCodeAnalysis" where
  "set_arg i x a = a\<lparr>instrs := (instrs a)[i := (instrs a ! i)\<lparr>arg := x\<rparr>]\<rparr>"

definition set_back_arg :: "InstructionArgument \<Rightarrow> AdvancedCodeAnalysis \<Rightarrow> AdvancedCodeAnalysis" where
  "set_back_arg x a = set_arg (length (instrs a) - 1) x a"

definition save_block :: "BlockAnalysis \<Rightarrow> AdvancedCodeAnalysis \<Rightarrow> AdvancedCodeAnalysis" where
  "save_block b a = set_arg (begin_block_index b) (Arg_block (close_block b)) a"

definition emplace_instr :: "exec_fn \<Rightarrow> AdvancedCodeAnalysis \<Rightarrow> AdvancedCodeAnalysis" where
  "emplace_instr f a = a\<lparr>instrs := instrs a @ [mk_instr f]\<rparr>"

definition add_jumpdest :: "nat \<Rightarrow> AdvancedCodeAnalysis \<Rightarrow> AdvancedCodeAnalysis" where
  "add_jumpdest p a = a\<lparr>jumpdest_offsets := jumpdest_offsets a @ [int32 (int p)],
     jumpdest_targets := jumpdest_targets a @ [int32 (int (length (instrs a)))]\<rparr>"

definition add_op :: "OpTableEntry \<Rightarrow> BlockAnalysis \<Rightarrow> BlockAnalysis" where
  "add_op e b =
     (let b = b\<lparr>ba_stack_req := max (ba_stack_req b) (op_stack_req e - ba_stack_change b)\<rparr>;
          b = b\<lparr>ba_stack_change := ba_stack_change b + op_stack_change e\<rparr>;
          b = b\<lparr>ba_stack_max_growth := max (ba_stack_max_growth b) (ba_stack_change b)\<rparr>
      in b\<lparr>ba_gas_cost := ba_gas_cost b + op_gas_cost e\<rparr>)"

type_synonym analysis_state = "AdvancedCodeAnalysis \<times> BlockAnalysis \<times> nat"

text \<open>The \<open>switch\<close> on the opcode; \<open>p\<close> is the position behind the opcode.\<close>

definition analyze_switch :: "bytes \<Rightarrow> nat \<Rightarrow> analysis_state \<Rightarrow> analysis_state" where
  "analyze_switch code opcode s = (case s of (a, b, p) \<Rightarrow>
     if opcode \<in> {OP_JUMP, OP_STOP, OP_RETURN, OP_REVERT} then (a, b, skip_dead code p)
     else if opcode = OP_JUMPI
     then let a = save_block b a in (a, new_block (length (instrs a) - 1), p)
     else if ANY_SMALL_PUSH opcode
     then let push_size = opcode - OP_PUSH1 + 1;
              push_end = min (p + push_size) (length code);
              (v, p) = small_push_loop code p push_end 0 ((push_size - 1) * 8)
          in (set_back_arg (Arg_small_push_value v) a, b, p)
     else if ANY_LARGE_PUSH opcode
     then let push_size = opcode - OP_PUSH1 + 1;
              push_end = p + push_size;
              (v, p) = large_push_loop code p push_end 0 (push_size - 1);
              a = a\<lparr>push_values := push_values a @ [v]\<rparr>
          in (set_back_arg (Arg_push_value (length (push_values a) - 1)) a, b, p)
     else if opcode \<in> {OP_GAS, OP_CALL, OP_DELEGATECALL, OP_STATICCALL, OP_CREATE, OP_CREATE2, OP_SSTORE}
     then (set_back_arg (Arg_number (ba_gas_cost b)) a, b, p)
     else if opcode = OP_PC then (set_back_arg (Arg_number (int (p - 1))) a, b, p)
     else (a, b, p))"

text \<open>One iteration of the main loop.\<close>

definition analyze_step :: "revision \<Rightarrow> bytes \<Rightarrow> analysis_state \<Rightarrow> analysis_state" where
  "analyze_step r code s = (case s of (a, b, p) \<Rightarrow>
     let opcode = unat (code ! p);
         p = p + 1;
         opcode_info = get_op_table r ! opcode;
         (a, b) = (if opcode = OP_JUMPDEST
                   then let a = save_block b a; b = new_block (length (instrs a))
                        in (add_jumpdest (p - 1) a, b)
                   else (a, b));
         a = emplace_instr (op_fn opcode_info) a;
         b = add_op opcode_info b
     in analyze_switch code opcode (a, b, p))"

text \<open>The position never passes the end of the code, so \<open>!=\<close> is \<open><\<close> in the loop condition.\<close>

lemma skip_dead_ge: "p \<le> skip_dead code p"
proof (induction code p rule: skip_dead.induct)
  case (1 code p)
  then show ?case by (subst skip_dead.simps) (auto split: if_splits)
qed

lemma small_push_loop_pos: "snd (small_push_loop code p e v i) = max p e"
proof (induction code p e v i rule: small_push_loop.induct)
  case (1 code p e v i)
  then show ?case by (subst small_push_loop.simps) auto
qed

lemma large_push_loop_pos:
  "snd (large_push_loop code p e v i) = max p (min e (length code))"
proof (induction code p e v i rule: large_push_loop.induct)
  case (1 code p e v i)
  then show ?case by (subst large_push_loop.simps) auto
qed

lemma analyze_switch_pos: "p \<le> snd (snd (analyze_switch code opcode (a, b, p)))"
  by (simp add: analyze_switch_def Let_def split_def skip_dead_ge small_push_loop_pos
      large_push_loop_pos)

lemma analyze_step_pos: "p < snd (snd (analyze_step r code (a, b, p)))"
  using analyze_switch_pos [of "p + 1"]
  by (auto simp: analyze_step_def Let_def less_eq_Suc_le)

function analyze_loop :: "revision \<Rightarrow> bytes \<Rightarrow> analysis_state \<Rightarrow> analysis_state" where
  "analyze_loop r code s =
     (if snd (snd s) < length code then analyze_loop r code (analyze_step r code s) else s)"
  by auto
termination
  by (relation "measure (\<lambda>(r, code, s). length code - snd (snd s))")
     (auto intro!: diff_less_mono2 analyze_step_pos)

declare analyze_loop.simps [simp del]

text \<open>
  \<open>analyze\<close>.  The storage of both vectors is reserved in advance; the assertions at the end
  are about that reservation.
\<close>

definition adv_analyze :: "revision \<Rightarrow> bytes \<Rightarrow> AdvancedCodeAnalysis option" where
  "adv_analyze r code = (
     let op_tbl = get_op_table r;
         a = \<lparr>instrs = [], push_values = [], jumpdest_offsets = [], jumpdest_targets = []\<rparr>;
         a = emplace_instr (op_fn (op_tbl ! OP_JUMPDEST)) a;
         (a, b, p) = analyze_loop r code (a, new_block 0, 0);
         a = save_block b a;
         a = emplace_instr (op_fn (op_tbl ! OP_STOP)) a
     in if length (instrs a) \<le> length code + 2 \<and> length (push_values a) \<le> length code + 1
        then Some a else None)"

text \<open>\<open>find_jumpdest\<close> with \<open>std::lower_bound\<close>, the binary search of the standard library.\<close>

function lower_bound :: "int list \<Rightarrow> int \<Rightarrow> nat \<Rightarrow> nat \<Rightarrow> nat" where
  "lower_bound xs v first len =
     (if 0 < len
      then let half = len div 2; middle = first + half in
        if xs ! middle < v then lower_bound xs v (middle + 1) (len - half - 1)
        else lower_bound xs v first half
      else first)"
  by auto
termination
  by (relation "measure (\<lambda>(xs, v, first, len). len)") auto

declare lower_bound.simps [simp del]

definition find_jumpdest :: "AdvancedCodeAnalysis \<Rightarrow> int \<Rightarrow> int" where
  "find_jumpdest a offset =
     (let n = length (jumpdest_offsets a); it = lower_bound (jumpdest_offsets a) offset 0 n
      in if it \<noteq> n \<and> jumpdest_offsets a ! it = offset then jumpdest_targets a ! it else - 1)"

section \<open>The values of push instructions\<close>

lemma padded_slice_nth:
  "i < n \<Longrightarrow> padded_slice buf s n ! i = (if s + i < length buf then buf ! (s + i) else 0)"
  by (auto simp: padded_slice_def nth_append)

lemma bit_byte_iff: "bit (b :: byte) (k - 8 * m) \<and> 8 * m \<le> k \<longleftrightarrow> k div 8 = m \<and> bit b (k mod 8)"
proof (cases "8 * m \<le> k \<and> k - 8 * m < 8")
  case True
  then obtain i where i: "k = 8 * m + i" "i < 8" by (metis le_add_diff_inverse)
  then show ?thesis by simp
next
  case False
  then have "\<not> (bit b (k - 8 * m) \<and> 8 * m \<le> k)" by (auto dest: bit_imp_le_length)
  moreover have "k div 8 \<noteq> m" using False by auto
  ultimately show ?thesis by blast
qed

lemma bit_or_byte:
  "bit (v OR push_bit (8 * m) (ucast (b :: byte)) :: uint64) k \<longleftrightarrow>
     bit v k \<or> k < 64 \<and> k div 8 = m \<and> bit b (k mod 8)"
  using bit_byte_iff [of b k m] by (auto simp: bit_simps dest: bit_imp_le_length)

lemma bit_set_byte:
  "bit (set_byte v m b) k \<longleftrightarrow> k < 256 \<and> (if k div 8 = m then bit b (k mod 8) else bit v k)"
  using bit_byte_iff [of b k m] bit_byte_iff [of "- 1" k m]
  by (auto simp: set_byte_def bit_simps dest: bit_imp_le_length)

text \<open>The byte of the code that holds bit \<open>k\<close> of an \<open>n\<close>-byte immediate value at \<open>p0\<close>.\<close>

definition imm_pos :: "nat \<Rightarrow> nat \<Rightarrow> nat \<Rightarrow> nat" where
  "imm_pos p0 n k = p0 + (n - 1 - k div 8)"

lemma small_push_loop_bits:
  assumes "p0 + j = p" and "e \<le> p0 + n" and "i = (n - 1 - j) * 8"
  shows "bit (fst (small_push_loop code p e v i)) k \<longleftrightarrow> bit v k \<or>
    k < 64 \<and> k div 8 < n \<and> p \<le> imm_pos p0 n k \<and> imm_pos p0 n k < e \<and>
    bit (code ! imm_pos p0 n k) (k mod 8)"
  using assms
proof (induction code p e v i arbitrary: j rule: small_push_loop.induct)
  case (1 code p e v i)
  show ?case
  proof (cases "p < e")
    case False
    then show ?thesis by (subst small_push_loop.simps) auto
  next
    case True
    have j: "j < n" using True 1(2,3) by simp
    have m: "i = 8 * (n - 1 - j)" "(n - 1 - (j + 1)) * 8 = i - 8" using 1(4) by simp_all
    have pos: "k div 8 < n \<Longrightarrow> imm_pos p0 n k = p \<longleftrightarrow> k div 8 = n - 1 - j"
      using j 1(2) by (auto simp: imm_pos_def)
    have "bit (fst (small_push_loop code p e v i)) k =
        bit (fst (small_push_loop code (p + 1) e (v OR push_bit i (ucast (code ! p))) (i - 8))) k"
      using True by (subst small_push_loop.simps) simp
    also have "\<dots> \<longleftrightarrow> bit (v OR push_bit i (ucast (code ! p)) :: uint64) k \<or>
        k < 64 \<and> k div 8 < n \<and> p + 1 \<le> imm_pos p0 n k \<and> imm_pos p0 n k < e \<and>
        bit (code ! imm_pos p0 n k) (k mod 8)"
      using 1(1) [OF True, of "j + 1"] 1(2,3) m(2) by simp
    also have "\<dots> \<longleftrightarrow> bit v k \<or>
        k < 64 \<and> k div 8 < n \<and> p \<le> imm_pos p0 n k \<and> imm_pos p0 n k < e \<and>
        bit (code ! imm_pos p0 n k) (k mod 8)"
      using pos j True unfolding m(1) bit_or_byte by (auto simp: le_less Suc_le_eq)
    finally show ?thesis .
  qed
qed

lemma large_push_loop_bits:
  assumes "p0 + j = p" and "e = p0 + n" and "i = n - 1 - j" and "n \<le> 32"
  shows "bit (fst (large_push_loop code p e v i)) k \<longleftrightarrow> k < 256 \<and>
    (if k div 8 < n \<and> p \<le> imm_pos p0 n k \<and> imm_pos p0 n k < min e (length code)
     then bit (code ! imm_pos p0 n k) (k mod 8) else bit v k)"
  using assms
proof (induction code p e v i arbitrary: j rule: large_push_loop.induct)
  case (1 code p e v i)
  show ?case
  proof (cases "p < e \<and> p < length code")
    case False
    then show ?thesis by (subst large_push_loop.simps) (auto dest: bit_imp_le_length)
  next
    case True
    have j: "j < n" using True 1(2,3) by simp
    have m: "n - 1 - (j + 1) = i - 1" using 1(4) by simp
    have pos: "k div 8 < n \<Longrightarrow> imm_pos p0 n k = p \<longleftrightarrow> k div 8 = n - 1 - j"
      using j 1(2) by (auto simp: imm_pos_def)
    have "bit (fst (large_push_loop code p e v i)) k =
        bit (fst (large_push_loop code (p + 1) e (set_byte v i (code ! p)) (i - 1))) k"
      using True by (subst large_push_loop.simps) simp
    also have "\<dots> \<longleftrightarrow> k < 256 \<and>
        (if k div 8 < n \<and> p + 1 \<le> imm_pos p0 n k \<and> imm_pos p0 n k < min e (length code)
         then bit (code ! imm_pos p0 n k) (k mod 8) else bit (set_byte v i (code ! p)) k)"
      using 1(1) [OF True, of "j + 1"] 1(2,3,5) m by simp
    also have "\<dots> \<longleftrightarrow> k < 256 \<and>
        (if k div 8 < n \<and> p \<le> imm_pos p0 n k \<and> imm_pos p0 n k < min e (length code)
         then bit (code ! imm_pos p0 n k) (k mod 8) else bit v k)"
      using pos j True unfolding 1(4) bit_set_byte by (auto simp: le_less Suc_le_eq)
    finally show ?thesis .
  qed
qed

lemma bit_imm:
  "bit (be_load (padded_slice code p n) :: 'a::len word) k \<longleftrightarrow>
     k < LENGTH('a) \<and> k div 8 < n \<and> imm_pos p n k < length code \<and>
     bit (code ! imm_pos p n k) (k mod 8)"
  by (auto simp: bit_be_load imm_pos_def padded_slice_nth split: if_splits)

text \<open>
  Both loops read the immediate bytes as a big-endian number, zeros behind the end of the
  code: the value the Baseline interpreter reads from the padded code.
\<close>

lemma small_push_loop_value:
  assumes "0 < n"
  shows "small_push_loop code p (min (p + n) (length code)) 0 ((n - 1) * 8) =
    (be_load (padded_slice code p n), max p (min (p + n) (length code)))"
proof -
  have "fst (small_push_loop code p (min (p + n) (length code)) 0 ((n - 1) * 8)) =
      be_load (padded_slice code p n)"
  proof (rule bit_word_eqI)
    fix k :: nat assume "k < LENGTH(64)"
    then show "bit (fst (small_push_loop code p (min (p + n) (length code)) 0 ((n - 1) * 8))) k =
        bit (be_load (padded_slice code p n) :: uint64) k"
      using assms small_push_loop_bits [of p 0 p "min (p + n) (length code)" n "(n - 1) * 8" code 0 k]
      by (auto simp: bit_imm imm_pos_def)
  qed
  then show ?thesis
    using small_push_loop_pos [of code p "min (p + n) (length code)" 0 "(n - 1) * 8"]
    by (metis prod.collapse)
qed

lemma large_push_loop_value:
  assumes "0 < n" "n \<le> 32"
  shows "large_push_loop code p (p + n) 0 (n - 1) =
    (be_load (padded_slice code p n), max p (min (p + n) (length code)))"
proof -
  have "fst (large_push_loop code p (p + n) 0 (n - 1)) = be_load (padded_slice code p n)"
  proof (rule bit_word_eqI)
    fix k :: nat assume "k < LENGTH(256)"
    then show "bit (fst (large_push_loop code p (p + n) 0 (n - 1))) k =
        bit (be_load (padded_slice code p n) :: uint256) k"
      using assms large_push_loop_bits [of p 0 p "p + n" n "n - 1" code 0 k]
      by (auto simp: bit_imm imm_pos_def)
  qed
  then show ?thesis
    using large_push_loop_pos [of code p "p + n" 0 "n - 1"] by (metis prod.collapse)
qed

section \<open>The translation without patching\<close>

abbreviation opcode_at :: "bytes \<Rightarrow> nat \<Rightarrow> nat" where
  "opcode_at code p \<equiv> unat (code ! p)"

abbreviation cuts_off :: "nat \<Rightarrow> bool" where
  "cuts_off op \<equiv> op \<in> {OP_JUMP, OP_STOP, OP_RETURN, OP_REVERT}"

lemma opcode_less: "opcode_at code p < 256"
  using unsigned_less [of "code ! p"] by simp

lemma get_op_table_nth: "op < 256 \<Longrightarrow> get_op_table r ! op = op_table_entry r op"
  by (simp add: get_op_table_def)

text \<open>The position of the instruction that is translated after the one at \<open>p\<close>.\<close>

definition adv_next :: "bytes \<Rightarrow> nat \<Rightarrow> nat" where
  "adv_next code p = (if cuts_off (opcode_at code p) then skip_dead code (p + 1)
     else min (next_instr code p) (length code))"

lemma adv_next_greater: "p < length code \<Longrightarrow> p < adv_next code p"
  using skip_dead_ge [of "p + 1" code] next_instr_greater [of p code] by (auto simp: adv_next_def)

text \<open>The block at its end, when the instructions from \<open>p\<close> on are still to be added.\<close>

function final_block :: "revision \<Rightarrow> bytes \<Rightarrow> nat \<Rightarrow> BlockAnalysis \<Rightarrow> BlockAnalysis" where
  "final_block r code p b =
     (if p < length code \<and> opcode_at code p \<noteq> OP_JUMPDEST
      then let b = add_op (op_table_entry r (opcode_at code p)) b in
        if opcode_at code p = OP_JUMPI then b else final_block r code (adv_next code p) b
      else b)"
  by auto
termination
  by (relation "measure (\<lambda>(r, code, p, b). length code - p)") (auto intro: diff_less_mono2 adv_next_greater)

declare final_block.simps [simp del]

text \<open>
  The summary that the block starting at \<open>p\<close> gets: behind a \<open>JUMPI\<close> or at the start of the
  code, and at a \<open>JUMPDEST\<close>, which is part of its block.
\<close>

definition block_info :: "revision \<Rightarrow> bytes \<Rightarrow> nat \<Rightarrow> BlockInfo" where
  "block_info r code p = close_block (final_block r code p (new_block 0))"

definition jumpdest_info :: "revision \<Rightarrow> bytes \<Rightarrow> nat \<Rightarrow> BlockInfo" where
  "jumpdest_info r code p =
     close_block (final_block r code (p + 1) (add_op (op_table_entry r OP_JUMPDEST) (new_block 0)))"

text \<open>The immediate value of the push instruction at \<open>p\<close>.\<close>

definition push_imm :: "bytes \<Rightarrow> nat \<Rightarrow> 'a::len word" where
  "push_imm code p = be_load (padded_slice code (p + 1) (opcode_at code p - OP_PUSH1 + 1))"

text \<open>
  The argument of the instruction at \<open>p\<close>; \<open>c\<close> is the gas cost of its block up to and
  including it and \<open>n\<close> the number of large push values before it.
\<close>

definition spec_arg :: "revision \<Rightarrow> bytes \<Rightarrow> nat \<Rightarrow> int \<Rightarrow> nat \<Rightarrow> InstructionArgument" where
  "spec_arg r code p c n =
     (let op = opcode_at code p in
      if op = OP_JUMPDEST then Arg_block (jumpdest_info r code p)
      else if op = OP_JUMPI then Arg_block (block_info r code (p + 1))
      else if ANY_SMALL_PUSH op then Arg_small_push_value (push_imm code p)
      else if ANY_LARGE_PUSH op then Arg_push_value n
      else if op \<in> {OP_GAS, OP_CALL, OP_DELEGATECALL, OP_STATICCALL, OP_CREATE, OP_CREATE2, OP_SSTORE}
      then Arg_number c
      else if op = OP_PC then Arg_number (int p)
      else arg (mk_instr Fn_null))"

definition spec_instr :: "revision \<Rightarrow> bytes \<Rightarrow> nat \<Rightarrow> int \<Rightarrow> nat \<Rightarrow> Instruction" where
  "spec_instr r code p c n =
     \<lparr>fn = op_fn (op_table_entry r (opcode_at code p)), arg = spec_arg r code p c n\<rparr>"

definition cost_upto :: "revision \<Rightarrow> bytes \<Rightarrow> nat \<Rightarrow> int \<Rightarrow> int" where
  "cost_upto r code p c = (if opcode_at code p = OP_JUMPDEST then 0 else c)
     + op_gas_cost (op_table_entry r (opcode_at code p))"

definition cost_next :: "revision \<Rightarrow> bytes \<Rightarrow> nat \<Rightarrow> int \<Rightarrow> int" where
  "cost_next r code p c = (if opcode_at code p = OP_JUMPI then 0 else cost_upto r code p c)"

definition large_values :: "bytes \<Rightarrow> nat \<Rightarrow> uint256 list" where
  "large_values code p = (if ANY_LARGE_PUSH (opcode_at code p) then [push_imm code p] else [])"

function spec_instrs :: "revision \<Rightarrow> bytes \<Rightarrow> nat \<Rightarrow> int \<Rightarrow> nat \<Rightarrow> Instruction list" where
  "spec_instrs r code p c n =
     (if p < length code
      then spec_instr r code p (cost_upto r code p c) n #
        spec_instrs r code (adv_next code p) (cost_next r code p c) (n + length (large_values code p))
      else [])"
  by auto
termination
  by (relation "measure (\<lambda>(r, code, p, c, n). length code - p)") (auto intro: diff_less_mono2 adv_next_greater)

function spec_values :: "bytes \<Rightarrow> nat \<Rightarrow> uint256 list" where
  "spec_values code p =
     (if p < length code then large_values code p @ spec_values code (adv_next code p) else [])"
  by auto
termination
  by (relation "measure (\<lambda>(code, p). length code - p)") (auto intro: diff_less_mono2 adv_next_greater)

text \<open>The positions of the translated instructions, and the jump table entries.\<close>

function spec_positions :: "bytes \<Rightarrow> nat \<Rightarrow> nat list" where
  "spec_positions code p =
     (if p < length code then p # spec_positions code (adv_next code p) else [])"
  by auto
termination
  by (relation "measure (\<lambda>(code, p). length code - p)") (auto intro: diff_less_mono2 adv_next_greater)

declare spec_instrs.simps [simp del] spec_values.simps [simp del] spec_positions.simps [simp del]

definition jumpdests :: "bytes \<Rightarrow> nat \<Rightarrow> nat \<Rightarrow> (nat \<times> nat) list" where
  "jumpdests code p k =
     filter (\<lambda>(q, i). opcode_at code q = OP_JUMPDEST)
       (zip (spec_positions code p) [k..<k + length (spec_positions code p)])"

lemma jumpdests_unfold:
  "jumpdests code p k = (if p < length code
     then (if opcode_at code p = OP_JUMPDEST then [(p, k)] else []) @ jumpdests code (adv_next code p) (k + 1)
     else [])"
proof (cases "p < length code")
  case True
  have "[k..<k + Suc n] = k # [k + 1..<k + 1 + n]" for n
    by (simp add: upt_conv_Cons del: upt_Suc)
  then show ?thesis using True
    by (simp add: jumpdests_def spec_positions.simps [of code p] del: upt_Suc)
qed (simp add: jumpdests_def spec_positions.simps [of code p])

text \<open>The index of the instruction that holds the block is irrelevant for the block's summary.\<close>

lemma final_block_index:
  "final_block r code p (b\<lparr>begin_block_index := i\<rparr>) = (final_block r code p b)\<lparr>begin_block_index := i\<rparr>"
proof (induction r code p b rule: final_block.induct)
  case (1 r code p b)
  have "add_op e (b\<lparr>begin_block_index := i\<rparr>) = (add_op e b)\<lparr>begin_block_index := i\<rparr>" for e
    by (simp add: add_op_def Let_def)
  then show ?case using 1
    by (subst (1 2) final_block.simps) (auto simp: Let_def)
qed

lemma new_block_index: "new_block i = (new_block 0)\<lparr>begin_block_index := i\<rparr>"
  by (simp add: new_block_def)

lemma add_op_index: "add_op e (b\<lparr>begin_block_index := i\<rparr>) = (add_op e b)\<lparr>begin_block_index := i\<rparr>"
  by (simp add: add_op_def Let_def)

lemma close_block_index [simp]: "close_block (b\<lparr>begin_block_index := i\<rparr>) = close_block b"
  by (simp add: close_block_def)

lemma block_info_eq: "close_block (final_block r code p (new_block i)) = block_info r code p"
  unfolding block_info_def by (subst new_block_index) (simp add: final_block_index)

lemma jumpdest_info_eq:
  "close_block (final_block r code (p + 1) (add_op (op_table_entry r OP_JUMPDEST) (new_block i)))
     = jumpdest_info r code p"
  unfolding jumpdest_info_def by (subst new_block_index) (simp add: add_op_index final_block_index)

section \<open>The loop computes the translation\<close>

lemma adv_next_plain:
  "\<not> cuts_off (opcode_at code p) \<Longrightarrow> p < length code \<Longrightarrow> opcode_at code p < OP_PUSH1 \<or> OP_PUSH32 < opcode_at code p
   \<Longrightarrow> adv_next code p = p + 1"
  by (auto simp: adv_next_def next_instr_def immediate_size_traits)

lemma adv_next_push:
  "OP_PUSH1 \<le> opcode_at code p \<Longrightarrow> opcode_at code p \<le> OP_PUSH32 \<Longrightarrow> p < length code \<Longrightarrow>
   adv_next code p = max (p + 1) (min (p + 1 + (opcode_at code p - OP_PUSH1 + 1)) (length code))"
  by (auto simp: adv_next_def next_instr_def immediate_size_traits)

text \<open>The cases of the \<open>switch\<close>.\<close>

lemma analyze_switch_cuts: "cuts_off op \<Longrightarrow> analyze_switch code op (a, b, p) = (a, b, skip_dead code p)"
  by (simp add: analyze_switch_def)

lemma analyze_switch_small:
  assumes "OP_PUSH1 \<le> op" "op \<le> OP_PUSH8"
  shows "analyze_switch code op (a, b, p) =
    (set_back_arg (Arg_small_push_value (be_load (padded_slice code p (op - OP_PUSH1 + 1)))) a, b,
     max p (min (p + (op - OP_PUSH1 + 1)) (length code)))"
  using assms small_push_loop_value [of "op - OP_PUSH1 + 1" code p]
  by (simp add: analyze_switch_def ANY_SMALL_PUSH_def Let_def)

lemma analyze_switch_large:
  assumes "OP_PUSH9 \<le> op" "op \<le> OP_PUSH32"
  shows "analyze_switch code op (a, b, p) =
    (set_back_arg (Arg_push_value (length (push_values a)))
       (a\<lparr>push_values := push_values a @ [be_load (padded_slice code p (op - OP_PUSH1 + 1))]\<rparr>), b,
     max p (min (p + (op - OP_PUSH1 + 1)) (length code)))"
  using assms large_push_loop_value [of "op - OP_PUSH1 + 1" code p]
  by (simp add: analyze_switch_def ANY_SMALL_PUSH_def ANY_LARGE_PUSH_def Let_def)

lemma analyze_switch_other:
  assumes "\<not> cuts_off op" "op \<noteq> OP_JUMPI" "\<not> ANY_SMALL_PUSH op" "\<not> ANY_LARGE_PUSH op"
  shows "analyze_switch code op (a, b, p) =
    (if op \<in> {OP_GAS, OP_CALL, OP_DELEGATECALL, OP_STATICCALL, OP_CREATE, OP_CREATE2, OP_SSTORE}
     then set_back_arg (Arg_number (ba_gas_cost b)) a
     else if op = OP_PC then set_back_arg (Arg_number (int (p - 1))) a else a, b, p)"
  using assms by (simp add: analyze_switch_def)

lemma set_back_arg_emplace:
  "set_back_arg x (emplace_instr f a) = a\<lparr>instrs := instrs a @ [\<lparr>fn = f, arg = x\<rparr>]\<rparr>"
  "set_back_arg x ((emplace_instr f a)\<lparr>push_values := v\<rparr>) =
     a\<lparr>instrs := instrs a @ [\<lparr>fn = f, arg = x\<rparr>], push_values := v\<rparr>"
  by (simp_all add: set_back_arg_def set_arg_def emplace_instr_def mk_instr_def)

lemma analyze_step_eq:
  "opcode_at code p \<noteq> OP_JUMPDEST \<Longrightarrow> analyze_step r code (a, b, p) =
     analyze_switch code (opcode_at code p)
       (emplace_instr (op_fn (op_table_entry r (opcode_at code p))) a,
        add_op (op_table_entry r (opcode_at code p)) b, p + 1)"
  by (simp add: analyze_step_def Let_def get_op_table_nth opcode_less)

lemma ba_gas_cost_add_op [simp]: "ba_gas_cost (add_op e b) = ba_gas_cost b + op_gas_cost e"
  by (simp add: add_op_def Let_def)

lemma begin_block_add_op [simp]: "begin_block_index (add_op e b) = begin_block_index b"
  by (simp add: add_op_def Let_def)

text \<open>One iteration at an instruction that does not start or end a block by itself.\<close>

lemma analyze_step_plain:
  assumes p: "p < length code" and op: "opcode_at code p \<noteq> OP_JUMPDEST" "opcode_at code p \<noteq> OP_JUMPI"
  shows "analyze_step r code (a, b, p) =
    (a\<lparr>instrs := instrs a @ [spec_instr r code p (ba_gas_cost b + op_gas_cost (op_table_entry r (opcode_at code p)))
         (length (push_values a))],
       push_values := push_values a @ large_values code p\<rparr>,
     add_op (op_table_entry r (opcode_at code p)) b, adv_next code p)"
  (is "?lhs = (?a, ?b, ?p)")
proof -
  define op where "op = opcode_at code p"
  note eq = analyze_step_eq [OF op(1), of r a b, folded op_def]
  note defs = spec_instr_def spec_arg_def large_values_def push_imm_def ANY_SMALL_PUSH_def
    ANY_LARGE_PUSH_def op_def [symmetric] Let_def
  consider "cuts_off op" | "ANY_SMALL_PUSH op" | "ANY_LARGE_PUSH op"
    | "\<not> cuts_off op" "\<not> ANY_SMALL_PUSH op" "\<not> ANY_LARGE_PUSH op" by blast
  then show ?thesis
  proof cases
    case 1
    then have "adv_next code p = skip_dead code (p + 1)" by (simp add: adv_next_def op_def)
    moreover have "\<not> ANY_SMALL_PUSH op" "\<not> ANY_LARGE_PUSH op"
      using 1 by (auto simp: ANY_SMALL_PUSH_def ANY_LARGE_PUSH_def)
    moreover have "spec_arg r code p c n = arg (mk_instr Fn_null)" for c n
      using 1 by (auto simp: defs)
    ultimately show ?thesis
      unfolding eq analyze_switch_cuts [OF 1] op_def [symmetric]
      by (simp add: spec_instr_def large_values_def emplace_instr_def mk_instr_def op_def)
  next
    case 2
    then have r: "OP_PUSH1 \<le> op" "op \<le> OP_PUSH8" by (simp_all add: ANY_SMALL_PUSH_def)
    have n: "adv_next code p = max (p + 1) (min (p + 1 + (op - OP_PUSH1 + 1)) (length code))"
      unfolding op_def using r p by (intro adv_next_push) (simp_all add: op_def)
    show ?thesis
      unfolding eq analyze_switch_small [OF r] n set_back_arg_emplace op_def [symmetric]
      using r by (simp add: defs)
  next
    case 3
    then have r: "OP_PUSH9 \<le> op" "op \<le> OP_PUSH32" by (simp_all add: ANY_LARGE_PUSH_def)
    have n: "adv_next code p = max (p + 1) (min (p + 1 + (op - OP_PUSH1 + 1)) (length code))"
      unfolding op_def using r p by (intro adv_next_push) (simp_all add: op_def)
    have pv: "push_values (emplace_instr f a) = push_values a" for f by (simp add: emplace_instr_def)
    show ?thesis
      unfolding eq analyze_switch_large [OF r] n set_back_arg_emplace op_def [symmetric] pv
      using r by (simp add: defs)
  next
    case 4
    then have n: "adv_next code p = p + 1"
      using p by (intro adv_next_plain) (auto simp: ANY_SMALL_PUSH_def ANY_LARGE_PUSH_def op_def)
    have sa: "spec_arg r code p c n =
      (if op \<in> {OP_GAS, OP_CALL, OP_DELEGATECALL, OP_STATICCALL, OP_CREATE, OP_CREATE2, OP_SSTORE}
       then Arg_number c else if op = OP_PC then Arg_number (int p) else arg (mk_instr Fn_null))" for c n
      using 4 op unfolding op_def [symmetric] spec_arg_def Let_def by simp
    have lv: "large_values code p = []" using 4 by (simp add: large_values_def op_def)
    show ?thesis
      unfolding eq analyze_switch_other [OF 4(1) op(2) [folded op_def] 4(2,3)] n spec_instr_def sa lv
        op_def [symmetric]
      by (simp add: set_back_arg_emplace) (simp add: emplace_instr_def mk_instr_def)
  qed
qed

lemma analyze_step_jumpdest:
  assumes "p < length code" "opcode_at code p = OP_JUMPDEST"
  shows "analyze_step r code (a, b, p) =
    (emplace_instr (op_fn (op_table_entry r OP_JUMPDEST)) (add_jumpdest p (save_block b a)),
     add_op (op_table_entry r OP_JUMPDEST) (new_block (length (instrs a))), p + 1)"
  using assms
  by (simp add: analyze_step_def analyze_switch_def Let_def get_op_table_nth ANY_LARGE_PUSH_def
          ANY_SMALL_PUSH_def save_block_def set_arg_def)

lemma analyze_step_jumpi:
  assumes "p < length code" "opcode_at code p = OP_JUMPI"
  shows "analyze_step r code (a, b, p) =
    (save_block (add_op (op_table_entry r OP_JUMPI) b) (emplace_instr (op_fn (op_table_entry r OP_JUMPI)) a),
     new_block (length (instrs a)), p + 1)"
  using assms
  by (simp add: analyze_step_def analyze_switch_def Let_def get_op_table_nth ANY_LARGE_PUSH_def
          ANY_SMALL_PUSH_def save_block_def set_arg_def emplace_instr_def)

text \<open>The analysis with the current block closed by what follows in the code.\<close>

definition completed :: "revision \<Rightarrow> bytes \<Rightarrow> analysis_state \<Rightarrow> AdvancedCodeAnalysis" where
  "completed r code s = (case s of (a, b, p) \<Rightarrow>
     let a' = save_block (final_block r code p b) a
     in a'\<lparr>instrs := instrs a' @ spec_instrs r code p (ba_gas_cost b) (length (push_values a)),
           push_values := push_values a @ spec_values code p,
           jumpdest_offsets := jumpdest_offsets a
             @ map (\<lambda>(q, i). int32 (int q)) (jumpdests code p (length (instrs a))),
           jumpdest_targets := jumpdest_targets a
             @ map (\<lambda>(q, i). int32 (int i)) (jumpdests code p (length (instrs a)))\<rparr>)"

lemma save_block_simps [simp]:
  "length (instrs (save_block b a)) = length (instrs a)"
  "push_values (save_block b a) = push_values a"
  "jumpdest_offsets (save_block b a) = jumpdest_offsets a"
  "jumpdest_targets (save_block b a) = jumpdest_targets a"
  by (simp_all add: save_block_def set_arg_def)

lemma final_block_begin [simp]: "begin_block_index (final_block r code p b) = begin_block_index b"
proof (induction r code p b rule: final_block.induct)
  case (1 r code p b)
  then show ?case by (subst final_block.simps) (auto simp: Let_def add_op_def)
qed

lemma completed_step:
  assumes p: "p < length code" and i: "begin_block_index b < length (instrs a)"
  shows "completed r code (analyze_step r code (a, b, p)) = completed r code (a, b, p)"
proof -
  let ?op = "opcode_at code p"
  consider "?op = OP_JUMPDEST" | "?op = OP_JUMPI" | "?op \<noteq> OP_JUMPDEST" "?op \<noteq> OP_JUMPI" by blast
  then show ?thesis
  proof cases
    case 1
    have "final_block r code p b = b" using 1 by (subst final_block.simps) simp
    moreover have "adv_next code p = p + 1" using p 1 by (intro adv_next_plain) auto
    ultimately show ?thesis
      unfolding analyze_step_jumpdest [OF p 1] completed_def prod.case
        spec_instrs.simps [of r code p] spec_values.simps [of code p]
      using p 1 i
      by (simp add: Let_def save_block_def set_arg_def emplace_instr_def add_jumpdest_def
          jumpdests_unfold [of code p] spec_instr_def spec_arg_def mk_instr_def large_values_def
          ANY_LARGE_PUSH_def cost_next_def cost_upto_def jumpdest_info_eq [unfolded One_nat_def add_Suc_right add_0_right]
          nth_append list_update_append) (simp add: add_op_def new_block_def Let_def nth_append list_update_append)
  next
    case 2
    have "final_block r code p b = add_op (op_table_entry r OP_JUMPI) b"
      using 2 p by (subst final_block.simps) simp
    moreover have "adv_next code p = p + 1" using p 2 by (intro adv_next_plain) auto
    ultimately show ?thesis
      unfolding analyze_step_jumpi [OF p 2] completed_def prod.case
        spec_instrs.simps [of r code p] spec_values.simps [of code p]
      using p 2 i
      by (simp add: Let_def save_block_def set_arg_def emplace_instr_def
          jumpdests_unfold [of code p] spec_instr_def spec_arg_def mk_instr_def large_values_def
          ANY_LARGE_PUSH_def cost_next_def cost_upto_def block_info_eq nth_append list_update_append)
         (simp add: add_op_def new_block_def Let_def nth_append list_update_append)
  next
    case 3
    have "final_block r code p b =
        final_block r code (adv_next code p) (add_op (op_table_entry r ?op) b)"
      using 3 p by (subst final_block.simps) (simp add: Let_def)
    then show ?thesis
      unfolding analyze_step_plain [OF p 3] completed_def prod.case
        spec_instrs.simps [of r code p] spec_values.simps [of code p]
      using p 3 i
      by (simp add: Let_def save_block_def set_arg_def
          jumpdests_unfold [of code p] cost_next_def cost_upto_def nth_append list_update_append add_op_def)
  qed
qed

lemma analyze_step_index:
  assumes "p < length code" "begin_block_index b < length (instrs a)"
    and "analyze_step r code (a, b, p) = (a', b', p')"
  shows "begin_block_index b' < length (instrs a')"
  using assms analyze_step_plain [of p code r a b] analyze_step_jumpdest [of p code r a b]
    analyze_step_jumpi [of p code r a b]
  by (cases "opcode_at code p = OP_JUMPDEST"; cases "opcode_at code p = OP_JUMPI")
     (auto simp: add_op_def Let_def new_block_def emplace_instr_def save_block_def set_arg_def
      add_jumpdest_def)

lemma analyze_loop_completed:
  assumes "begin_block_index (fst (snd s)) < length (instrs (fst s))"
  shows "completed r code (analyze_loop r code s) = completed r code s \<and>
    length code \<le> snd (snd (analyze_loop r code s))"
  using assms
proof (induction r code s rule: analyze_loop.induct)
  case (1 r code s)
  obtain a b p where s: "s = (a, b, p)" by (cases s) auto
  obtain a' b' p' where s': "analyze_step r code (a, b, p) = (a', b', p')"
    by (cases "analyze_step r code (a, b, p)") auto
  show ?case
  proof (cases "p < length code")
    case False
    then show ?thesis by (subst (1 2) analyze_loop.simps) (simp add: s)
  next
    case True
    have "begin_block_index b' < length (instrs a')"
      using analyze_step_index [OF True _ s'] 1(2) by (simp add: s)
    then show ?thesis
      using 1(1) True completed_step [OF True, of b a r] 1(2)
      by (subst (1 2) analyze_loop.simps) (simp add: s s')
  qed
qed

lemma length_spec_instrs: "length (spec_instrs r code p c n) = length (spec_positions code p)"
proof (induction r code p c n rule: spec_instrs.induct)
  case (1 r code p c n)
  then show ?case by (subst spec_instrs.simps, subst spec_positions.simps) simp
qed

lemma length_spec_positions: "length (spec_positions code p) \<le> length code - p"
proof (induction code p rule: spec_positions.induct)
  case (1 code p)
  then show ?case using adv_next_greater [of p code] by (subst spec_positions.simps) auto
qed

lemma length_spec_values: "length (spec_values code p) \<le> length code - p"
proof (induction code p rule: spec_values.induct)
  case (1 code p)
  then show ?case using adv_next_greater [of p code]
    by (subst spec_values.simps) (auto simp: large_values_def)
qed

lemma table_fn_jumpdest: "op_fn (op_table_entry r OP_JUMPDEST) = Opx_beginblock"
  by (cases r) (simp only:, code_simp)

lemma table_fn_stop: "op_fn (op_table_entry r OP_STOP) = Op_impl OP_STOP"
  by (cases r) (simp only:, code_simp)

definition spec_analysis :: "revision \<Rightarrow> bytes \<Rightarrow> AdvancedCodeAnalysis" where
  "spec_analysis r code =
     \<lparr>instrs = \<lparr>fn = Opx_beginblock, arg = Arg_block (block_info r code 0)\<rparr> #
        spec_instrs r code 0 0 0 @ [mk_instr (Op_impl OP_STOP)],
      push_values = spec_values code 0,
      jumpdest_offsets = map (\<lambda>(q, i). int32 (int q)) (jumpdests code 0 1),
      jumpdest_targets = map (\<lambda>(q, i). int32 (int i)) (jumpdests code 0 1)\<rparr>"

lemma completed_end:
  assumes "length code \<le> p"
  shows "completed r code (a, b, p) = save_block b a"
  using assms
  by (simp add: completed_def final_block.simps spec_instrs.simps spec_values.simps
      jumpdests_unfold [of code p] Let_def save_block_def set_arg_def)

text \<open>
  The loop with its patches is the translation that looks ahead; the storage reserved for
  the instructions and for the push values is enough, so pointers into it stay valid.
\<close>

theorem adv_analyze_spec: "adv_analyze r code = Some (spec_analysis r code)"
proof -
  let ?a = "emplace_instr Opx_beginblock
    \<lparr>instrs = [], push_values = [], jumpdest_offsets = [], jumpdest_targets = []\<rparr>"
  obtain a b p where l: "analyze_loop r code (?a, new_block 0, 0) = (a, b, p)"
    by (cases "analyze_loop r code (?a, new_block 0, 0)") auto
  have "completed r code (a, b, p) = completed r code (?a, new_block 0, 0) \<and> length code \<le> p"
    using analyze_loop_completed [of "(?a, new_block 0, 0)" r code] l
    by (simp add: emplace_instr_def new_block_def)
  then have "save_block b a = completed r code (?a, new_block 0, 0)"
    using completed_end [of code p r a b] by metis
  also have "\<dots> = \<lparr>instrs = \<lparr>fn = Opx_beginblock, arg = Arg_block (block_info r code 0)\<rparr> #
        spec_instrs r code 0 0 0, push_values = spec_values code 0,
      jumpdest_offsets = map (\<lambda>(q, i). int32 (int q)) (jumpdests code 0 1),
      jumpdest_targets = map (\<lambda>(q, i). int32 (int i)) (jumpdests code 0 1)\<rparr>"
    by (simp add: completed_def Let_def save_block_def set_arg_def emplace_instr_def mk_instr_def
        block_info_eq) (simp add: new_block_def block_info_def)
  finally have s: "emplace_instr (Op_impl OP_STOP) (save_block b a) = spec_analysis r code"
    by (simp add: emplace_instr_def spec_analysis_def)
  have "length (spec_instrs r code 0 0 0) \<le> length code" "length (spec_values code 0) \<le> length code"
    using length_spec_instrs [of r code 0 0 0] length_spec_positions [of code 0]
      length_spec_values [of code 0] by simp_all
  then have len: "length (instrs (spec_analysis r code)) \<le> length code + 2"
    "length (push_values (spec_analysis r code)) \<le> length code + 1"
    by (simp_all add: spec_analysis_def)
  have t: "op_fn (get_op_table r ! OP_JUMPDEST) = Opx_beginblock"
      "op_fn (get_op_table r ! OP_STOP) = Op_impl OP_STOP"
    using table_fn_jumpdest table_fn_stop by (simp_all add: get_op_table_nth)
  show ?thesis
    unfolding adv_analyze_def Let_def t l prod.case s using len by simp
qed

section \<open>The jump table\<close>

text \<open>The destinations from \<open>p\<close> on are the valid ones; skipping code that is cut off loses none.\<close>

definition dest_from :: "bytes \<Rightarrow> nat \<Rightarrow> nat \<Rightarrow> bool" where
  "dest_from code p j \<longleftrightarrow> starts_from code p j \<and> j < length code \<and> opcode_at code j = OP_JUMPDEST"

lemma dest_from_step:
  assumes "p < length code"
  shows "dest_from code p j \<longleftrightarrow>
    j = p \<and> opcode_at code p = OP_JUMPDEST \<or> dest_from code (min (next_instr code p) (length code)) j"
  using assms starts_from_unfold [of code p j] starts_from_ge [of code "next_instr code p" j]
    starts_from_ge [of code "length code" j]
  by (auto simp: dest_from_def min_def)

lemma dest_from_skip: "dest_from code (skip_dead code p) j = dest_from code p j"
proof (induction code p rule: skip_dead.induct)
  case (1 code p)
  show ?case
  proof (cases "p < length code \<and> opcode_at code p \<noteq> OP_JUMPDEST")
    case False
    then show ?thesis by (subst skip_dead.simps) auto
  next
    case True
    have "(if OP_PUSH1 \<le> opcode_at code p \<and> opcode_at code p \<le> OP_PUSH32
         then min (p + (opcode_at code p - OP_PUSH1 + 1) + 1) (length code) else p + 1)
        = min (next_instr code p) (length code)"
      using True by (auto simp: next_instr_def immediate_size_traits)
    then show ?thesis
      using 1 [OF True] True dest_from_step [of p code j] by (subst skip_dead.simps) simp
  qed
qed

lemma dest_from_next:
  assumes "p < length code"
  shows "dest_from code p j \<longleftrightarrow>
    j = p \<and> opcode_at code p = OP_JUMPDEST \<or> dest_from code (adv_next code p) j"
proof (cases "cuts_off (opcode_at code p)")
  case True
  then have "next_instr code p = p + 1" by (auto simp: next_instr_def immediate_size_traits)
  then show ?thesis
    using True assms dest_from_step [OF assms, of j] dest_from_skip [of code "p + 1" j]
    by (simp add: adv_next_def min_def)
next
  case False
  then show ?thesis using dest_from_step [OF assms, of j] by (simp add: adv_next_def)
qed

lemma spec_positions_ge: "q \<in> set (spec_positions code p) \<Longrightarrow> p \<le> q"
proof (induction code p rule: spec_positions.induct)
  case (1 code p)
  then show ?case using adv_next_greater [of p code]
    by (subst (asm) spec_positions.simps) (force split: if_splits)
qed

lemma jumpdests_ge: "(q, i) \<in> set (jumpdests code p k) \<Longrightarrow> p \<le> q \<and> k \<le> i"
  by (auto simp: jumpdests_def dest: set_zip_leftD set_zip_rightD intro: spec_positions_ge)

lemma jumpdests_dest: "(\<exists>i. (j, i) \<in> set (jumpdests code p k)) \<longleftrightarrow> dest_from code p j"
proof (induction "length code - p" arbitrary: p k rule: less_induct)
  case less
  show ?case
  proof (cases "p < length code")
    case False
    then show ?thesis using starts_from_ge [of code p j]
      by (subst jumpdests_unfold) (auto simp: dest_from_def)
  next
    case True
    then have "length code - adv_next code p < length code - p"
      using adv_next_greater by (simp add: diff_less_mono2)
    then show ?thesis
      using less [of "adv_next code p" "k + 1"] True dest_from_next [OF True, of j]
      by (subst jumpdests_unfold) auto
  qed
qed

lemma jumpdests_sorted: "sorted_wrt (<) (map fst (jumpdests code p k))"
proof (induction "length code - p" arbitrary: p k rule: less_induct)
  case less
  show ?case
  proof (cases "p < length code")
    case True
    then have g: "p < adv_next code p" "length code - adv_next code p < length code - p"
      using adv_next_greater by (simp_all add: diff_less_mono2)
    then show ?thesis
      using less [of "adv_next code p" "k + 1"] True
      by (subst jumpdests_unfold) (auto dest!: jumpdests_ge)
  qed (simp add: jumpdests_unfold [of code p])
qed

lemma lower_bound_spec:
  assumes "sorted xs" and "first + len \<le> length xs"
    and "\<forall>i < first. xs ! i < v" and "\<forall>i. first + len \<le> i \<and> i < length xs \<longrightarrow> v \<le> xs ! i"
  shows "lower_bound xs v first len \<le> length xs \<and> (\<forall>i < lower_bound xs v first len. xs ! i < v) \<and>
    (\<forall>i. lower_bound xs v first len \<le> i \<and> i < length xs \<longrightarrow> v \<le> xs ! i)"
  using assms
proof (induction xs v first len rule: lower_bound.induct)
  case (1 xs v first len)
  show ?case
  proof (cases "0 < len")
    case False
    then show ?thesis using 1(3-6) by (subst (1 2 3) lower_bound.simps) auto
  next
    case True
    define half middle where "half = len div 2" and "middle = first + half"
    have m: "middle < first + len" "first \<le> middle" using True by (auto simp: middle_def half_def)
    show ?thesis
    proof (cases "xs ! middle < v")
      case lt: True
      have below: "\<forall>i < middle + 1. xs ! i < v"
      proof (intro allI impI)
        fix i assume "i < middle + 1"
        then have "xs ! i \<le> xs ! middle" using sorted_nth_mono [OF 1(3), of i middle] m 1(4) by simp
        then show "xs ! i < v" using lt by simp
      qed
      have e: "middle + 1 + (len - half - 1) = first + len" using m by (simp add: middle_def)
      have "lower_bound xs v first len = lower_bound xs v (middle + 1) (len - half - 1)"
        using True lt by (subst lower_bound.simps) (simp add: Let_def half_def middle_def)
      then show ?thesis
        using 1(1) [OF True half_def middle_def lt 1(3)] below 1(4,6) unfolding e by simp
    next
      case ge: False
      have above: "\<forall>i. first + half \<le> i \<and> i < length xs \<longrightarrow> v \<le> xs ! i"
      proof (intro allI impI)
        fix i assume "first + half \<le> i \<and> i < length xs"
        then have "xs ! middle \<le> xs ! i" using sorted_nth_mono [OF 1(3), of middle i] by (simp add: middle_def)
        then show "v \<le> xs ! i" using ge by simp
      qed
      have "lower_bound xs v first len = lower_bound xs v first half"
        using True ge by (subst lower_bound.simps) (simp add: Let_def half_def middle_def)
      moreover have "first + half \<le> length xs" using m 1(4) by (simp add: middle_def)
      ultimately show ?thesis
        using 1(2) [OF True half_def middle_def ge 1(3)] 1(5) above by simp
    qed
  qed
qed

lemma int32_id: "x < 2 ^ 31 \<Longrightarrow> int32 (int x) = int x"
  unfolding int32_def by (subst sint_sbintrunc') (simp add: signed_take_bit_int_eq_self)

lemma lower_bound_find:
  assumes "sorted_wrt (<) xs" and "it = lower_bound xs v 0 (length xs)"
  shows "it < length xs \<and> xs ! it = v \<longleftrightarrow> v \<in> set xs"
    and "i < length xs \<Longrightarrow> xs ! i = v \<Longrightarrow> it = i"
proof -
  have s: "sorted xs" using assms(1) by (simp add: strict_sorted_imp_sorted)
  have l: "it \<le> length xs" "\<And>i. i < it \<Longrightarrow> xs ! i < v"
    "\<And>i. it \<le> i \<Longrightarrow> i < length xs \<Longrightarrow> v \<le> xs ! i"
    using lower_bound_spec [OF s, of 0 "length xs" v] by (auto simp: assms(2))
  show "it < length xs \<and> xs ! it = v \<longleftrightarrow> v \<in> set xs"
  proof
    assume "v \<in> set xs"
    then obtain j where j: "j < length xs" "xs ! j = v" by (auto simp: in_set_conv_nth)
    then have "it \<le> j" using l(2) [of j] by (meson less_irrefl not_le)
    then have "xs ! it \<le> v" using sorted_nth_mono [OF s, of it j] j by simp
    then show "it < length xs \<and> xs ! it = v" using l(3) [of it] \<open>it \<le> j\<close> j by fastforce
  qed auto
  assume i: "i < length xs" "xs ! i = v"
  then have "it \<le> i" using l(2) [of i] by (meson less_irrefl not_le)
  moreover have "\<not> it < i"
  proof
    assume "it < i"
    then have "xs ! it < v" using sorted_wrt_nth_less [OF assms(1), of it i] i by simp
    then show False using l(3) [of it] \<open>it < i\<close> i by simp
  qed
  ultimately show "it = i" by simp
qed

text \<open>The table lookup finds the translated instruction of exactly the valid destinations.\<close>

lemma find_jumpdest_cases:
  assumes len: "length code < 2 ^ 31"
  shows "if valid_jumpdest code d
    then \<exists>i. (d, i) \<in> set (jumpdests code 0 1) \<and> find_jumpdest (spec_analysis r code) (int d) = int32 (int i)
    else find_jumpdest (spec_analysis r code) (int d) = - 1"
proof -
  define js where "js = jumpdests code 0 1"
  define xs where "xs = map (\<lambda>(q, i). int32 (int q)) js"
  have b: "q < length code" if "(q, i) \<in> set js" for q i
    using that jumpdests_dest [of q code 0 1] by (auto simp: js_def dest_from_def)
  then have xs: "xs = map int (map fst js)"
    using len by (auto simp: xs_def intro!: int32_id dest!: b)
  have srt: "sorted_wrt (<) xs"
    using jumpdests_sorted [of code 0 1] unfolding xs js_def [symmetric] sorted_wrt_map by simp
  have off: "jumpdest_offsets (spec_analysis r code) = xs"
    and tgt: "jumpdest_targets (spec_analysis r code) = map (\<lambda>(q, i). int32 (int i)) js"
    by (simp_all add: spec_analysis_def xs_def js_def)
  define it where "it = lower_bound xs (int d) 0 (length xs)"
  note find = lower_bound_find [OF srt it_def]
  have le: "it \<le> length xs"
    using lower_bound_spec [of xs 0 "length xs" "int d"] srt by (simp add: it_def strict_sorted_imp_sorted)
  have "int d \<in> set xs \<longleftrightarrow> (\<exists>i. (d, i) \<in> set js)" unfolding xs by force
  also have "\<dots> \<longleftrightarrow> valid_jumpdest code d"
    using jumpdests_dest [of d code 0 1] by (auto simp: js_def dest_from_def valid_jumpdest_def)
  finally have v: "it < length xs \<and> xs ! it = int d \<longleftrightarrow> valid_jumpdest code d" using find(1) by simp
  have f: "find_jumpdest (spec_analysis r code) (int d) =
      (if it < length xs \<and> xs ! it = int d then map (\<lambda>(q, i). int32 (int i)) js ! it else - 1)"
    using le unfolding find_jumpdest_def off tgt Let_def it_def [symmetric] by auto
  show ?thesis
  proof (cases "valid_jumpdest code d")
    case True
    then have it: "it < length js" "fst (js ! it) = d" using v xs by auto
    then have "(d, snd (js ! it)) \<in> set js" by (metis nth_mem prod.collapse)
    moreover have "find_jumpdest (spec_analysis r code) (int d) = int32 (int (snd (js ! it)))"
      using True v f it by (simp add: split_def)
    ultimately show ?thesis using True unfolding js_def [symmetric] by auto
  qed (use f v in simp)
qed

text \<open>The instructions from a jump target on are the translation from the destination on.\<close>

lemma spec_instrs_jumpdest:
  "opcode_at code p = OP_JUMPDEST \<Longrightarrow> spec_instrs r code p c n = spec_instrs r code p c' n"
  by (subst (1 2) spec_instrs.simps) (simp add: cost_upto_def cost_next_def)

lemma jumpdests_suffix:
  assumes "(q, i) \<in> set (jumpdests code p k)"
  shows "\<exists>m. drop (i - k) (spec_instrs r code p c n) = spec_instrs r code q 0 (n + m) \<and>
    drop m (spec_values code p) = spec_values code q"
  using assms
proof (induction "length code - p" arbitrary: p k c n rule: less_induct)
  case less
  have p: "p < length code" using less.prems by (subst (asm) jumpdests_unfold) (simp split: if_splits)
  show ?case
  proof (cases "q = p")
    case True
    then have "i = k \<and> opcode_at code p = OP_JUMPDEST"
      using less.prems p adv_next_greater [OF p] jumpdests_ge [of p i code "adv_next code p" "k + 1"]
      by (subst (asm) jumpdests_unfold) (auto split: if_splits)
    then show ?thesis using True spec_instrs_jumpdest [of code p r c n 0]
      by (intro exI [of _ 0]) simp
  next
    case False
    then have q: "(q, i) \<in> set (jumpdests code (adv_next code p) (k + 1))"
      using less.prems p by (subst (asm) jumpdests_unfold) (auto split: if_splits)
    obtain m where m: "drop (i - (k + 1)) (spec_instrs r code (adv_next code p) (cost_next r code p c)
          (n + length (large_values code p))) = spec_instrs r code q 0 (n + length (large_values code p) + m)"
        "drop m (spec_values code (adv_next code p)) = spec_values code q"
      using less.hyps [OF _ q] p adv_next_greater [OF p] diff_less_mono2 by blast
    have "i - k = Suc (i - (k + 1))" using jumpdests_ge [OF q] by linarith
    then show ?thesis using m p
      by (subst (1) spec_instrs.simps, subst (1) spec_values.simps)
         (auto simp: add.assoc intro!: exI [of _ "length (large_values code p) + m"])
  qed
qed

end
