(* ===== verification/Zvm_Baseline.thy ===== *)
theory Zvm_Baseline
  imports Zvm_Analysis
begin

text \<open>
  The Baseline interpreter (\<open>lib/zvmone/baseline.cpp\<close>): the checks before an instruction,
  the invocation of implementations of the five signatures, the two dispatch loops and
  \<open>execute\<close>.  The loops are partial functions: \<open>None\<close> is an access outside a buffer or an
  endless run, and the theorems show that neither happens.
\<close>

section \<open>Definitions\<close>

text \<open>\<open>check_requirements<Op>\<close>; the gas is an in-out parameter.\<close>

definition check_requirements :: "nat \<Rightarrow> int list \<Rightarrow> int \<Rightarrow> stack_top \<Rightarrow> status_code \<times> int" where
  "check_requirements Op cost_table gas_left t =
     (let gas_cost = (if has_const_gas_cost Op then gas_costs ZVMC_SHANGHAI ! Op
                      else cost_table ! Op) in
      if \<not> has_const_gas_cost Op \<and> gas_cost < 0 then (ZVMC_UNDEFINED_INSTRUCTION, gas_left)
      else if stack_height_change (traits ! Op) > 0 \<and> t = limit
      then (ZVMC_STACK_OVERFLOW, gas_left)
      else if stack_height_required (traits ! Op) > 0 \<and>
              int t \<le> stack_height_required (traits ! Op) - 1
      then (ZVMC_STACK_UNDERFLOW, gas_left)
      else let gas_left = gas_left - gas_cost
           in (if gas_left < 0 then ZVMC_OUT_OF_GAS else ZVMC_SUCCESS, gas_left))"

text \<open>
  The overloads of \<open>invoke\<close>, one per signature of the implementations: the new code
  position (\<open>None\<close> is the null pointer), the gas left and the state.
\<close>

fun invoke_impl ::
  "'h platform \<Rightarrow> op_id \<Rightarrow> nat \<Rightarrow> stack_top \<Rightarrow> int \<Rightarrow> 'h exec_state
     \<Rightarrow> (nat option \<times> int \<times> 'h exec_state) option" where
  "invoke_impl P (Stack_op i) pos t g st = do {
     sp \<leftarrow> stack_impl P i (stack_space st) t;
     Some (Some (pos + 1), g, st\<lparr>stack_space := sp\<rparr>) }"
| "invoke_impl P (Result_op i) pos t g st = do {
     ((s, g), st) \<leftarrow> result_impl i P t g st;
     if s \<noteq> ZVMC_SUCCESS then Some (None, g, st\<lparr>status := s\<rparr>)
     else Some (Some (pos + 1), g, st) }"
| "invoke_impl P (State_op i) pos t g st = do {
     st \<leftarrow> state_impl i P t st;
     Some (Some (pos + 1), g, st) }"
| "invoke_impl P (Iter_op i) pos t g st = do {
     (np, st) \<leftarrow> iter_impl i t st pos;
     Some (np, g, st) }"
| "invoke_impl P (Term_op i) pos t g st = do {
     ((s, g), st) \<leftarrow> term_impl i P t g st;
     Some (None, g, st\<lparr>status := s\<rparr>) }"

text \<open>\<open>invoke<Op>\<close>: the new position is the code position and the stack top.\<close>

definition invoke ::
  "'h platform \<Rightarrow> nat \<Rightarrow> op_id \<Rightarrow> int list \<Rightarrow> nat \<Rightarrow> stack_top \<Rightarrow> int \<Rightarrow> 'h exec_state
     \<Rightarrow> ((nat option \<times> stack_top) \<times> int \<times> 'h exec_state) option" where
  "invoke P Op i cost_table pos t g st =
     (case check_requirements Op cost_table g t of (s, g) \<Rightarrow>
        if s \<noteq> ZVMC_SUCCESS then Some ((None, t), g, st\<lparr>status := s\<rparr>)
        else do {
          (np, g, st) \<leftarrow> invoke_impl P i pos t g st;
          Some ((np, nat (int t + stack_height_change (traits ! Op))), g, st) })"

text \<open>The opcode under the code iterator.\<close>

definition fetch :: "'h exec_state \<Rightarrow> nat \<Rightarrow> nat option" where
  "fetch st pos =
     (let code = padded_code (analysis st) in
      if pos < length code then Some (unat (code ! pos)) else None)"

text \<open>
  One iteration of a dispatch loop, for the instruction that the dispatch table gives for
  the opcode: either the position, gas and state of the next iteration, or the end.
\<close>

type_synonym 'h config = "nat \<times> stack_top \<times> int \<times> 'h exec_state"

definition dispatch_op ::
  "'h platform \<Rightarrow> int list \<Rightarrow> nat \<Rightarrow> op_id option \<Rightarrow> 'h config
     \<Rightarrow> ('h config + int \<times> 'h exec_state) option" where
  "dispatch_op P cost_table op target c =
     (case c of (pos, t, g, st) \<Rightarrow>
       (case target of
          Some i \<Rightarrow> do {
            ((np, t), g, st) \<leftarrow> invoke P op i cost_table pos t g st;
            (case np of
               None \<Rightarrow> Some (Inr (g, st))
             | Some p \<Rightarrow> Some (Inl (p, t, g, st))) }
        | None \<Rightarrow> Some (Inr (g, st\<lparr>status := ZVMC_UNDEFINED_INSTRUCTION\<rparr>))))"

text \<open>The switch finds the case label of the opcode; no label is the default.\<close>

definition switch_step ::
  "'h platform \<Rightarrow> int list \<Rightarrow> 'h config \<Rightarrow> ('h config + int \<times> 'h exec_state) option" where
  "switch_step P cost_table c = do {
     op \<leftarrow> fetch (snd (snd (snd c))) (fst c);
     dispatch_op P cost_table op
       (case map_of MAP_OPCODES op of Some target \<Rightarrow> target | None \<Rightarrow> None) c }"

text \<open>The computed goto indexes a table of labels by the opcode.\<close>

definition cgoto_table :: "op_id option list" where
  "cgoto_table = map snd MAP_OPCODES"

definition cgoto_step ::
  "'h platform \<Rightarrow> int list \<Rightarrow> 'h config \<Rightarrow> ('h config + int \<times> 'h exec_state) option" where
  "cgoto_step P cost_table c = do {
     op \<leftarrow> fetch (snd (snd (snd c))) (fst c);
     dispatch_op P cost_table op (cgoto_table ! op) c }"

partial_function (option) dispatch ::
  "'h platform \<Rightarrow> int list \<Rightarrow> 'h config \<Rightarrow> (int \<times> 'h exec_state) option" where
  [code]: "dispatch plat cost_table c = do {
     r \<leftarrow> switch_step plat cost_table c;
     (case r of Inl c \<Rightarrow> dispatch plat cost_table c | Inr out \<Rightarrow> Some out) }"

partial_function (option) dispatch_cgoto ::
  "'h platform \<Rightarrow> int list \<Rightarrow> 'h config \<Rightarrow> (int \<times> 'h exec_state) option" where
  [code]: "dispatch_cgoto plat cost_table c = do {
     r \<leftarrow> cgoto_step plat cost_table c;
     (case r of Inl c \<Rightarrow> dispatch_cgoto plat cost_table c | Inr out \<Rightarrow> Some out) }"

text \<open>\<open>zvmc::make_result\<close> of the ZVMC library: the result structure of the given parts.\<close>

definition make_result :: "status_code \<Rightarrow> int \<Rightarrow> int \<Rightarrow> bytes \<Rightarrow> zvmc_result" where
  "make_result s g refund out = \<lparr>res_status = s, res_gas_left = g, res_gas_refund = refund,
     output_data = out, create_address = 0\<rparr>"

text \<open>
  \<open>execute\<close> on a prepared state without a tracer; \<open>cgoto\<close> is the option of the VM.  A
  failing \<open>assert\<close> is undefined.
\<close>

definition execute_state ::
  "'h platform \<Rightarrow> bool \<Rightarrow> int \<Rightarrow> 'h exec_state \<Rightarrow> code_analysis \<Rightarrow> (zvmc_result \<times> 'h exec_state) option" where
  "execute_state P cgoto g st a = do {
     let st = st\<lparr>analysis := a\<rparr>;
     let cost_table = get_baseline_cost_table (st_rev st);
     (g, st) \<leftarrow> (if cgoto then dispatch_cgoto P cost_table (0, 0, g, st)
                else dispatch P cost_table (0, 0, g, st));
     let gas_left = (if status st = ZVMC_SUCCESS \<or> status st = ZVMC_REVERT then g else 0);
     let refund = (if status st = ZVMC_SUCCESS then gas_refund st else 0);
     if \<not> (output_size st \<noteq> 0 \<or> output_offset st = 0) then None
     else do {
       out \<leftarrow> (if output_size st \<noteq> 0
              then mem_read (memory st) (output_offset st) (output_size st) else Some []);
       Some (make_result (status st) gas_left refund out, st) } }"

text \<open>\<open>execute\<close> with the parameters of the ZVMC interface; the host state is returned too.\<close>

definition execute ::
  "'h platform \<Rightarrow> bool \<Rightarrow> 'h \<Rightarrow> revision \<Rightarrow> message \<Rightarrow> bytes \<Rightarrow> (zvmc_result \<times> 'h) option" where
  "execute P cgoto h r m code = do {
     (result, st) \<leftarrow> execute_state P cgoto (gas m) (ExecutionState P m r h code) (analyze r code);
     Some (result, host st) }"

section \<open>The two dispatch loops agree\<close>

lemma fetch_less: "fetch st pos = Some op \<Longrightarrow> op < 256"
  using unsigned_less [of "padded_code (analysis st) ! pos"]
  by (auto simp: fetch_def Let_def split: if_splits)

lemma cgoto_step_eq: "cgoto_step P ct c = switch_step P ct c"
  by (cases "fetch (snd (snd (snd c))) (fst c)")
     (auto simp: cgoto_step_def switch_step_def cgoto_table_def MAP_OPCODES_index dest: fetch_less)

lemma dispatch_cgoto_imp: "dispatch_cgoto P ct c = Some r \<Longrightarrow> dispatch P ct c = Some r"
proof (rule dispatch_cgoto.raw_induct [where P = "\<lambda>P ct c r. dispatch P ct c = Some r"])
  fix f :: "'h platform \<Rightarrow> int list \<Rightarrow> 'h config \<Rightarrow> (int \<times> 'h exec_state) option" and P ct c r
  assume "\<And>P ct c r. f P ct c = Some r \<Longrightarrow> dispatch P ct c = Some r"
    and "cgoto_step P ct c \<bind> (\<lambda>r. case r of Inl c \<Rightarrow> f P ct c | Inr out \<Rightarrow> Some out) = Some r"
  then show "dispatch P ct c = Some r"
    by (subst dispatch.simps, cases "switch_step P ct c"; cases r)
       (auto simp: cgoto_step_eq split: sum.splits)
qed

lemma dispatch_imp: "dispatch P ct c = Some r \<Longrightarrow> dispatch_cgoto P ct c = Some r"
proof (rule dispatch.raw_induct [where P = "\<lambda>P ct c r. dispatch_cgoto P ct c = Some r"])
  fix f :: "'h platform \<Rightarrow> int list \<Rightarrow> 'h config \<Rightarrow> (int \<times> 'h exec_state) option" and P ct c r
  assume "\<And>P ct c r. f P ct c = Some r \<Longrightarrow> dispatch_cgoto P ct c = Some r"
    and "switch_step P ct c \<bind> (\<lambda>r. case r of Inl c \<Rightarrow> f P ct c | Inr out \<Rightarrow> Some out) = Some r"
  then show "dispatch_cgoto P ct c = Some r"
    by (subst dispatch_cgoto.simps, cases "switch_step P ct c"; cases r)
       (auto simp: cgoto_step_eq split: sum.splits)
qed

lemma dispatch_cgoto_eq: "dispatch_cgoto P ct c = dispatch P ct c"
  using dispatch_cgoto_imp [of P ct c] dispatch_imp [of P ct c]
  by (cases "dispatch P ct c"; cases "dispatch_cgoto P ct c") auto

section \<open>Requirements\<close>

lemma check_requirements_eq:
  assumes "op < 256" and "map_of MAP_OPCODES op = Some (Some i)" and "op_info i = (c, req, chg)"
  shows "check_requirements op ct g t =
    (if chg > 0 \<and> t = limit then (ZVMC_STACK_OVERFLOW, g)
     else if req > 0 \<and> int t < req then (ZVMC_STACK_UNDERFLOW, g)
     else if g < c then (ZVMC_OUT_OF_GAS, g - c) else (ZVMC_SUCCESS, g - c))"
  using op_tables [OF assms(1,2)] assms(3) by (auto simp: check_requirements_def Let_def)

lemma op_change_le: "snd (snd (op_info i)) \<le> 1"
proof (cases i)
  case (Stack_op j) then show ?thesis by (cases j) auto
next
  case (State_op j) then show ?thesis by (cases j) auto
next
  case (Result_op j) then show ?thesis by (cases j) auto
next
  case (Iter_op j) then show ?thesis by (cases j) auto
next
  case (Term_op j) then show ?thesis by (cases j) auto
qed

lemma op_change_ge: "0 \<le> fst (snd (op_info i)) + snd (snd (op_info i))"
proof (cases i)
  case (Stack_op j) then show ?thesis by (cases j) auto
next
  case (State_op j) then show ?thesis by (cases j) auto
next
  case (Result_op j) then show ?thesis by (cases j) auto
next
  case (Iter_op j) then show ?thesis by (cases j) auto
next
  case (Term_op j) then show ?thesis by (cases j) auto
qed

lemma op_cost_ge: "0 \<le> fst (op_info i) \<and>
  (\<not> is_term_op i \<longrightarrow> i \<noteq> Result_op Id_sstore \<longrightarrow> 1 \<le> fst (op_info i))"
proof (cases i)
  case (Stack_op j) then show ?thesis by (cases j) auto
next
  case (State_op j) then show ?thesis by (cases j) auto
next
  case (Result_op j) then show ?thesis by (cases j) auto
next
  case (Iter_op j) then show ?thesis by (cases j) auto
next
  case (Term_op j) then show ?thesis by (cases j) auto
qed

text \<open>A passed check gives what the implementations require.\<close>

lemma requirements_passed:
  assumes "op < 256" and "map_of MAP_OPCODES op = Some (Some i)" and "op_info i = (c, req, chg)"
    and "check_requirements op ct g t = (ZVMC_SUCCESS, g')" and "t \<le> limit"
  shows "req \<le> int t" and "int t + chg \<le> int limit" and "0 \<le> int t + chg" and "g' = g - c" and "0 \<le> g'"
proof -
  note eq = check_requirements_eq [OF assms(1-3), of ct g t, unfolded assms(4)]
  show "req \<le> int t" and "g' = g - c" and "0 \<le> g'" using eq by (auto split: if_splits)
  show "int t + chg \<le> int limit"
    using eq op_change_le [of i] assms(3,5) by (auto split: if_splits)
  show "0 \<le> int t + chg" using \<open>req \<le> int t\<close> op_change_ge [of i] assms(3) by simp
qed

section \<open>One step\<close>

text \<open>What holds when an instruction is about to be dispatched, and when the loop ends.\<close>

definition cfg_ok :: "bytes \<Rightarrow> 'h config \<Rightarrow> bool" where
  "cfg_ok code c \<longleftrightarrow> (case c of (pos, t, g, st) \<Rightarrow>
     analysis st = analyze (st_rev st) code \<and> instr_start code pos \<and> t \<le> limit \<and> 0 \<le> g \<and>
     mem_inv (memory st) \<and> output_size st = 0 \<and> output_offset st = 0 \<and> status st = ZVMC_SUCCESS)"

abbreviation effects_ok :: "'h platform \<Rightarrow> bool \<Rightarrow> 'h exec_state \<Rightarrow> 'h exec_state \<Rightarrow> bool" where
  "effects_ok P b st st' \<equiv> earns P b (msg st) (host st) (gas_refund st) (host st') (gas_refund st')"

text \<open>The execution has ended regularly: gas and output go to the caller.\<close>

definition completes :: "'h exec_state \<Rightarrow> bool" where
  "completes st \<longleftrightarrow> status st = ZVMC_SUCCESS \<or> status st = ZVMC_REVERT"

lemma completes_status [simp]:
  "completes (st\<lparr>status := s\<rparr>) \<longleftrightarrow> s = ZVMC_SUCCESS \<or> s = ZVMC_REVERT"
  by (simp add: completes_def)

definition end_ok :: "'h platform \<Rightarrow> int \<Rightarrow> 'h exec_state \<Rightarrow> int \<times> 'h exec_state \<Rightarrow> bool" where
  "end_ok P g st out \<longleftrightarrow> (case out of (g', st') \<Rightarrow>
     framed st st' \<and> effects_ok P (status st' = ZVMC_SUCCESS) st st' \<and> mem_inv (memory st') \<and> output_ok st' \<and> g' \<le> g \<and>
     (if completes st' then 0 \<le> g' else output_size st' = 0))"

text \<open>
  The outcome of an implementation.  Only \<open>STOP\<close>, \<open>RETURN\<close> and \<open>REVERT\<close> complete the
  execution; every other end is a failure, without output.
\<close>

definition impl_ok ::
  "'h platform \<Rightarrow> op_id \<Rightarrow> nat \<Rightarrow> int \<Rightarrow> 'h exec_state \<Rightarrow> nat option \<times> int \<times> 'h exec_state \<Rightarrow> bool" where
  "impl_ok P i pos g st r \<longleftrightarrow> (case r of (np, g', st') \<Rightarrow>
     framed st st' \<and> effects_ok P (np \<noteq> None \<or> status st' = ZVMC_SUCCESS) st st' \<and>
     mem_inv (memory st') \<and> g' \<le> g \<and>
     (case np of
        None \<Rightarrow> output_ok st' \<and>
          (if completes st' then 0 \<le> g' \<and> i \<in> {Term_op Id_stop, Term_op Id_return, Term_op Id_revert}
           else output_size st' = 0)
      | Some p \<Rightarrow> \<not> is_term_op i \<and> 0 \<le> g' \<and> output_kept st st' \<and> status st' = status st \<and>
          (i = Result_op Id_sstore \<longrightarrow> g' < g) \<and>
          (p = pos + op_immediate i + 1 \<or>
           is_jump_op i \<and> p < length (jumpdest_map (analysis st)) \<and> jumpdest_map (analysis st) ! p)))"

lemma output_ok_kept:
  "output_kept st st' \<Longrightarrow> output_size st = 0 \<Longrightarrow> output_offset st = 0 \<Longrightarrow> output_ok st'"
  by (simp add: output_kept_def output_ok_def)

lemma output_ok_status [simp]: "output_ok (st\<lparr>status := s\<rparr>) = output_ok st"
  by (simp add: output_ok_def)

text \<open>
  A dispatched instruction either ends the execution or moves to another instruction
  boundary with less gas.
\<close>

definition step_ok ::
  "'h platform \<Rightarrow> bytes \<Rightarrow> int \<Rightarrow> 'h exec_state \<Rightarrow> 'h config + int \<times> 'h exec_state \<Rightarrow> bool" where
  "step_ok P code g st r \<longleftrightarrow> (case r of
     Inl (p, t, g', st') \<Rightarrow> cfg_ok code (p, t, g', st') \<and> g' < g \<and> framed st st' \<and> effects_ok P True st st'
   | Inr out \<Rightarrow> end_ok P g st out)"

lemma cfg_ok_t: "cfg_ok code (pos, t, g, st) \<Longrightarrow> t \<le> limit"
  by (simp add: cfg_ok_def)

lemma stop_in_padding: "map_of MAP_OPCODES 0 = Some (Some (Term_op Id_stop))"
  by code_simp

text \<open>Behind the end of the code there is only \<open>STOP\<close>.\<close>

lemma fetch_in_code:
  assumes "cfg_ok code (pos, t, g, st)" and "fetch st pos = Some op"
    and "map_of MAP_OPCODES op = Some (Some i)"
  shows "is_term_op i \<or> pos < length code \<and> op = unat (code ! pos)"
proof (cases "pos < length code")
  case True
  then show ?thesis using assms by (auto simp: fetch_def Let_def cfg_ok_def pad_code_nth)
next
  case False
  then have "op = 0" using assms instr_start_padded [of code pos]
    by (auto simp: fetch_def Let_def cfg_ok_def pad_code_beyond)
  then show ?thesis using assms(3) stop_in_padding by auto
qed

lemma impl_end_ok:
  assumes "impl_ok P i pos g1 st (None, g', st')" and "g1 \<le> g"
  shows "step_ok P code g st (Inr (g', st'))"
  using assms by (simp add: impl_ok_def step_ok_def end_ok_def)

lemma impl_next_ok:
  assumes cfg: "cfg_ok code (pos, t, g, st)" and op: "fetch st pos = Some op"
    and i: "map_of MAP_OPCODES op = Some (Some i)" and info: "op_info i = (c, req, chg)"
    and ok: "impl_ok P i pos (g - c) st (Some p, g', st')" and t': "t' \<le> limit"
  shows "step_ok P code g st (Inl (p, t', g', st'))"
proof -
  have nt: "\<not> is_term_op i" using ok by (simp add: impl_ok_def)
  then have pos: "pos < length code" "op = unat (code ! pos)" using fetch_in_code [OF cfg op i] by auto
  have "p = next_instr code pos \<or> valid_jumpdest code p"
    using ok cfg pos op_tables(5) [OF fetch_less [OF op] i]
    by (auto simp: impl_ok_def cfg_ok_def analyze_jumpdests_nth next_instr_def)
  then have "instr_start code p"
    using cfg pos by (auto simp: cfg_ok_def valid_jumpdest_def intro: starts_from.step)
  moreover have "g' < g" using ok op_cost_ge [of i] info nt by (auto simp: impl_ok_def)
  ultimately show ?thesis
    using ok cfg t' by (auto simp: step_ok_def cfg_ok_def impl_ok_def framed_def output_kept_def)
qed

lemma end_ok_trans:
  assumes "framed st st1" "effects_ok P True st st1" "g1 \<le> g" and "end_ok P g1 st1 out"
  shows "end_ok P g st out"
  using assms
  by (auto simp: end_ok_def framed_msg
      intro: framed_trans earns_trans)

text \<open>What a VM promises its host for the execution of a message.\<close>

definition vm_ok :: "'h platform \<Rightarrow> 'h \<Rightarrow> message \<Rightarrow> zvmc_result \<times> 'h \<Rightarrow> bool" where
  "vm_ok Q h m r \<longleftrightarrow> (case r of (res, h') \<Rightarrow>
     0 \<le> res_gas_left res \<and> res_gas_left res \<le> gas m \<and>
     (res_status res \<noteq> ZVMC_SUCCESS \<and> res_status res \<noteq> ZVMC_REVERT \<longrightarrow>
        res_gas_left res = 0 \<and> output_data res = []) \<and>
     (res_status res \<noteq> ZVMC_SUCCESS \<longrightarrow> res_gas_refund res = 0) \<and>
     earns Q (res_status res = ZVMC_SUCCESS) m h 0 h' (res_gas_refund res))"

context zvmc_host
begin

lemma result_op_step:
  assumes "op_args_ok (Result_op i)" and "result_op_info i = (c, req, chg)"
    and "req \<le> int t" "t \<le> limit" "int t + chg \<le> int limit"
    and "0 \<le> g" and "mem_inv (memory st)" and out: "output_size st = 0" "output_offset st = 0"
    and stat: "status st = ZVMC_SUCCESS"
  shows "returns (invoke_impl P (Result_op i) pos t g st) (impl_ok P (Result_op i) pos g st)"
proof -
  have "returns (result_impl i P t g st) (\<lambda>((s, g'), st').
      result_ok P (nat req) t g st ((s, g'), st') \<and> (i = Id_sstore \<and> s = ZVMC_SUCCESS \<longrightarrow> g' < g))"
  proof (cases "i = Id_sstore")
    case True
    then show ?thesis using assms by (auto intro: returns_mono [OF core_sstore_spec])
  next
    case False
    then show ?thesis using result_impl_ok [OF assms(1-7)] by (auto elim!: returns_mono)
  qed
  then obtain s g' st' where r: "result_impl i P t g st = Some ((s, g'), st')"
    and ok: "result_ok P (nat req) t g st ((s, g'), st')"
      "i = Id_sstore \<and> s = ZVMC_SUCCESS \<longrightarrow> g' < g"
    by (auto elim!: returnsE)
  show ?thesis
    using r ok out output_ok_kept [of st st']
    by (auto simp: impl_ok_def result_ok_def output_kept_def)
qed

lemma invoke_impl_ok:
  assumes args: "op_args_ok i" and info: "op_info i = (c, req, chg)"
    and t: "req \<le> int t" "t \<le> limit" "int t + chg \<le> int limit"
    and g: "0 \<le> g" and inv: "mem_inv (memory st)"
    and out: "output_size st = 0" "output_offset st = 0" and stat: "status st = ZVMC_SUCCESS"
    and pos: "\<not> is_term_op i \<Longrightarrow> pos + 33 \<le> length (padded_code (analysis st))"
  shows "returns (invoke_impl P i pos t g st) (impl_ok P i pos g st)"
proof (cases i)
  case (Stack_op j)
  then obtain sp where "stack_impl P j (stack_space st) t = Some sp"
    using stack_impl_total [of j c req chg t P "stack_space st"] args info t by auto
  then show ?thesis using Stack_op g inv by (simp add: impl_ok_def)
next
  case (State_op j)
  then have "returns (state_impl j P t st) (state_ok (nat req) t st)"
    using state_impl_ok info t by auto
  then show ?thesis using State_op g inv
    by (auto simp: impl_ok_def state_ok_def elim!: returnsE)
next
  case (Result_op j)
  then show ?thesis using result_op_step [of j c req chg t g st pos] args info t g inv out stat
    by simp
next
  case (Iter_op j)
  then have "returns (iter_impl j t st pos) (iter_ok (is_jump_op i) (nat req) (op_immediate i) t pos st)"
    using iter_impl_ok args info t pos by auto
  then show ?thesis using Iter_op g inv out
    by (auto simp: impl_ok_def iter_ok_def output_ok_kept completes_def output_kept_def
        elim!: returnsE split: option.splits)
next
  case (Term_op j)
  then have "returns (term_impl j P t g st) (\<lambda>((s', g'), st').
    framed st st' \<and> mem_inv (memory st') \<and> host st' = host st \<and>
    gas_refund st' = gas_refund st \<and> g' \<le> g \<and> output_ok st' \<and>
    (if s' = ZVMC_SUCCESS \<or> s' = ZVMC_REVERT then 0 \<le> g' \<and> j \<noteq> Id_invalid else output_size st' = 0))"
    using term_impl_ok [of j c req chg t g st P] info t g inv out by auto
  then show ?thesis using Term_op
    by (cases j) (auto simp: impl_ok_def elim!: returnsE split: if_splits)
qed

lemma invoke_ok:
  assumes cfg: "cfg_ok code (pos, t, g, st)" and op: "fetch st pos = Some op"
    and i: "map_of MAP_OPCODES op = Some (Some i)"
  shows "returns (dispatch_op P ct op (Some i) (pos, t, g, st)) (step_ok P code g st)"
proof -
  note op256 = fetch_less [OF op]
  obtain c req chg where info: "op_info i = (c, req, chg)" by (metis prod_cases3)
  obtain s g1 where chk: "check_requirements op ct g t = (s, g1)" by fastforce
  show ?thesis
  proof (cases "s = ZVMC_SUCCESS")
    case False
    then have "s \<noteq> ZVMC_REVERT \<and> g1 \<le> g"
      using check_requirements_eq [OF op256 i info, of ct g t] chk op_cost_ge [of i] info
      by (auto split: if_splits)
    then show ?thesis using False chk cfg
      by (simp add: dispatch_op_def invoke_def step_ok_def end_ok_def cfg_ok_def
          output_ok_def)
  next
    case True
    note req = requirements_passed [OF op256 i info chk [unfolded True] cfg_ok_t [OF cfg]]
    have "returns (invoke_impl P i pos t g1 st) (impl_ok P i pos g1 st)"
      using cfg fetch_in_code [OF cfg op i]
      by (intro invoke_impl_ok [OF op_tables(1) [OF op256 i] info req(1) _ req(2)])
         (auto simp: cfg_ok_def req(5))
    then show ?thesis
      using chk True req op_tables(4) [OF op256 i] info op_cost_ge [of i]
      by (auto simp: nat_le_iff dispatch_op_def invoke_def elim!: returnsE split: option.splits
          intro!: impl_end_ok impl_next_ok [OF cfg op i info])
  qed
qed

lemma switch_step_ok:
  assumes cfg: "cfg_ok code (pos, t, g, st)"
  shows "returns (switch_step P ct (pos, t, g, st)) (step_ok P code g st)"
proof -
  obtain op where op: "fetch st pos = Some op"
    using cfg instr_start_padded [of code pos] by (auto simp: cfg_ok_def fetch_def Let_def)
  have m: "map_of MAP_OPCODES op = Some (snd (MAP_OPCODES ! op))"
    by (rule MAP_OPCODES_index [OF fetch_less [OF op]])
  show ?thesis
  proof (cases "snd (MAP_OPCODES ! op)")
    case None
    then show ?thesis using m op cfg
      by (simp add: switch_step_def dispatch_op_def step_ok_def end_ok_def cfg_ok_def
          output_ok_def)
  next
    case (Some i)
    then show ?thesis using m op invoke_ok [OF cfg op, of i ct] by (simp add: switch_step_def)
  qed
qed

section \<open>The loop returns\<close>

text \<open>
  From every configuration at an instruction boundary the loop ends, without leaving a
  buffer; the measure is the gas.
\<close>

theorem dispatch_returns:
  assumes "cfg_ok code (pos, t, g, st)"
  shows "returns (dispatch P ct (pos, t, g, st)) (end_ok P g st)"
  using assms
proof (induction "nat g" arbitrary: pos t g st rule: less_induct)
  case less
  from switch_step_ok [OF less.prems, of ct]
  obtain r where r: "switch_step P ct (pos, t, g, st) = Some r" "step_ok P code g st r"
    by (rule returnsE)
  show ?case
  proof (cases r)
    case (Inr out)
    then show ?thesis using r by (subst dispatch.simps) (simp add: step_ok_def)
  next
    case (Inl c)
    obtain p t' g' st' where c: "c = (p, t', g', st')" by (metis prod_cases4)
    then have ok: "cfg_ok code (p, t', g', st')" "g' < g" "framed st st'" "effects_ok P True st st'"
      using r Inl by (auto simp: step_ok_def)
    have "nat g' < nat g" using ok(1,2) by (auto simp: cfg_ok_def)
    then have "returns (dispatch P ct (p, t', g', st')) (end_ok P g st)"
      using less.hyps ok(1) returns_mono end_ok_trans [OF ok(3,4) less_imp_le [OF ok(2)]] by blast
    then show ?thesis using r Inl c by (subst dispatch.simps) simp
  qed
qed

lemma initial_cfg:
  "0 \<le> gas m \<Longrightarrow>
   cfg_ok code (0, 0, gas m, (ExecutionState P m r h code)\<lparr>analysis := analyze r code\<rparr>)"
  by (simp add: cfg_ok_def ExecutionState_def memory_new_inv starts_from.here)

theorem execute_returns:
  assumes "0 \<le> gas m"
  shows "returns (execute P cgoto h r m code) (vm_ok P h m)"
proof -
  let ?st = "(ExecutionState P m r h code)\<lparr>analysis := analyze r code\<rparr>"
  let ?ct = "get_baseline_cost_table r"
  have rev: "st_rev ?st = r" by (simp add: ExecutionState_def)
  have cfg: "cfg_ok code (0, 0, gas m, ?st)" by (rule initial_cfg [OF assms])
  obtain g' st' where d: "dispatch P ?ct (0, 0, gas m, ?st) = Some (g', st')"
    and e: "end_ok P (gas m) ?st (g', st')"
    using dispatch_returns [OF cfg, of ?ct]
    by (fastforce elim!: returnsE)
  have out: "output_ok st'" using e by (simp add: end_ok_def)
  then obtain bs where bs: "(if output_size st' \<noteq> 0
      then mem_read (memory st') (output_offset st') (output_size st') else Some []) = Some bs"
    using mem_read_in [of "output_offset st'" "output_size st'" "memory st'"]
    by (cases "output_size st' = 0") (auto simp: output_ok_def)
  have asrt: "output_size st' \<noteq> 0 \<or> output_offset st' = 0" using out by (auto simp: output_ok_def split: if_splits)
  have run: "execute P cgoto h r m code = Some (make_result (status st')
      (if status st' = ZVMC_SUCCESS \<or> status st' = ZVMC_REVERT then g' else 0)
      (if status st' = ZVMC_SUCCESS then gas_refund st' else 0) bs, host st')"
    unfolding execute_def execute_state_def Let_def dispatch_cgoto_eq rev if_cancel d bind.bind_lunit
      prod.case bs using asrt by simp
  show ?thesis using e assms bs unfolding run
    by (auto simp: vm_ok_def make_result_def end_ok_def completes_def
        ExecutionState_def intro: earns_forfeited split: if_splits)
qed

end

end
