(* ===== verification/Zvm_Advanced.thy ===== *)
theory Zvm_Advanced
  imports Zvm_Advanced_Analysis Zvm_Baseline
begin

text \<open>
  The Advanced interpreter (\<open>lib/zvmone/advanced_instructions.cpp\<close>,
  \<open>lib/zvmone/advanced_execution.cpp\<close> and \<open>AdvancedExecutionState\<close> of
  \<open>lib/zvmone/advanced_analysis.hpp\<close>): the state, the instruction functions and the execution
  loop.  An instruction pointer is an index into the instructions of the analysis; \<open>None\<close> is
  the null pointer that ends the loop.
\<close>

section \<open>The execution state\<close>

text \<open>
  \<open>AdvancedExecutionState\<close>: the inherited state is \<open>base\<close>, the stack is the number of its
  items, and \<open>adv_analysis\<close> is the pointer \<open>analysis.advanced\<close>.
\<close>

record 'h adv_state =
  base :: "'h exec_state"
  adv_gas_left :: int
  adv_stack :: stack_top
  current_block_cost :: int
  adv_analysis :: "AdvancedCodeAnalysis option"

definition AdvancedExecutionState ::
  "'h platform \<Rightarrow> message \<Rightarrow> revision \<Rightarrow> 'h \<Rightarrow> bytes \<Rightarrow> 'h adv_state" where
  "AdvancedExecutionState P m r h code =
     \<lparr>base = ExecutionState P m r h code, adv_gas_left = gas m, adv_stack = 0,
      current_block_cost = 0, adv_analysis = None\<rparr>"

definition adv_reset :: "'h adv_state \<Rightarrow> message \<Rightarrow> revision \<Rightarrow> 'h \<Rightarrow> bytes \<Rightarrow> 'h adv_state" where
  "adv_reset s m r h code =
     s\<lparr>base := reset (base s) m r h code, adv_gas_left := gas m, adv_stack := 0,
       adv_analysis := None, current_block_cost := 0\<rparr>"

definition adv_exit :: "status_code \<Rightarrow> 'h adv_state \<Rightarrow> nat option \<times> 'h adv_state" where
  "adv_exit c s = (None, s\<lparr>base := (base s)\<lparr>status := c\<rparr>\<rparr>)"

definition adv_push :: "uint256 \<Rightarrow> 'h adv_state \<Rightarrow> 'h adv_state option" where
  "adv_push v s = do {
     (sp, t) \<leftarrow> stk_push (stack_space (base s)) (adv_stack s) v;
     Some (s\<lparr>base := (base s)\<lparr>stack_space := sp\<rparr>, adv_stack := t\<rparr>) }"

definition adv_pop :: "'h adv_state \<Rightarrow> (uint256 \<times> 'h adv_state) option" where
  "adv_pop s = do {
     (x, t) \<leftarrow> stk_pop (stack_space (base s)) (adv_stack s);
     Some (x, s\<lparr>adv_stack := t\<rparr>) }"

section \<open>Reading the argument\<close>

fun arg_number :: "InstructionArgument \<Rightarrow> int option" where
  "arg_number (Arg_number n) = Some n"
| "arg_number _ = None"

fun arg_block :: "InstructionArgument \<Rightarrow> BlockInfo option" where
  "arg_block (Arg_block b) = Some b"
| "arg_block _ = None"

fun arg_small :: "InstructionArgument \<Rightarrow> uint64 option" where
  "arg_small (Arg_small_push_value v) = Some v"
| "arg_small _ = None"

fun arg_pointer :: "InstructionArgument \<Rightarrow> nat option" where
  "arg_pointer (Arg_push_value i) = Some i"
| "arg_pointer _ = None"

section \<open>The generic implementations\<close>

text \<open>\<open>instr::core::impl<Op>\<close>, and the stack height adjustment behind it.\<close>

definition core_impl :: "nat \<Rightarrow> op_id option" where
  "core_impl Op = (case map_of MAP_OPCODES Op of Some i \<Rightarrow> i | None \<Rightarrow> None)"

definition adjust_stack :: "nat \<Rightarrow> 'h adv_state \<Rightarrow> 'h adv_state" where
  "adjust_stack Op s = s\<lparr>adv_stack := nat (int (adv_stack s) + stack_height_change (traits ! Op))\<rparr>"

definition impl_stack :: "'h platform \<Rightarrow> nat \<Rightarrow> stack_op \<Rightarrow> 'h adv_state \<Rightarrow> 'h adv_state option" where
  "impl_stack P Op i s = do {
     sp \<leftarrow> stack_impl P i (stack_space (base s)) (adv_stack s);
     Some (adjust_stack Op (s\<lparr>base := (base s)\<lparr>stack_space := sp\<rparr>\<rparr>)) }"

definition impl_state :: "'h platform \<Rightarrow> nat \<Rightarrow> state_op \<Rightarrow> 'h adv_state \<Rightarrow> 'h adv_state option" where
  "impl_state P Op i s = do {
     st \<leftarrow> state_impl i P (adv_stack s) (base s);
     Some (adjust_stack Op (s\<lparr>base := st\<rparr>)) }"

definition impl_result ::
  "'h platform \<Rightarrow> nat \<Rightarrow> result_op \<Rightarrow> 'h adv_state \<Rightarrow> (status_code \<times> 'h adv_state) option" where
  "impl_result P Op i s = do {
     ((c, g), st) \<leftarrow> result_impl i P (adv_stack s) (adv_gas_left s) (base s);
     Some (c, adjust_stack Op (s\<lparr>base := st, adv_gas_left := g\<rparr>)) }"

definition impl_term :: "'h platform \<Rightarrow> term_op \<Rightarrow> 'h adv_state \<Rightarrow> (result \<times> 'h adv_state) option" where
  "impl_term P i s = do {
     (r, st) \<leftarrow> term_impl i P (adv_stack s) (adv_gas_left s) (base s);
     Some (r, s\<lparr>base := st\<rparr>) }"

text \<open>
  The wrappers \<open>op<...>\<close>, one per return type.  The wrapper for instructions that access the
  code position has no definition in the source.
\<close>

type_synonym 'h adv_outcome = "(nat option \<times> 'h adv_state) option"

definition op_impl :: "'h platform \<Rightarrow> nat \<Rightarrow> nat \<Rightarrow> 'h adv_state \<Rightarrow> 'h adv_outcome" where
  "op_impl P Op k s =
     (case core_impl Op of
        Some (Stack_op i) \<Rightarrow> do { s \<leftarrow> impl_stack P Op i s; Some (Some (k + 1), s) }
      | Some (State_op i) \<Rightarrow> do { s \<leftarrow> impl_state P Op i s; Some (Some (k + 1), s) }
      | Some (Result_op i) \<Rightarrow> do {
          (c, s) \<leftarrow> impl_result P Op i s;
          if c \<noteq> ZVMC_SUCCESS then Some (adv_exit c s) else Some (Some (k + 1), s) }
      | Some (Term_op i) \<Rightarrow> do {
          ((c, g), s) \<leftarrow> impl_term P i s;
          Some (adv_exit c (s\<lparr>adv_gas_left := g\<rparr>)) }
      | _ \<Rightarrow> None)"

section \<open>The Advanced implementations\<close>

text \<open>
  \<open>op_sstore\<close>, \<open>op_call<Op>\<close> and \<open>op_create<Op>\<close> have the same body: the gas of the
  instructions that follow in the block is given back while the instruction runs.
\<close>

definition op_corrected :: "'h platform \<Rightarrow> nat \<Rightarrow> nat \<Rightarrow> Instruction \<Rightarrow> 'h adv_state \<Rightarrow> 'h adv_outcome" where
  "op_corrected P Op k instr s =
     (case core_impl Op of
        Some (Result_op i) \<Rightarrow> do {
          number \<leftarrow> arg_number (arg instr);
          let gas_left_correction = current_block_cost s - number;
          let s = s\<lparr>adv_gas_left := adv_gas_left s + gas_left_correction\<rparr>;
          (c, s) \<leftarrow> impl_result P Op i s;
          if c \<noteq> ZVMC_SUCCESS then Some (adv_exit c s)
          else do {
            let s = s\<lparr>adv_gas_left := adv_gas_left s - gas_left_correction\<rparr>;
            if adv_gas_left s < 0 then Some (adv_exit ZVMC_OUT_OF_GAS s)
            else Some (Some (k + 1), s) } }
      | _ \<Rightarrow> None)"

definition op_sstore :: "'h platform \<Rightarrow> nat \<Rightarrow> Instruction \<Rightarrow> 'h adv_state \<Rightarrow> 'h adv_outcome" where
  "op_sstore P = op_corrected P OP_SSTORE"

definition op_call :: "'h platform \<Rightarrow> nat \<Rightarrow> nat \<Rightarrow> Instruction \<Rightarrow> 'h adv_state \<Rightarrow> 'h adv_outcome" where
  "op_call P Op = op_corrected P Op"

definition op_create :: "'h platform \<Rightarrow> nat \<Rightarrow> nat \<Rightarrow> Instruction \<Rightarrow> 'h adv_state \<Rightarrow> 'h adv_outcome" where
  "op_create P Op = op_corrected P Op"

definition opx_beginblock :: "nat \<Rightarrow> Instruction \<Rightarrow> 'h adv_state \<Rightarrow> 'h adv_outcome" where
  "opx_beginblock k instr s = do {
     block \<leftarrow> arg_block (arg instr);
     let s = s\<lparr>adv_gas_left := adv_gas_left s - bi_gas_cost block\<rparr>;
     if adv_gas_left s < 0 then Some (adv_exit ZVMC_OUT_OF_GAS s)
     else if int (adv_stack s) < bi_stack_req block then Some (adv_exit ZVMC_STACK_UNDERFLOW s)
     else if int (adv_stack s) + bi_stack_max_growth block > int limit
     then Some (adv_exit ZVMC_STACK_OVERFLOW s)
     else Some (Some (k + 1), s\<lparr>current_block_cost := bi_gas_cost block\<rparr>) }"

definition op_jump :: "'h adv_state \<Rightarrow> 'h adv_outcome" where
  "op_jump s = do {
     (dst, s) \<leftarrow> adv_pop s;
     a \<leftarrow> adv_analysis s;
     if 2 ^ 31 - 1 < unat dst then Some (adv_exit ZVMC_BAD_JUMP_DESTINATION s)
     else do {
       let pc = find_jumpdest a (int32 (uint dst));
       if pc < 0 then Some (adv_exit ZVMC_BAD_JUMP_DESTINATION s)
       else Some (Some (nat pc), s) } }"

definition op_jumpi :: "nat \<Rightarrow> Instruction \<Rightarrow> 'h adv_state \<Rightarrow> 'h adv_outcome" where
  "op_jumpi k instr s = do {
     c \<leftarrow> stk_at (stack_space (base s)) (adv_stack s) 1;
     if c \<noteq> 0
     then do {
       (k, s) \<leftarrow> op_jump s;
       (x, s) \<leftarrow> adv_pop s;
       Some (k, s) }
     else do {
       (x, s) \<leftarrow> adv_pop s;
       (y, s) \<leftarrow> adv_pop s;
       opx_beginblock k instr s } }"

definition op_pc :: "nat \<Rightarrow> Instruction \<Rightarrow> 'h adv_state \<Rightarrow> 'h adv_outcome" where
  "op_pc k instr s = do {
     number \<leftarrow> arg_number (arg instr);
     s \<leftarrow> adv_push (u256_of_int64 number) s;
     Some (Some (k + 1), s) }"

definition op_gas :: "nat \<Rightarrow> Instruction \<Rightarrow> 'h adv_state \<Rightarrow> 'h adv_outcome" where
  "op_gas k instr s = do {
     number \<leftarrow> arg_number (arg instr);
     let correction = current_block_cost s - number;
     s \<leftarrow> adv_push (u256_of_int64 (adv_gas_left s + correction)) s;
     Some (Some (k + 1), s) }"

definition op_push_small :: "nat \<Rightarrow> Instruction \<Rightarrow> 'h adv_state \<Rightarrow> 'h adv_outcome" where
  "op_push_small k instr s = do {
     v \<leftarrow> arg_small (arg instr);
     s \<leftarrow> adv_push (ucast v) s;
     Some (Some (k + 1), s) }"

definition op_push_full :: "nat \<Rightarrow> Instruction \<Rightarrow> 'h adv_state \<Rightarrow> 'h adv_outcome" where
  "op_push_full k instr s = do {
     i \<leftarrow> arg_pointer (arg instr);
     a \<leftarrow> adv_analysis s;
     if i < length (push_values a)
     then do { s \<leftarrow> adv_push (push_values a ! i) s; Some (Some (k + 1), s) }
     else None }"

definition op_undefined :: "'h adv_state \<Rightarrow> 'h adv_outcome" where
  "op_undefined s = Some (adv_exit ZVMC_UNDEFINED_INSTRUCTION s)"

text \<open>The call through the function pointer of an instruction.\<close>

fun exec_instr :: "'h platform \<Rightarrow> exec_fn \<Rightarrow> nat \<Rightarrow> Instruction \<Rightarrow> 'h adv_state \<Rightarrow> 'h adv_outcome" where
  "exec_instr P Fn_null k instr s = None"
| "exec_instr P (Op_impl Op) k instr s = op_impl P Op k s"
| "exec_instr P Op_sstore k instr s = op_sstore P k instr s"
| "exec_instr P Opx_beginblock k instr s = opx_beginblock k instr s"
| "exec_instr P Op_jump k instr s = op_jump s"
| "exec_instr P Op_jumpi k instr s = op_jumpi k instr s"
| "exec_instr P Op_pc k instr s = op_pc k instr s"
| "exec_instr P Op_gas k instr s = op_gas k instr s"
| "exec_instr P Op_push_small k instr s = op_push_small k instr s"
| "exec_instr P Op_push_full k instr s = op_push_full k instr s"
| "exec_instr P (Op_call Op) k instr s = op_call P Op k instr s"
| "exec_instr P (Op_create Op) k instr s = op_create P Op k instr s"
| "exec_instr P Op_undefined k instr s = op_undefined s"

section \<open>The execution loop\<close>

definition adv_step :: "'h platform \<Rightarrow> nat \<Rightarrow> 'h adv_state \<Rightarrow> 'h adv_outcome" where
  "adv_step P k s = do {
     a \<leftarrow> adv_analysis s;
     if k < length (instrs a) then exec_instr P (fn (instrs a ! k)) k (instrs a ! k) s else None }"

partial_function (option) adv_run :: "'h platform \<Rightarrow> nat \<Rightarrow> 'h adv_state \<Rightarrow> 'h adv_state option" where
  [code]: "adv_run plat k s = do {
     (k', s) \<leftarrow> adv_step plat k s;
     (case k' of None \<Rightarrow> Some s | Some k \<Rightarrow> adv_run plat k s) }"

definition adv_execute_state ::
  "'h platform \<Rightarrow> 'h adv_state \<Rightarrow> AdvancedCodeAnalysis \<Rightarrow> (zvmc_result \<times> 'h adv_state) option" where
  "adv_execute_state P s a = do {
     let s = s\<lparr>adv_analysis := Some a\<rparr>;
     s \<leftarrow> adv_run P 0 s;
     let st = base s;
     let gas_left = (if status st = ZVMC_SUCCESS \<or> status st = ZVMC_REVERT then adv_gas_left s else 0);
     let refund = (if status st = ZVMC_SUCCESS then gas_refund st else 0);
     if \<not> (output_size st \<noteq> 0 \<or> output_offset st = 0) then None
     else do {
       out \<leftarrow> (if output_size st \<noteq> 0
              then mem_read (memory st) (output_offset st) (output_size st) else Some []);
       Some (make_result (status st) gas_left refund out, s) } }"

definition adv_execute ::
  "'h platform \<Rightarrow> 'h \<Rightarrow> revision \<Rightarrow> message \<Rightarrow> bytes \<Rightarrow> (zvmc_result \<times> 'h) option" where
  "adv_execute P h r m code = do {
     a \<leftarrow> adv_analyze r code;
     (result, s) \<leftarrow> adv_execute_state P (AdvancedExecutionState P m r h code) a;
     Some (result, host (base s)) }"

end
