(* ===== verification/Zvm_Neutral.thy ===== *)
theory Zvm_Neutral
  imports Zvm_Analysis
begin

text \<open>
  Two facts that relate runs of one instruction in different interpreters: the core
  instructions do not look at the code analysis (except those that move in the code), and
  most of them treat the gas only as an amount to be charged.
\<close>

section \<open>The code analysis\<close>

abbreviation with_analysis :: "code_analysis \<Rightarrow> 'h exec_state \<Rightarrow> 'h exec_state" where
  "with_analysis a st \<equiv> st\<lparr>analysis := a\<rparr>"

named_theorems neutral_simps \<open>moving an update of the analysis out of a computation\<close>

lemma map_option_bind [neutral_simps]: "map_option f (m \<bind> k) = m \<bind> (\<lambda>x. map_option f (k x))"
  by (cases m) simp_all

lemma bind_map_option [neutral_simps]: "map_option f m \<bind> k = m \<bind> (\<lambda>x. k (f x))"
  by (cases m) simp_all

lemma bind_if [neutral_simps]:
  "Option.bind (if b then x else y) k = (if b then Option.bind x k else Option.bind y k)"
  by simp

lemma map_option_if [neutral_simps]:
  "map_option f (if b then x else y) = (if b then map_option f x else map_option f y)"
  by simp

lemma with_analysis_if [neutral_simps]:
  "(if b then x else y)\<lparr>analysis := a\<rparr> = (if b then with_analysis a x else with_analysis a y)"
  by simp

lemma map_option_prod [neutral_simps]:
  "map_option f (case p of (a, b) \<Rightarrow> k a b) = (case p of (a, b) \<Rightarrow> map_option f (k a b))"
  by (simp add: split_def)

lemma with_analysis_updates [neutral_simps]:
  "(with_analysis a st)\<lparr>stack_space := sp\<rparr> = with_analysis a (st\<lparr>stack_space := sp\<rparr>)"
  "(with_analysis a st)\<lparr>memory := m\<rparr> = with_analysis a (st\<lparr>memory := m\<rparr>)"
  "(with_analysis a st)\<lparr>host := h\<rparr> = with_analysis a (st\<lparr>host := h\<rparr>)"
  "(with_analysis a st)\<lparr>return_data := d\<rparr> = with_analysis a (st\<lparr>return_data := d\<rparr>)"
  "(with_analysis a st)\<lparr>gas_refund := n\<rparr> = with_analysis a (st\<lparr>gas_refund := n\<rparr>)"
  "(with_analysis a st)\<lparr>m_tx := tx\<rparr> = with_analysis a (st\<lparr>m_tx := tx\<rparr>)"
  "(with_analysis a st)\<lparr>output_size := i\<rparr> = with_analysis a (st\<lparr>output_size := i\<rparr>)"
  "(with_analysis a st)\<lparr>output_offset := i\<rparr> = with_analysis a (st\<lparr>output_offset := i\<rparr>)"
  "(with_analysis a st)\<lparr>status := s\<rparr> = with_analysis a (st\<lparr>status := s\<rparr>)"
  by simp_all

lemma with_analysis_stack [neutral_simps]:
  "st_at (with_analysis a st) t i = st_at st t i"
  "st_pop (with_analysis a st) t = st_pop st t"
  "st_set (with_analysis a st) t i v = map_option (with_analysis a) (st_set st t i v)"
  "st_push (with_analysis a st) t v = map_option (apfst (with_analysis a)) (st_push st t v)"
  by (simp_all add: st_at_def st_pop_def st_set_def st_push_def neutral_simps split_def)

lemma with_analysis_memory [neutral_simps]:
  "st_check_memory g (with_analysis a st) off sz =
     map_option (apsnd (apsnd (with_analysis a))) (st_check_memory g st off sz)"
  "st_check_memory_size g (with_analysis a st) off n =
     map_option (apsnd (apsnd (with_analysis a))) (st_check_memory_size g st off n)"
  "st_write (with_analysis a st) i bs = map_option (with_analysis a) (st_write st i bs)"
  by (simp_all add: st_check_memory_def st_check_memory_size_def st_write_def neutral_simps split_def)

lemma with_analysis_host [neutral_simps]:
  "access_account_cost P addr g (with_analysis a st) =
     apsnd (apsnd (with_analysis a)) (access_account_cost P addr g st)"
  "get_tx_context P (with_analysis a st) = apsnd (with_analysis a) (get_tx_context P st)"
  "in_static_mode (with_analysis a st) = in_static_mode st"
  by (simp_all add: access_account_cost_def get_tx_context_def in_static_mode_def Let_def split_def)

lemma with_analysis_topics [neutral_simps]:
  "pop_topics (with_analysis a st) t n = pop_topics st t n"
  by (induction n arbitrary: t) (simp_all add: neutral_simps split_def)

declare Let_def [neutral_simps] split_def [neutral_simps] bind_assoc [neutral_simps]

lemma state_impl_analysis:
  "state_impl i P t (with_analysis a st) = map_option (with_analysis a) (state_impl i P t st)"
  by (cases i)
     (simp_all add: state_op_defs push_op_def push_tx_def core_calldataload_def core_blockhash_def
        neutral_simps cong: if_cong)

lemma term_impl_analysis:
  "term_impl i P t g (with_analysis a st) = map_option (apsnd (with_analysis a)) (term_impl i P t g st)"
  by (cases i) (simp_all add: core_stop_impl_def core_return_impl_def neutral_simps cong: if_cong)

lemma core_ops_analysis [neutral_simps]:
  "core_exp P t g (with_analysis a st) = map_option (apsnd (with_analysis a)) (core_exp P t g st)"
  "core_keccak256 P t g (with_analysis a st) = map_option (apsnd (with_analysis a)) (core_keccak256 P t g st)"
  "account_query f P t g (with_analysis a st) = map_option (apsnd (with_analysis a)) (account_query f P t g st)"
  "core_mload P t g (with_analysis a st) = map_option (apsnd (with_analysis a)) (core_mload P t g st)"
  "core_mstore P t g (with_analysis a st) = map_option (apsnd (with_analysis a)) (core_mstore P t g st)"
  "core_mstore8 P t g (with_analysis a st) = map_option (apsnd (with_analysis a)) (core_mstore8 P t g st)"
  "core_gas P t g (with_analysis a st) = map_option (apsnd (with_analysis a)) (core_gas P t g st)"
  "core_log n P t g (with_analysis a st) = map_option (apsnd (with_analysis a)) (core_log n P t g st)"
  "core_sload P t g (with_analysis a st) = map_option (apsnd (with_analysis a)) (core_sload P t g st)"
  by (simp_all add: core_exp_def core_keccak256_def account_query_def core_mload_def core_mstore_def
      core_mstore8_def core_gas_def core_log_def core_sload_def neutral_simps cong: if_cong)

lemma copy_ops_analysis [neutral_simps]:
  "buffer_copy buf P t g (with_analysis a st) = map_option (apsnd (with_analysis a)) (buffer_copy buf P t g st)"
  "core_returndatacopy P t g (with_analysis a st) =
     map_option (apsnd (with_analysis a)) (core_returndatacopy P t g st)"
  "core_extcodecopy P t g (with_analysis a st) =
     map_option (apsnd (with_analysis a)) (core_extcodecopy P t g st)"
  by (simp_all add: buffer_copy_def core_returndatacopy_def core_extcodecopy_def neutral_simps
      cong: if_cong)

lemma core_sstore_analysis [neutral_simps]:
  "core_sstore P t g (with_analysis a st) = map_option (apsnd (with_analysis a)) (core_sstore P t g st)"
  by (simp add: core_sstore_def neutral_simps cong: if_cong)

lemma call_host_analysis [neutral_simps]:
  "call_host x v m i n P t g (with_analysis a st) =
     map_option (apsnd (with_analysis a)) (call_host x v m i n P t g st)"
  by (simp add: call_host_def neutral_simps cong: if_cong)

lemma call_impl_analysis [neutral_simps]:
  "call_impl Op P t g (with_analysis a st) = map_option (apsnd (with_analysis a)) (call_impl Op P t g st)"
  by (simp add: call_impl_def neutral_simps cong: if_cong)

lemma create_host_analysis [neutral_simps]:
  "create_host Op e s i n P t g (with_analysis a st) =
     map_option (apsnd (with_analysis a)) (create_host Op e s i n P t g st)"
  by (simp add: create_host_def neutral_simps cong: if_cong)

lemma create_impl_analysis [neutral_simps]:
  "create_impl Op P t g (with_analysis a st) = map_option (apsnd (with_analysis a)) (create_impl Op P t g st)"
  by (simp add: create_impl_def neutral_simps cong: if_cong)

text \<open>All instructions with gas leave the analysis alone.\<close>

theorem result_impl_analysis:
  "result_impl i P t g (with_analysis a st) = map_option (apsnd (with_analysis a)) (result_impl i P t g st)"
  by (cases i)
     (simp_all add: core_ops_analysis copy_ops_analysis core_sstore_analysis
        call_impl_analysis create_impl_analysis core_balance_def core_extcodesize_def
        core_extcodehash_def core_calldatacopy_def core_codecopy_def)

section \<open>Gas\<close>

text \<open>
  A computation that uses the gas only to be charged: with \<open>d\<close> less gas it returns the same
  state and \<open>d\<close> less gas if that is enough, and fails otherwise.
\<close>

definition charged :: "int \<Rightarrow> int \<Rightarrow> (result \<times> 'h exec_state) option \<Rightarrow> (result \<times> 'h exec_state) option \<Rightarrow> bool" where
  "charged g d x y \<longleftrightarrow> (\<forall>s g' st'. x = Some ((s, g'), st') \<longrightarrow>
     (if s = ZVMC_SUCCESS
      then g' \<le> g \<and> (if d \<le> g' then y = Some ((ZVMC_SUCCESS, g' - d), st')
                      else \<exists>g2 st2. y = Some ((ZVMC_OUT_OF_GAS, g2), st2))
      else \<exists>s2 g2 st2. y = Some ((s2, g2), st2) \<and> s2 \<noteq> ZVMC_SUCCESS))"

definition gas_only :: "(int \<Rightarrow> (result \<times> 'h exec_state) option) \<Rightarrow> bool" where
  "gas_only f \<longleftrightarrow> (\<forall>g d. 0 \<le> d \<longrightarrow> d \<le> g \<longrightarrow> charged g d (f g) (f (g - d)))"

named_theorems gas_only_intros \<open>rules for computations that only charge gas\<close>

lemma charged_success: "d \<le> g \<Longrightarrow> charged g d (Some ((ZVMC_SUCCESS, g), st)) (Some ((ZVMC_SUCCESS, g - d), st))"
  by (simp add: charged_def)

lemma charged_failure: "s \<noteq> ZVMC_SUCCESS \<Longrightarrow> s' \<noteq> ZVMC_SUCCESS \<Longrightarrow>
  charged g d (Some ((s, g1), st1)) (Some ((s', g2), st2))"
  by (simp add: charged_def)

lemma charged_mono:
  assumes "charged g1 d x y" and "g1 \<le> g"
  shows "charged g d x y"
proof (cases x)
  case (Some r)
  then show ?thesis using assms by (cases r; cases "fst r") (auto simp: charged_def)
qed (simp add: charged_def)

text \<open>Without enough gas for the rest of the computation.\<close>

lemma charged_out_of_gas:
  assumes "charged g1 0 x x" and "g1 < d" "g1 \<le> g"
  shows "charged g d x (Some ((ZVMC_OUT_OF_GAS, g2), st2))"
  using assms unfolding charged_def by fastforce

lemma gas_onlyD: "gas_only f \<Longrightarrow> 0 \<le> d \<Longrightarrow> d \<le> g \<Longrightarrow> charged g d (f g) (f (g - d))"
  by (simp add: gas_only_def)

lemma gas_only_refl: "gas_only f \<Longrightarrow> 0 \<le> g \<Longrightarrow> charged g 0 (f g) (f g)"
  using gas_onlyD [of f 0 g] by simp

lemma gas_only_success [gas_only_intros]: "gas_only (\<lambda>g. Some ((ZVMC_SUCCESS, g), st))"
  by (simp add: gas_only_def charged_success)

lemma gas_only_failure [gas_only_intros]: "s \<noteq> ZVMC_SUCCESS \<Longrightarrow> gas_only (\<lambda>g. Some ((s, f g), st))"
  by (simp add: gas_only_def charged_failure)

lemma gas_only_bind [gas_only_intros]: "(\<And>x. gas_only (f x)) \<Longrightarrow> gas_only (\<lambda>g. m \<bind> (\<lambda>x. f x g))"
proof (cases m)
  case None
  then show ?thesis by (simp add: gas_only_def charged_def)
qed simp

lemma gas_only_if [gas_only_intros]:
  "(b \<Longrightarrow> gas_only f) \<Longrightarrow> (\<not> b \<Longrightarrow> gas_only f') \<Longrightarrow> gas_only (\<lambda>g. if b then f g else f' g)"
  by (cases b) simp_all

lemma gas_only_charge:
  assumes f: "gas_only f" and c: "0 \<le> c"
  shows "gas_only (\<lambda>g. if g - c < 0 then Some ((ZVMC_OUT_OF_GAS, g - c), st) else f (g - c))"
  unfolding gas_only_def
proof (intro allI impI)
  fix g d :: int
  assume d: "0 \<le> d" "d \<le> g"
  have e: "g - d - c = g - c - d" by simp
  consider "g - c < 0" | "0 \<le> g - c" "g - c < d" | "d \<le> g - c" by linarith
  then show "charged g d (if g - c < 0 then Some ((ZVMC_OUT_OF_GAS, g - c), st) else f (g - c))
      (if g - d - c < 0 then Some ((ZVMC_OUT_OF_GAS, g - d - c), st) else f (g - d - c))"
  proof cases
    case 1
    then show ?thesis using d by (simp add: charged_failure)
  next
    case 2
    then show ?thesis
      using charged_out_of_gas [OF gas_only_refl [OF f 2(1)] 2(2)] c by simp
  next
    case 3
    then show ?thesis
      using charged_mono [OF gas_onlyD [OF f d(1) 3]] c d unfolding e by simp
  qed
qed

text \<open>The memory check.\<close>

lemma grow_memory_shift:
  assumes "grow_memory g m n = Some (g', m')"
  shows "0 \<le> g' - d \<Longrightarrow> 0 \<le> d \<Longrightarrow> grow_memory (g - d) m n = Some (g' - d, m')"
    and "g' - d < 0 \<Longrightarrow> grow_memory (g - d) m n = Some (g' - d, m)"
  using assms by (auto simp: grow_memory_def Let_def split: if_splits option.splits bind_splits)

lemma check_memory_size_shift:
  assumes "check_memory_size g m off n = Some (ok, g', m')" and "0 \<le> d" "d \<le> g"
  shows "if ok \<and> d \<le> g' then check_memory_size (g - d) m off n = Some (True, g' - d, m')
     else \<exists>g2 m2. check_memory_size (g - d) m off n = Some (False, g2, m2)"
proof (cases "(limb off 3 OR limb off 2 OR limb off 1) \<noteq> 0 \<or> unat (limb off 0) > max_buffer_size
    \<or> (to_size off + n) mod 2 ^ 64 \<le> m_size m")
  case True
  then show ?thesis using assms by (auto simp: check_memory_size_def Let_def)
next
  case False
  then obtain m1 where "grow_memory g m ((to_size off + n) mod 2 ^ 64) = Some (g', m1)"
    "ok = (0 \<le> g')" "m1 = m'"
    using assms(1) by (auto simp: check_memory_size_def Let_def split: bind_splits)
  then show ?thesis
    using False grow_memory_shift [of g m _ g' m' d] assms(2)
    by (auto simp: check_memory_size_def Let_def)
qed

lemma check_memory_shift:
  assumes "check_memory g m off sz = Some (ok, g', m')" and "0 \<le> d" "d \<le> g"
  shows "if ok \<and> d \<le> g' then check_memory (g - d) m off sz = Some (True, g' - d, m')
     else \<exists>g2 m2. check_memory (g - d) m off sz = Some (False, g2, m2)"
  using assms check_memory_size_shift [of g m off "to_size sz" ok g' m' d]
  unfolding check_memory_def by (auto split: if_splits)

lemma charged_check:
  assumes K: "\<And>m. gas_only (\<lambda>g. K g (st\<lparr>memory := m\<rparr>))" and d: "0 \<le> d" "d \<le> g"
    and x: "x = Some (ok, g', m')" "ok \<Longrightarrow> 0 \<le> g' \<and> g' \<le> g"
    and y: "if ok \<and> d \<le> g' then y = Some (True, g' - d, m') else \<exists>g2 m2. y = Some (False, g2, m2)"
  shows "charged g d
    (x \<bind> (\<lambda>(ok, g, m). if \<not> ok then Some ((ZVMC_OUT_OF_GAS, g), st\<lparr>memory := m\<rparr>) else K g (st\<lparr>memory := m\<rparr>)))
    (y \<bind> (\<lambda>(ok, g, m). if \<not> ok then Some ((ZVMC_OUT_OF_GAS, g), st\<lparr>memory := m\<rparr>) else K g (st\<lparr>memory := m\<rparr>)))"
proof (cases "ok \<and> d \<le> g'")
  case True
  then show ?thesis using x y charged_mono [OF gas_onlyD [OF K d(1), of g' m']] by simp
next
  case False
  then obtain g2 m2 where "y = Some (False, g2, m2)" using y by auto
  then show ?thesis
    using False x charged_out_of_gas [OF gas_only_refl [OF K, of g' m']]
    by (cases ok) (simp_all add: charged_failure)
qed

lemma gas_only_check_memory:
  assumes K: "\<And>m. gas_only (\<lambda>g. K g (st\<lparr>memory := m\<rparr>))" and inv: "mem_inv (memory st)"
  shows "gas_only (\<lambda>g. st_check_memory g st off sz \<bind>
    (\<lambda>(ok, g, st). if \<not> ok then Some ((ZVMC_OUT_OF_GAS, g), st) else K g st))"
  unfolding gas_only_def
proof (intro allI impI)
  fix g d :: int
  assume d: "0 \<le> d" "d \<le> g"
  then have g: "0 \<le> g" by simp
  obtain ok g' m' where c: "check_memory g (memory st) off sz = Some (ok, g', m')"
    and ok: "checked g (memory st) (to_size off) (to_size sz) (ok, g', m')"
    using check_memory_checked [OF inv g, of off sz] by fastforce
  have "ok \<Longrightarrow> 0 \<le> g' \<and> g' \<le> g" using ok by (simp add: checked_def)
  then show "charged g d
      (st_check_memory g st off sz \<bind>
        (\<lambda>(ok, g, st). if \<not> ok then Some ((ZVMC_OUT_OF_GAS, g), st) else K g st))
      (st_check_memory (g - d) st off sz \<bind>
        (\<lambda>(ok, g, st). if \<not> ok then Some ((ZVMC_OUT_OF_GAS, g), st) else K g st))"
    using charged_check [of K st d g _ ok g' m', OF K d c _ check_memory_shift [OF c d]]
    by (simp add: st_check_memory_def split_def cong: if_cong)
qed

lemma gas_only_check_memory_size:
  assumes K: "\<And>m. gas_only (\<lambda>g. K g (st\<lparr>memory := m\<rparr>))" and inv: "mem_inv (memory st)"
    and n: "n \<le> max_buffer_size"
  shows "gas_only (\<lambda>g. st_check_memory_size g st off n \<bind>
    (\<lambda>(ok, g, st). if \<not> ok then Some ((ZVMC_OUT_OF_GAS, g), st) else K g st))"
  unfolding gas_only_def
proof (intro allI impI)
  fix g d :: int
  assume d: "0 \<le> d" "d \<le> g"
  then have g: "0 \<le> g" by simp
  obtain ok g' m' where c: "check_memory_size g (memory st) off n = Some (ok, g', m')"
    and ok: "checked g (memory st) (to_size off) n (ok, g', m')"
    using check_memory_size_checked [OF inv g n, of off] by fastforce
  have "ok \<Longrightarrow> 0 \<le> g' \<and> g' \<le> g" using ok by (simp add: checked_def)
  then show "charged g d
      (st_check_memory_size g st off n \<bind>
        (\<lambda>(ok, g, st). if \<not> ok then Some ((ZVMC_OUT_OF_GAS, g), st) else K g st))
      (st_check_memory_size (g - d) st off n \<bind>
        (\<lambda>(ok, g, st). if \<not> ok then Some ((ZVMC_OUT_OF_GAS, g), st) else K g st))"
    using charged_check [of K st d g _ ok g' m', OF K d c _ check_memory_size_shift [OF c d]]
    by (simp add: st_check_memory_size_def split_def cong: if_cong)
qed

lemma gas_only_exp:
  assumes "2 \<le> t" "t \<le> limit"
  shows "gas_only (\<lambda>g. core_exp P t g st)"
  unfolding core_exp_def using assms
  by (simp only: st_pop_in st_at_in bind.bind_lunit prod.case Let_def)
     (rule gas_only_charge, intro gas_only_intros, simp)

lemma gas_only_keccak256:
  assumes "2 \<le> t" "t \<le> limit" "mem_inv (memory st)"
  shows "gas_only (\<lambda>g. core_keccak256 P t g st)"
  unfolding core_keccak256_def using assms
  apply (simp only: st_pop_in st_at_in bind.bind_lunit prod.case Let_def)
  apply (rule gas_only_check_memory [OF gas_only_charge])
    apply (intro gas_only_intros)
   apply simp_all
  done

lemma gas_only_mload:
  assumes "1 \<le> t" "t \<le> limit" "mem_inv (memory st)"
  shows "gas_only (\<lambda>g. core_mload P t g st)"
  unfolding core_mload_def using assms
  apply (simp only: st_pop_in st_at_in bind.bind_lunit prod.case Let_def)
  apply (rule gas_only_check_memory_size)
    apply (intro gas_only_intros)
   apply (simp_all add: max_buffer_size_def)
  done

lemma gas_only_mstore:
  assumes "2 \<le> t" "t \<le> limit" "mem_inv (memory st)"
  shows "gas_only (\<lambda>g. core_mstore P t g st)" and "gas_only (\<lambda>g. core_mstore8 P t g st)"
  unfolding core_mstore_def core_mstore8_def using assms
   apply (simp_all only: st_pop_in st_at_in bind.bind_lunit prod.case Let_def)
   apply (rule gas_only_check_memory_size, intro gas_only_intros, simp_all add: max_buffer_size_def)
  apply (rule gas_only_check_memory_size, intro gas_only_intros, simp_all add: max_buffer_size_def)
  done

lemma gas_only_buffer_copy:
  assumes "3 \<le> t" "t \<le> limit" "mem_inv (memory st)"
  shows "gas_only (\<lambda>g. buffer_copy buf P t g st)"
  unfolding buffer_copy_def using assms
  apply (simp only: st_pop_in st_at_in bind.bind_lunit prod.case Let_def)
  apply (rule gas_only_check_memory [OF gas_only_charge])
    apply (intro gas_only_intros)
   apply simp_all
  done

lemma gas_only_returndatacopy:
  assumes "3 \<le> t" "t \<le> limit" "mem_inv (memory st)"
  shows "gas_only (\<lambda>g. core_returndatacopy P t g st)"
  unfolding core_returndatacopy_def using assms
  apply (simp only: st_pop_in st_at_in bind.bind_lunit prod.case Let_def)
  apply (rule gas_only_check_memory)
   apply (rule gas_only_if, rule gas_only_failure, simp)+
   apply (rule gas_only_charge, intro gas_only_intros)
   apply simp_all
  done

lemma gas_only_log:
  assumes "n + 2 \<le> t" "t \<le> limit" "mem_inv (memory st)"
  shows "gas_only (\<lambda>g. core_log n P t g st)"
  unfolding core_log_def using assms
  apply (intro gas_only_if)
   apply (rule gas_only_failure, simp)
  apply (simp only: st_pop_in st_at_in bind.bind_lunit prod.case Let_def)
  apply (rule gas_only_check_memory [OF gas_only_charge])
    apply (intro gas_only_intros)
   apply simp_all
  done

text \<open>The surcharge for a cold account or storage slot.\<close>

lemma gas_only_access_account:
  assumes "\<And>st. gas_only (\<lambda>g. K g st)"
  shows "gas_only (\<lambda>g. case access_account_cost P addr g st of
    (ok, g, st) \<Rightarrow> if \<not> ok then Some ((ZVMC_OUT_OF_GAS, g), st) else K g st)"
proof (cases "fst (host_access_account P (host st) addr)")
  case ZVMC_ACCESS_COLD
  then show ?thesis
    using gas_only_charge [OF assms, of additional_cold_account_access_cost]
    by (simp add: access_account_cost_eq Let_def cost_constants not_le cong: if_cong)
next
  case ZVMC_ACCESS_WARM
  then show ?thesis using assms by (simp add: access_account_cost_eq Let_def)
qed

lemma gas_only_account_query:
  assumes "1 \<le> t" "t \<le> limit"
  shows "gas_only (\<lambda>g. account_query f P t g st)"
  unfolding account_query_def using assms
  apply (simp only: st_pop_in st_at_in bind.bind_lunit prod.case Let_def)
  apply (rule gas_only_access_account, intro gas_only_intros)
  done

lemma gas_only_extcodecopy:
  assumes "4 \<le> t" "t \<le> limit" "mem_inv (memory st)"
  shows "gas_only (\<lambda>g. core_extcodecopy P t g st)"
  unfolding core_extcodecopy_def using assms
  apply (simp only: st_pop_in st_at_in bind.bind_lunit prod.case Let_def)
  apply (rule gas_only_check_memory [OF gas_only_charge])
    apply (rule gas_only_access_account, intro gas_only_intros)
   apply simp_all
  done

lemma gas_only_sload:
  assumes "1 \<le> t" "t \<le> limit"
  shows "gas_only (\<lambda>g. core_sload P t g st)"
proof -
  let ?acc = "host_access_storage P (host st) (recipient (msg st)) (stack_space st (t - 1))"
  have "gas_only (\<lambda>g. do {
       st \<leftarrow> st_set (st\<lparr>host := snd ?acc\<rparr>) t 0
         (host_get_storage P (snd ?acc) (recipient (msg st)) (stack_space st (t - 1)));
       Some ((ZVMC_SUCCESS, g), st) })" (is "gas_only ?K")
    by (intro gas_only_intros)
  then show ?thesis
    using gas_only_charge [of ?K "cold_sload_cost - warm_storage_read_cost" "st\<lparr>host := snd ?acc\<rparr>"] assms
    by (cases "fst ?acc") (simp_all add: core_sload_def st_at_in Let_def split_def cost_constants cong: if_cong)
qed

text \<open>
  The instructions that see the amount of gas: \<open>GAS\<close>, and those that leave the gas of their
  block to other code or compare it with a limit.
\<close>

fun sees_gas :: "result_op \<Rightarrow> bool" where
  "sees_gas Id_gas = True"
| "sees_gas Id_sstore = True"
| "sees_gas Id_call = True"
| "sees_gas Id_delegatecall = True"
| "sees_gas Id_staticcall = True"
| "sees_gas Id_create = True"
| "sees_gas Id_create2 = True"
| "sees_gas _ = False"

theorem result_impl_gas_only:
  assumes "\<not> sees_gas i" and "result_op_info i = (c, req, chg)" and "req \<le> int t" "t \<le> limit"
    and "mem_inv (memory st)"
  shows "gas_only (\<lambda>g. result_impl i P t g st)"
  using assms
  by (cases i)
     (auto simp: core_balance_def core_extcodesize_def core_extcodehash_def core_calldatacopy_def
        core_codecopy_def intro!: gas_only_exp gas_only_keccak256 gas_only_mload
        gas_only_mstore gas_only_buffer_copy gas_only_returndatacopy gas_only_log
        gas_only_account_query gas_only_extcodecopy gas_only_sload)

end
