(* ===== verification/Zvm_Blocks.thy ===== *)
theory Zvm_Blocks
  imports Zvm_Advanced Zvm_Neutral
begin

text \<open>
  What the summary of a basic block says about the Baseline interpreter: the requirements of
  the instructions from a position to the end of its block, and that an execution which does
  not meet them fails in the block.
\<close>

section \<open>The tables of the Advanced interpreter\<close>

text \<open>The function of an implementation, and the opcodes the analysis and the specification name.\<close>

fun adv_fn_of :: "nat \<Rightarrow> op_id \<Rightarrow> exec_fn" where
  "adv_fn_of op (Stack_op Id_jumpdest) = Opx_beginblock"
| "adv_fn_of op (Iter_op Id_jump) = Op_jump"
| "adv_fn_of op (Iter_op Id_jumpi) = Op_jumpi"
| "adv_fn_of op (Iter_op Id_pc) = Op_pc"
| "adv_fn_of op (Iter_op (Id_push n)) = (if n \<le> 8 then Op_push_small else Op_push_full)"
| "adv_fn_of op (Result_op Id_gas) = Op_gas"
| "adv_fn_of op (Result_op Id_sstore) = Op_sstore"
| "adv_fn_of op (Result_op Id_call) = Op_call op"
| "adv_fn_of op (Result_op Id_delegatecall) = Op_call op"
| "adv_fn_of op (Result_op Id_staticcall) = Op_call op"
| "adv_fn_of op (Result_op Id_create) = Op_create op"
| "adv_fn_of op (Result_op Id_create2) = Op_create op"
| "adv_fn_of op _ = Op_impl op"

fun opcode_role :: "nat \<Rightarrow> op_id \<Rightarrow> bool" where
  "opcode_role op (Stack_op Id_jumpdest) = (op = OP_JUMPDEST)"
| "opcode_role op (Iter_op Id_jump) = (op = OP_JUMP)"
| "opcode_role op (Iter_op Id_jumpi) = (op = OP_JUMPI)"
| "opcode_role op (Iter_op Id_pc) = (op = OP_PC)"
| "opcode_role op (Iter_op (Id_push n)) = (op = OP_PUSH1 - 1 + n)"
| "opcode_role op (Term_op Id_stop) = (op = OP_STOP)"
| "opcode_role op (Term_op Id_return) = (op = OP_RETURN)"
| "opcode_role op (Term_op Id_revert) = (op = OP_REVERT)"
| "opcode_role op (Result_op i) = (sees_gas i =
     (op \<in> {OP_GAS, OP_CALL, OP_DELEGATECALL, OP_STATICCALL, OP_CREATE, OP_CREATE2, OP_SSTORE})
     \<and> (i = Id_sstore) = (op = OP_SSTORE) \<and> (op < OP_PUSH1 \<or> OP_PUSH32 < op) \<and>
     op \<notin> {OP_JUMPDEST, OP_JUMP, OP_JUMPI, OP_PC, OP_STOP, OP_RETURN, OP_REVERT})"
| "opcode_role op i = (op \<notin> {OP_JUMPDEST, OP_JUMP, OP_JUMPI, OP_PC, OP_STOP, OP_RETURN, OP_REVERT,
     OP_GAS, OP_CALL, OP_DELEGATECALL, OP_STATICCALL, OP_CREATE, OP_CREATE2, OP_SSTORE} \<and>
     (op < OP_PUSH1 \<or> OP_PUSH32 < op))"

lemma implementations_all:
  "list_all (\<lambda>((op, io), f). case io of None \<Rightarrow> True | Some i \<Rightarrow> f = adv_fn_of op i)
     (zip MAP_OPCODES instruction_implementations)"
  by code_simp

lemma opcode_roles_all:
  "list_all (\<lambda>(op, io). case io of
       None \<Rightarrow> op \<notin> {OP_JUMPDEST, OP_JUMP, OP_JUMPI, OP_STOP, OP_RETURN, OP_REVERT} \<and>
         (op < OP_PUSH1 \<or> OP_PUSH32 < op)
     | Some i \<Rightarrow> opcode_role op i) MAP_OPCODES"
  by (simp add: MAP_OPCODES_def MAP_OPCODES_lo_def MAP_OPCODES_hi_def)

lemma length_implementations [simp]: "length instruction_implementations = 256"
  by (simp add: instruction_implementations_def)

lemma MAP_OPCODES_nth:
  assumes "op < 256" and "map_of MAP_OPCODES op = Some io"
  shows "MAP_OPCODES ! op = (op, io)"
  using MAP_OPCODES_index [OF assms(1)] fst_MAP_OPCODES_nth [OF assms(1)] assms(2)
  by (cases "MAP_OPCODES ! op") simp

lemma implementation_facts:
  assumes "op < 256" and "map_of MAP_OPCODES op = Some (Some i)"
  shows "instruction_implementations ! op = adv_fn_of op i" and "opcode_role op i"
  using implementations_all opcode_roles_all assms(1) MAP_OPCODES_nth [OF assms]
  by (auto simp: list_all_length)

lemma undefined_facts:
  assumes "op < 256" and "map_of MAP_OPCODES op = Some None"
  shows "op \<notin> {OP_JUMPDEST, OP_JUMP, OP_JUMPI, OP_STOP, OP_RETURN, OP_REVERT} \<and>
      (op < OP_PUSH1 \<or> OP_PUSH32 < op)"
    and "op_table_entry r op = \<lparr>op_fn = Op_undefined, op_gas_cost = 0, op_stack_req = 0, op_stack_change = 0\<rparr>"
proof -
  note io = MAP_OPCODES_nth [OF assms]
  show "op \<notin> {OP_JUMPDEST, OP_JUMP, OP_JUMPI, OP_STOP, OP_RETURN, OP_REVERT} \<and>
      (op < OP_PUSH1 \<or> OP_PUSH32 < op)"
    using opcode_roles_all assms(1) io by (auto simp: list_all_length)
  show "op_table_entry r op = \<lparr>op_fn = Op_undefined, op_gas_cost = 0, op_stack_req = 0, op_stack_change = 0\<rparr>"
    using tables_agree [OF assms(1)] io by (cases r) (simp add: op_table_entry_def entry_agrees_def)
qed

lemma table_entry_eq:
  assumes "op < 256" and "map_of MAP_OPCODES op = Some (Some i)" and "op_info i = (c, req, chg)"
  shows "op_table_entry r op =
    \<lparr>op_fn = adv_fn_of op i, op_gas_cost = c, op_stack_req = req, op_stack_change = chg\<rparr>"
  using op_tables [OF assms(1,2)] implementation_facts [OF assms(1,2)] assms(3) op_cost_ge [of i]
  by (cases r) (simp add: op_table_entry_def undefined_cost_def)

text \<open>Every opcode of the code is defined or not.\<close>

lemma opcode_cases:
  obtains (undefined_op) "map_of MAP_OPCODES (opcode_at code p) = Some None"
  | (defined_op) i c req chg where "map_of MAP_OPCODES (opcode_at code p) = Some (Some i)"
      "op_info i = (c, req, chg)"
proof (cases "snd (MAP_OPCODES ! opcode_at code p)")
  case None
  then show thesis using undefined_op MAP_OPCODES_index [OF opcode_less [of code p]] by simp
next
  case (Some i)
  obtain c req chg where "op_info i = (c, req, chg)" by (metis prod_cases3)
  then show thesis using defined_op Some MAP_OPCODES_index [OF opcode_less [of code p]] by simp
qed

lemma op_cost_le: "op_args_ok i \<Longrightarrow> fst (op_info i) \<le> 32000"
proof (cases i)
  case (Stack_op j) then show ?thesis by (cases j) auto
next
  case (State_op j) then show ?thesis by (cases j) auto
next
  case (Result_op j) then show "op_args_ok i \<Longrightarrow> ?thesis" by (cases j) auto
next
  case (Iter_op j) then show ?thesis by (cases j) auto
next
  case (Term_op j) then show ?thesis by (cases j) auto
qed

lemma entry_bounds:
  "0 \<le> op_gas_cost (op_table_entry r (opcode_at code p)) \<and>
   op_gas_cost (op_table_entry r (opcode_at code p)) \<le> 32000 \<and>
   0 \<le> op_stack_req (op_table_entry r (opcode_at code p)) + op_stack_change (op_table_entry r (opcode_at code p))"
proof (cases rule: opcode_cases [of code p])
  case undefined_op
  then show ?thesis using undefined_facts(2) [OF opcode_less undefined_op] by simp
next
  case (defined_op i c req chg)
  have "c \<le> 32000"
    using op_cost_le [OF op_tables(1) [OF opcode_less defined_op(1)]] defined_op(2) by simp
  then show ?thesis
    using table_entry_eq [OF opcode_less defined_op] op_cost_ge [of i] op_change_ge [of i] defined_op(2)
    by simp
qed

end
