(* ===== verification/Zvm_Block_Fails.thy ===== *)
theory Zvm_Block_Fails
  imports Zvm_Blocks
begin

text \<open>
  The requirements of the rest of a basic block, what the summaries of the Advanced analysis
  say about them, and that a Baseline execution which does not meet them fails in the block.
\<close>

section \<open>The rest of a block\<close>

text \<open>
  Gas cost, stack height required and maximal stack growth of the instructions from \<open>p\<close> to the
  end of the block, relative to the stack height at \<open>p\<close>.
\<close>

function rest :: "revision \<Rightarrow> bytes \<Rightarrow> nat \<Rightarrow> int \<times> int \<times> int" where
  "rest r code p =
     (if p < length code \<and> opcode_at code p \<noteq> OP_JUMPDEST
      then let e = op_table_entry r (opcode_at code p);
               (c, q, w) = (if opcode_at code p = OP_JUMPI then (0, 0, 0) else rest r code (adv_next code p))
           in (op_gas_cost e + c, max (max 0 (op_stack_req e)) (q - op_stack_change e),
               max 0 (op_stack_change e + w))
      else (0, 0, 0))"
  by auto
termination
  by (relation "measure (\<lambda>(r, code, p). length code - p)") (auto intro: diff_less_mono2 adv_next_greater)

declare rest.simps [simp del]

lemma rest_end: "\<not> (p < length code \<and> opcode_at code p \<noteq> OP_JUMPDEST) \<Longrightarrow> rest r code p = (0, 0, 0)"
  by (subst rest.simps) auto

lemma final_block_end:
  "\<not> (p < length code \<and> opcode_at code p \<noteq> OP_JUMPDEST) \<Longrightarrow> final_block r code p b = b"
  by (subst final_block.simps) auto

lemma rest_nonneg:
  assumes "rest r code p = (c, q, w)"
  shows "0 \<le> c \<and> 0 \<le> q \<and> 0 \<le> w"
  using assms
proof (induction r code p arbitrary: c q w rule: rest.induct)
  case (1 r code p)
  then show ?case using entry_bounds [of r code p]
    by (subst (asm) (2) rest.simps)
       (cases "rest r code (adv_next code p)", auto simp: Let_def split: if_splits)
qed

lemma rest_gas_bound: "fst (rest r code p) \<le> 32000 * int (length code - p)"
proof (induction r code p rule: rest.induct)
  case (1 r code p)
  show ?case
  proof (cases "p < length code \<and> opcode_at code p \<noteq> OP_JUMPDEST")
    case True
    have "fst (rest r code p) \<le> 32000 + 32000 * int (length code - adv_next code p)"
      using 1 True entry_bounds [of r code p]
      by (subst rest.simps) (cases "rest r code (adv_next code p)", auto simp: Let_def)
    moreover have "int (length code - adv_next code p) + 1 \<le> int (length code - p)"
      using adv_next_greater [of p code] True by linarith
    ultimately show ?thesis by linarith
  next
    case False
    then show ?thesis by (simp add: rest_end)
  qed
qed

text \<open>A block under construction, and what the rest of the code adds to it.\<close>

definition block_ok :: "BlockAnalysis \<Rightarrow> bool" where
  "block_ok b \<longleftrightarrow> 0 \<le> ba_stack_req b \<and> 0 \<le> ba_stack_req b + ba_stack_change b \<and>
     0 \<le> ba_stack_max_growth b \<and> ba_stack_change b \<le> ba_stack_max_growth b"

lemma final_block_rest:
  assumes "block_ok b" and "rest r code p = (c, q, w)"
  shows "ba_gas_cost (final_block r code p b) = ba_gas_cost b + c \<and>
    ba_stack_req (final_block r code p b) = max (ba_stack_req b) (q - ba_stack_change b) \<and>
    ba_stack_max_growth (final_block r code p b) = max (ba_stack_max_growth b) (ba_stack_change b + w)"
  using assms
proof (induction r code p b arbitrary: c q w rule: final_block.induct)
  case (1 r code p b)
  let ?e = "op_table_entry r (opcode_at code p)"
  show ?case
  proof (cases "p < length code \<and> opcode_at code p \<noteq> OP_JUMPDEST")
    case False
    then show ?thesis using 1(2,3) by (auto simp: block_ok_def rest_end final_block_end)
  next
    case True
    obtain c' q' w' where r': "(if opcode_at code p = OP_JUMPI then (0, 0, 0)
        else rest r code (adv_next code p)) = (c', q', w')" by (metis prod_cases3)
    have nn: "0 \<le> q' \<and> 0 \<le> w'" using r' rest_nonneg [of r code "adv_next code p" c' q' w']
      by (auto split: if_splits)
    have e: "c = op_gas_cost ?e + c'" "q = max (max 0 (op_stack_req ?e)) (q' - op_stack_change ?e)"
        "w = max 0 (op_stack_change ?e + w')"
      using 1(3) True r' by (subst (asm) rest.simps, simp add: Let_def)+
    have b: "block_ok (add_op ?e b)"
      using 1(2) entry_bounds [of r code p] by (auto simp: block_ok_def add_op_def Let_def)
    have a: "ba_stack_req (add_op ?e b) = max (ba_stack_req b) (op_stack_req ?e - ba_stack_change b)"
        "ba_stack_change (add_op ?e b) = ba_stack_change b + op_stack_change ?e"
        "ba_stack_max_growth (add_op ?e b) = max (ba_stack_max_growth b) (ba_stack_change b + op_stack_change ?e)"
      by (simp_all add: add_op_def Let_def)
    have f: "ba_gas_cost (final_block r code p b) = ba_gas_cost b + op_gas_cost ?e + c' \<and>
      ba_stack_req (final_block r code p b) =
        max (max (ba_stack_req b) (op_stack_req ?e - ba_stack_change b))
          (q' - (ba_stack_change b + op_stack_change ?e)) \<and>
      ba_stack_max_growth (final_block r code p b) =
        max (max (ba_stack_max_growth b) (ba_stack_change b + op_stack_change ?e))
          (ba_stack_change b + op_stack_change ?e + w')"
    proof (cases "opcode_at code p = OP_JUMPI")
      case j: True
      then have "final_block r code p b = add_op ?e b" using True by (subst final_block.simps) simp
      then show ?thesis using j r' b a by (auto simp: block_ok_def)
    next
      case False
      then have "final_block r code p b = final_block r code (adv_next code p) (add_op ?e b)"
        using True by (subst final_block.simps) (simp add: Let_def)
      then show ?thesis using 1(1) [OF True refl False b, of c' q' w'] r' False a by simp
    qed
    show ?thesis using f e nn 1(2) entry_bounds [of r code p] by (auto simp: block_ok_def max_def)
  qed
qed

lemma new_block_ok: "block_ok (new_block i)"
  by (simp add: block_ok_def new_block_def)

lemma clamp_int16_less: "0 \<le> q \<Longrightarrow> x \<le> 1024 \<Longrightarrow> x < clamp_int16 q \<longleftrightarrow> x < q"
  by (auto simp: clamp_int16_def sint_sbintrunc' signed_take_bit_int_eq_self)

lemma clamp_int16_growth: "0 \<le> w \<Longrightarrow> 0 \<le> x \<Longrightarrow> 1024 < x + clamp_int16 w \<longleftrightarrow> 1024 < x + w"
  by (auto simp: clamp_int16_def sint_sbintrunc' signed_take_bit_int_eq_self)

lemma clamp_uint32_id: "0 \<le> c \<Longrightarrow> c < 2 ^ 32 \<Longrightarrow> clamp_uint32 c = c"
  by (simp add: clamp_uint32_def)

text \<open>The summaries in terms of the rest of the block.\<close>

lemma block_info_rest:
  assumes "rest r code p = (c, q, w)"
  shows "block_info r code p =
    \<lparr>bi_gas_cost = clamp_uint32 c, bi_stack_req = clamp_int16 q, bi_stack_max_growth = clamp_int16 w\<rparr>"
  using final_block_rest [OF new_block_ok assms, of 0] rest_nonneg [OF assms]
  by (simp add: block_info_def close_block_def) (simp add: new_block_def)

lemma table_entry_jumpdest: "op_table_entry r OP_JUMPDEST =
  \<lparr>op_fn = Opx_beginblock, op_gas_cost = 1, op_stack_req = 0, op_stack_change = 0\<rparr>"
  by (cases r) (simp only:, code_simp)

lemma jumpdest_info_rest:
  assumes "rest r code (p + 1) = (c, q, w)"
  shows "jumpdest_info r code p =
    \<lparr>bi_gas_cost = clamp_uint32 (1 + c), bi_stack_req = clamp_int16 q, bi_stack_max_growth = clamp_int16 w\<rparr>"
proof -
  have "block_ok (add_op (op_table_entry r OP_JUMPDEST) (new_block 0))"
    unfolding table_entry_jumpdest by (simp add: block_ok_def new_block_def add_op_def Let_def)
  then show ?thesis
    using final_block_rest [OF _ assms] rest_nonneg [OF assms]
    unfolding jumpdest_info_def close_block_def table_entry_jumpdest
    by (simp add: add_op_def new_block_def Let_def)
qed

section \<open>Steps of the Baseline interpreter\<close>

lemma dispatch_Inr: "switch_step P ct c = Some (Inr out) \<Longrightarrow> dispatch P ct c = Some out"
  by (subst dispatch.simps) simp

lemma dispatch_Inl: "switch_step P ct c = Some (Inl c') \<Longrightarrow> dispatch P ct c = dispatch P ct c'"
  by (subst dispatch.simps) simp

lemma fetch_code:
  "cfg_ok code (p, t, g, st) \<Longrightarrow> p < length code \<Longrightarrow> fetch st p = Some (opcode_at code p)"
  by (simp add: fetch_def cfg_ok_def Let_def pad_code_nth)

lemma switch_step_undefined:
  assumes "cfg_ok code (p, t, g, st)" "p < length code" "map_of MAP_OPCODES (opcode_at code p) = Some None"
  shows "switch_step P ct (p, t, g, st) = Some (Inr (g, st\<lparr>status := ZVMC_UNDEFINED_INSTRUCTION\<rparr>))"
  using assms by (simp add: switch_step_def fetch_code dispatch_op_def)

lemma switch_step_defined:
  assumes "cfg_ok code (p, t, g, st)" "p < length code"
    and "map_of MAP_OPCODES (opcode_at code p) = Some (Some i)" "op_info i = (c, req, chg)"
  shows "switch_step P ct (p, t, g, st) =
    (if chg > 0 \<and> t = limit then Some (Inr (g, st\<lparr>status := ZVMC_STACK_OVERFLOW\<rparr>))
     else if int t < req then Some (Inr (g, st\<lparr>status := ZVMC_STACK_UNDERFLOW\<rparr>))
     else if g < c then Some (Inr (g - c, st\<lparr>status := ZVMC_OUT_OF_GAS\<rparr>))
     else do {
       (np, g', st') \<leftarrow> invoke_impl P i p t (g - c) st;
       Some (case np of None \<Rightarrow> Inr (g', st') | Some p' \<Rightarrow> Inl (p', nat (int t + chg), g', st')) })"
proof -
  have "req > 0 \<and> int t < req \<longleftrightarrow> int t < req" by auto
  moreover have "stack_height_change (traits ! opcode_at code p) = chg"
    using op_tables(4) [OF opcode_less assms(3)] assms(4) by simp
  ultimately show ?thesis
    using assms check_requirements_eq [OF opcode_less assms(3,4), of ct g t]
    by (simp add: switch_step_def fetch_code dispatch_op_def invoke_def cong: option.case_cong)
       (auto simp: split_def split: option.splits intro!: Option.bind_cong)
qed

lemma end_requirements:
  assumes "cuts_off (opcode_at code p) \<or> opcode_at code p = OP_JUMPI" "p < length code"
    and "map_of MAP_OPCODES (opcode_at code p) = Some (Some i)" "op_info i = (c, req, chg)"
  shows "rest r code p = (c, max 0 req, max 0 chg)"
proof -
  have nj: "opcode_at code p \<noteq> OP_JUMPDEST" using assms(1) by auto
  have "(if opcode_at code p = OP_JUMPI then (0, 0, 0) else rest r code (adv_next code p)) = (0, 0, 0)"
  proof (cases "opcode_at code p = OP_JUMPI")
    case False
    then have "adv_next code p = skip_dead code (p + 1)" using assms(1) by (simp add: adv_next_def)
    moreover have "\<not> (skip_dead code q < length code \<and> opcode_at code (skip_dead code q) \<noteq> OP_JUMPDEST)" for q
    proof (induction code q rule: skip_dead.induct)
      case (1 code q)
      then show ?case by (cases "q < length code \<and> opcode_at code q \<noteq> OP_JUMPDEST")
        (subst (1 2) skip_dead.simps, simp, subst (1 2) skip_dead.simps, auto)
    qed
    ultimately show ?thesis using False by (simp add: rest_end)
  qed simp
  then show ?thesis
    using nj assms(2) table_entry_eq [OF opcode_less assms(3,4)] op_change_ge [of i] assms(4)
    by (subst rest.simps) auto
qed

lemma inner_requirements:
  assumes "\<not> cuts_off (opcode_at code p)" "opcode_at code p \<noteq> OP_JUMPI" "opcode_at code p \<noteq> OP_JUMPDEST"
    and "p < length code"
    and "map_of MAP_OPCODES (opcode_at code p) = Some (Some i)" "op_info i = (c, req, chg)"
    and "rest r code (next_instr code p) = (c', q, w)"
  shows "rest r code p = (c + c', max (max 0 req) (q - chg), max 0 (chg + w))"
proof -
  have "rest r code (adv_next code p) = rest r code (next_instr code p)"
    using assms(1) by (auto simp: adv_next_def min_def rest_end)
  then show ?thesis
    using assms table_entry_eq [OF opcode_less assms(5,6)] by (subst rest.simps) simp
qed

context zvmc_host
begin

text \<open>
  An execution that does not meet the requirements of the rest of its block fails: each
  instruction of the block fails or leaves too little for the instructions behind it.
\<close>

lemma block_fails:
  assumes "cfg_ok code (p, t, g, st)" and "rest r code p = (c, q, w)"
    and "g < c \<or> int t < q \<or> int limit < int t + w"
  shows "\<exists>g' st'. dispatch P ct (p, t, g, st) = Some (g', st') \<and> \<not> completes st'"
  using assms
proof (induction "nat g" arbitrary: p t g st c q w rule: less_induct)
  case less
  note cfg = less.prems(1)
  have nn: "0 \<le> g" "t \<le> limit" using cfg by (simp_all add: cfg_ok_def)
  have p: "p < length code" "opcode_at code p \<noteq> OP_JUMPDEST"
    using less.prems nn rest_end [of p code r] by force+
  show ?case
  proof (cases rule: opcode_cases [of code p])
    case undefined_op
    then show ?thesis using dispatch_Inr [OF switch_step_undefined [OF cfg p(1)]] by simp
  next
    case (defined_op i ci req chg)
    note step = switch_step_defined [OF cfg p(1) defined_op, of P ct]
    show ?thesis
    proof (cases "(chg > 0 \<and> t = limit) \<or> int t < req \<or> g < ci")
      case True
      then show ?thesis using step dispatch_Inr [of P ct "(p, t, g, st)"] by (auto split: if_splits)
    next
      case False
      have chg: "int t + chg \<le> int limit" using False op_change_le [of i] defined_op nn by auto
      have "pos + 33 \<le> length (padded_code (analysis st))" if "pos = p" for pos
        using that cfg p(1) by (simp add: cfg_ok_def)
      then have "returns (invoke_impl P i p t (g - ci) st) (impl_ok P i p (g - ci) st)"
        using False chg cfg op_tables(1) [OF opcode_less defined_op(1)] defined_op(2)
        by (intro invoke_impl_ok) (auto simp: cfg_ok_def)
      then obtain np g1 st1 where impl: "invoke_impl P i p t (g - ci) st = Some (np, g1, st1)"
        and ok: "impl_ok P i p (g - ci) st (np, g1, st1)" by (auto elim!: returnsE)
      note role = implementation_facts(2) [OF opcode_less defined_op(1)]
      show ?thesis
      proof (cases np)
        case None
        have "\<not> completes st1"
        proof
          assume "completes st1"
          then have "cuts_off (opcode_at code p)"
            using ok role None by (auto simp: impl_ok_def)
          then have "rest r code p = (ci, max 0 req, max 0 chg)"
            using end_requirements [OF _ p(1) defined_op] by simp
          then show False using less.prems(2,3) False chg nn by auto
        qed
        then show ?thesis using step False impl None dispatch_Inr [of P ct "(p, t, g, st)"] by auto
      next
        case (Some p1)
        have nj: "\<not> cuts_off (opcode_at code p) \<and> opcode_at code p \<noteq> OP_JUMPI"
        proof (rule ccontr)
          assume "\<not> (\<not> cuts_off (opcode_at code p) \<and> opcode_at code p \<noteq> OP_JUMPI)"
          then have "rest r code p = (ci, max 0 req, max 0 chg)"
            using end_requirements [OF _ p(1) defined_op] by auto
          then show False using less.prems(2,3) False chg nn by auto
        qed
        then have "\<not> is_jump_op i" using role by (cases i rule: is_jump_op.cases) auto
        then have p1: "p1 = next_instr code p"
          using ok Some op_tables(5) [OF opcode_less defined_op(1)]
          by (auto simp: impl_ok_def next_instr_def)
        obtain c2 q2 w2 where rest2: "rest r code p1 = (c2, q2, w2)" by (metis prod_cases3)
        have "rest r code p = (ci + c2, max (max 0 req) (q2 - chg), max 0 (chg + w2))"
          using inner_requirements [OF _ _ p(2,1) defined_op] nj rest2 p1 by blast
        then have bad: "g1 < c2 \<or> int t + chg < q2 \<or> int limit < int t + chg + w2"
          using less.prems(2,3) ok False nn by (auto simp: impl_ok_def Some)
        have s: "switch_step P ct (p, t, g, st) = Some (Inl (p1, nat (int t + chg), g1, st1))"
          using step False impl Some by simp
        then have "step_ok P code g st (Inl (p1, nat (int t + chg), g1, st1))"
          using switch_step_ok [OF cfg, of ct] by simp
        then have cfg1: "cfg_ok code (p1, nat (int t + chg), g1, st1)" "g1 < g" by (auto simp: step_ok_def)
        have "0 \<le> int t + chg" using False op_change_ge [of i] defined_op(2) by simp
        then have "\<exists>g' st'. dispatch P ct (p1, nat (int t + chg), g1, st1) = Some (g', st') \<and> \<not> completes st'"
          using less.hyps [OF _ cfg1(1) rest2] bad cfg1 by (auto simp: cfg_ok_def)
        then show ?thesis using dispatch_Inl [OF s] by simp
      qed
    qed
  qed
qed

end

end
