(* ===== verification/Zvm_Advanced_Sim.thy ===== *)
theory Zvm_Advanced_Sim
  imports Zvm_Block_Fails
begin

text \<open>
  The Advanced interpreter computes what the Baseline interpreter computes.  A block whose
  requirements are not met makes the Baseline interpreter fail somewhere in the block; a
  block whose requirements are met is executed in lockstep, with the gas of the rest of the
  block already charged.  The two runs therefore complete together, with equal results, or
  fail together.
\<close>

section \<open>The simulation relation\<close>

definition adv_fails :: "'h adv_state \<Rightarrow> bool" where
  "adv_fails s \<longleftrightarrow> \<not> completes (base s) \<and> output_size (base s) = 0 \<and> output_offset (base s) = 0"

text \<open>The ends of the two runs.\<close>

definition out_rel :: "code_analysis \<Rightarrow> int \<times> 'h exec_state \<Rightarrow> 'h adv_state \<Rightarrow> bool" where
  "out_rel A out s \<longleftrightarrow> (case out of (g, st) \<Rightarrow>
     if completes st then adv_gas_left s = g \<and> st = with_analysis A (base s) else adv_fails s)"

lemma out_rel_fails: "\<not> completes st \<Longrightarrow> adv_fails s \<Longrightarrow> out_rel A (g, st) s"
  by (simp add: out_rel_def)

text \<open>
  A Baseline configuration and a state of the Advanced interpreter about to execute
  instruction \<open>k\<close>: \<open>cost\<close> is the gas cost of the block before \<open>p\<close> and \<open>n\<close> the number of
  large push values before \<open>p\<close>.
\<close>

definition sim_at ::
  "revision \<Rightarrow> bytes \<Rightarrow> int \<Rightarrow> nat \<Rightarrow> 'h config \<Rightarrow> nat \<Rightarrow> 'h adv_state \<Rightarrow> bool" where
  "sim_at r code cost n cfg k s \<longleftrightarrow> (case (cfg, rest r code (fst cfg)) of ((p, t, g, st), (c, q, w)) \<Rightarrow>
     st = with_analysis (analyze r code) (base s) \<and> adv_gas_left s = g - c \<and> adv_stack s = t \<and>
     adv_analysis s = Some (spec_analysis r code) \<and>
     drop k (instrs (spec_analysis r code)) = spec_instrs r code p cost n @ [mk_instr (Op_impl OP_STOP)] \<and>
     drop n (push_values (spec_analysis r code)) = spec_values code p \<and>
     c \<le> g \<and> q \<le> int t \<and> int t + w \<le> int limit \<and>
     (p < length code \<and> opcode_at code p \<noteq> OP_JUMPDEST \<longrightarrow> current_block_cost s = cost + c))"

text \<open>One step: both interpreters move on, or the Advanced one ends and so does the other.\<close>

definition lockstep ::
  "'h platform \<Rightarrow> int list \<Rightarrow> revision \<Rightarrow> bytes \<Rightarrow> 'h config \<Rightarrow> nat \<Rightarrow> 'h adv_state \<Rightarrow> bool" where
  "lockstep P ct r code cfg k s \<longleftrightarrow>
     (\<exists>cfg' k' s' cost n. switch_step P ct cfg = Some (Inl cfg') \<and> adv_step P k s = Some (Some k', s') \<and>
        sim_at r code cost n cfg' k' s') \<or>
     (\<exists>out s'. dispatch P ct cfg = Some out \<and> adv_step P k s = Some (None, s') \<and>
        out_rel (analyze r code) out s')"

lemma lockstep_next:
  "switch_step P ct cfg = Some (Inl cfg') \<Longrightarrow> adv_step P k s = Some (Some k', s') \<Longrightarrow>
   sim_at r code cost n cfg' k' s' \<Longrightarrow> lockstep P ct r code cfg k s"
  by (auto simp: lockstep_def)

lemma lockstep_end:
  "switch_step P ct cfg = Some (Inr out) \<Longrightarrow> adv_step P k s = Some (None, s') \<Longrightarrow>
   out_rel (analyze r code) out s' \<Longrightarrow> lockstep P ct r code cfg k s"
  using dispatch_Inr by (fastforce simp: lockstep_def)

lemma lockstep_fail:
  "\<exists>g' st'. dispatch P ct cfg = Some (g', st') \<and> \<not> completes st' \<Longrightarrow> adv_step P k s = Some (None, s') \<Longrightarrow>
   adv_fails s' \<Longrightarrow> lockstep P ct r code cfg k s"
  by (fastforce simp: lockstep_def out_rel_def)

lemma drop_Cons: "drop k xs = y # ys \<Longrightarrow> k < length xs \<and> xs ! k = y \<and> drop (Suc k) xs = ys"
  by (metis Cons_nth_drop_Suc drop_eq_Nil2 list.inject list.simps(3) not_le)

lemma spec_instrs_end [simp]: "\<not> p < length code \<Longrightarrow> spec_instrs r code p c n = []"
  by (subst spec_instrs.simps) simp

lemma spec_values_end [simp]: "\<not> p < length code \<Longrightarrow> spec_values code p = []"
  by (subst spec_values.simps) simp

lemma adv_next_inner:
  assumes "\<not> cuts_off (opcode_at code p)"
  shows "spec_instrs r code (adv_next code p) c n = spec_instrs r code (next_instr code p) c n"
    and "spec_values code (adv_next code p) = spec_values code (next_instr code p)"
  using assms by (auto simp: adv_next_def min_def)

text \<open>The instruction under the pointer, and what follows it.\<close>

lemma sim_instr:
  assumes "sim_at r code cost n (p, t, g, st) k s" and "p < length code"
  shows "adv_step P k s = exec_instr P (op_fn (op_table_entry r (opcode_at code p))) k
      (spec_instr r code p (cost_upto r code p cost) n) s"
    and "drop (Suc k) (instrs (spec_analysis r code)) =
      spec_instrs r code (adv_next code p) (cost_next r code p cost) (n + length (large_values code p))
        @ [mk_instr (Op_impl OP_STOP)]"
    and "drop (n + length (large_values code p)) (push_values (spec_analysis r code)) =
      spec_values code (adv_next code p)"
proof -
  let ?A = "spec_analysis r code"
  obtain c q w where rest: "rest r code p = (c, q, w)" by (metis prod_cases3)
  have "drop k (instrs ?A) = spec_instr r code p (cost_upto r code p cost) n #
      spec_instrs r code (adv_next code p) (cost_next r code p cost) (n + length (large_values code p))
        @ [mk_instr (Op_impl OP_STOP)]"
    using assms rest by (simp add: sim_at_def spec_instrs.simps [of r code p])
  from drop_Cons [OF this]
  have i: "k < length (instrs ?A)" "instrs ?A ! k = spec_instr r code p (cost_upto r code p cost) n"
    and d: "drop (Suc k) (instrs ?A) =
      spec_instrs r code (adv_next code p) (cost_next r code p cost) (n + length (large_values code p))
        @ [mk_instr (Op_impl OP_STOP)]" by blast+
  show "adv_step P k s = exec_instr P (op_fn (op_table_entry r (opcode_at code p))) k
      (spec_instr r code p (cost_upto r code p cost) n) s"
    using i assms rest by (simp add: adv_step_def sim_at_def) (simp add: spec_instr_def)
  show "drop (Suc k) (instrs ?A) =
      spec_instrs r code (adv_next code p) (cost_next r code p cost) (n + length (large_values code p))
        @ [mk_instr (Op_impl OP_STOP)]" by (rule d)
  have "drop n (push_values ?A) = large_values code p @ spec_values code (adv_next code p)"
    using assms rest by (simp add: sim_at_def spec_values.simps [of code p])
  then have "drop (length (large_values code p)) (drop n (push_values ?A)) = spec_values code (adv_next code p)"
    by simp
  then show "drop (n + length (large_values code p)) (push_values ?A) = spec_values code (adv_next code p)"
    by (simp add: add.commute)
qed

text \<open>An instruction inside a block leads to the relation at the next instruction.\<close>

lemma sim_at_inner:
  assumes sim: "sim_at r code cost n (p, t, g, st) k s" and p: "p < length code"
    and op: "\<not> cuts_off (opcode_at code p)" "opcode_at code p \<noteq> OP_JUMPI" "opcode_at code p \<noteq> OP_JUMPDEST"
    and i: "map_of MAP_OPCODES (opcode_at code p) = Some (Some i)" "op_info i = (ci, req, chg)"
    and rest2: "rest r code (next_instr code p) = (c2, q2, w2)" and g1: "c2 \<le> g1"
    and s': "s' = s\<lparr>base := b, adv_gas_left := g1 - c2, adv_stack := nat (int t + chg)\<rparr>"
  shows "sim_at r code (cost + ci) (n + length (large_values code p))
    (next_instr code p, nat (int t + chg), g1, with_analysis (analyze r code) b) (Suc k) s'"
proof -
  have "rest r code p = (ci + c2, max (max 0 req) (q2 - chg), max 0 (chg + w2))"
    by (rule inner_requirements [OF op(1-3) p i rest2])
  then have s: "max (max 0 req) (q2 - chg) \<le> int t" "int t + max 0 (chg + w2) \<le> int limit"
      "adv_analysis s = Some (spec_analysis r code)" "current_block_cost s = cost + (ci + c2)"
    using sim p op by (simp_all add: sim_at_def)
  have "0 \<le> int t + chg" using s(1) op_change_ge [of i] i(2) by simp
  moreover have "cost_next r code p cost = cost + ci"
    using op table_entry_eq [OF opcode_less i] by (simp add: cost_next_def cost_upto_def)
  ultimately show ?thesis
    using s g1 sim_instr(2,3) [OF sim p] adv_next_inner [OF op(1)] rest2
    by (simp add: sim_at_def s')
qed

section \<open>Requirements\<close>

lemma rest_first:
  assumes "p < length code" "opcode_at code p \<noteq> OP_JUMPDEST"
    and "map_of MAP_OPCODES (opcode_at code p) = Some (Some i)" "op_info i = (ci, req, chg)"
    and "rest r code p = (c, q, w)"
  shows "ci \<le> c \<and> req \<le> q \<and> chg \<le> w"
proof -
  obtain c2 q2 w2 where r2: "(if opcode_at code p = OP_JUMPI then (0, 0, 0)
      else rest r code (adv_next code p)) = (c2, q2, w2)" by (metis prod_cases3)
  then have "0 \<le> c2 \<and> 0 \<le> w2"
    using rest_nonneg [of r code "adv_next code p" c2 q2 w2] by (auto split: if_splits)
  moreover have "(c, q, w) = (ci + c2, max (max 0 req) (q2 - chg), max 0 (chg + w2))"
    using assms r2 table_entry_eq [OF opcode_less assms(3,4)]
    by (subst (asm) rest.simps) (simp add: Let_def)
  ultimately show ?thesis by auto
qed

lemma sim_requirements:
  assumes sim: "sim_at r code cost n (p, t, g, st) k s" and cfg: "cfg_ok code (p, t, g, st)"
    and p: "p < length code" "opcode_at code p \<noteq> OP_JUMPDEST"
    and i: "map_of MAP_OPCODES (opcode_at code p) = Some (Some i)" "op_info i = (ci, req, chg)"
  shows "req \<le> int t" "ci \<le> g" "int t + chg \<le> int limit" "0 \<le> int t + chg"
    and "switch_step P ct (p, t, g, st) = do {
       (np, g', st') \<leftarrow> invoke_impl P i p t (g - ci) st;
       Some (case np of None \<Rightarrow> Inr (g', st') | Some p' \<Rightarrow> Inl (p', nat (int t + chg), g', st')) }"
    and "st = with_analysis (analyze r code) (base s)" "adv_stack s = t"
    and "mem_inv (memory (base s))" "output_size (base s) = 0" "output_offset (base s) = 0"
    and "status (base s) = ZVMC_SUCCESS"
proof -
  obtain c q w where rest: "rest r code p = (c, q, w)" by (metis prod_cases3)
  note f = rest_first [OF p i rest]
  show 1: "req \<le> int t" "ci \<le> g" "int t + chg \<le> int limit"
    "st = with_analysis (analyze r code) (base s)" "adv_stack s = t"
    using sim f rest by (auto simp: sim_at_def)
  show "0 \<le> int t + chg" using 1(1) op_change_ge [of i] i(2) by simp
  show "switch_step P ct (p, t, g, st) = do {
       (np, g', st') \<leftarrow> invoke_impl P i p t (g - ci) st;
       Some (case np of None \<Rightarrow> Inr (g', st') | Some p' \<Rightarrow> Inl (p', nat (int t + chg), g', st')) }"
    using switch_step_defined [OF cfg p(1) i, of P ct] 1 by auto
  show "mem_inv (memory (base s))" "output_size (base s) = 0" "output_offset (base s) = 0"
    "status (base s) = ZVMC_SUCCESS"
    using cfg 1(4) by (simp_all add: cfg_ok_def)
qed

lemma core_impl_eq: "map_of MAP_OPCODES op = Some (Some i) \<Longrightarrow> core_impl op = Some i"
  by (simp add: core_impl_def)

lemma adv_exit_fails:
  "s \<noteq> ZVMC_SUCCESS \<Longrightarrow> s \<noteq> ZVMC_REVERT \<Longrightarrow> output_size (base x) = 0 \<Longrightarrow> output_offset (base x) = 0 \<Longrightarrow>
   adv_fails (snd (adv_exit s x))"
  by (simp add: adv_fails_def adv_exit_def)

text \<open>The instructions that neither start nor end a block.\<close>

definition inner_op :: "op_id \<Rightarrow> bool" where
  "inner_op i \<longleftrightarrow> \<not> is_jump_op i \<and> \<not> is_term_op i \<and> i \<noteq> Stack_op Id_jumpdest"

lemma inner_op_opcode:
  assumes "map_of MAP_OPCODES (opcode_at code p) = Some (Some i)" and "inner_op i"
  shows "\<not> cuts_off (opcode_at code p)" "opcode_at code p \<noteq> OP_JUMPI" "opcode_at code p \<noteq> OP_JUMPDEST"
  using implementation_facts(2) [OF opcode_less assms(1)] op_tables(1) [OF opcode_less assms(1)] assms(2)
  by (auto simp: inner_op_def elim!: opcode_role.elims)

lemma next_instr_eq:
  "map_of MAP_OPCODES (opcode_at code p) = Some (Some i) \<Longrightarrow> next_instr code p = p + op_immediate i + 1"
  using op_tables(5) [OF opcode_less] by (simp add: next_instr_def)

context zvmc_host
begin

lemma inner_lockstep:
  assumes sim: "sim_at r code cost n (p, t, g, st) k s" and cfg: "cfg_ok code (p, t, g, st)"
    and p: "p < length code" and inner: "inner_op i"
    and i: "map_of MAP_OPCODES (opcode_at code p) = Some (Some i)" "op_info i = (ci, req, chg)"
    and rest2: "rest r code (next_instr code p) = (c2, q2, w2)"
    and run: "invoke_impl P i p t (g - ci) st = Some (Some (next_instr code p), g1, with_analysis (analyze r code) b)"
    and adv: "c2 \<le> g1 \<Longrightarrow> adv_step P k s =
      Some (Some (Suc k), s\<lparr>base := b, adv_gas_left := g1 - c2, adv_stack := nat (int t + chg)\<rparr>)"
    and fail: "g1 < c2 \<Longrightarrow> \<exists>s'. adv_step P k s = Some (None, s') \<and> adv_fails s'"
  shows "lockstep P ct r code (p, t, g, st) k s"
proof -
  note op = inner_op_opcode [OF i(1) inner]
  let ?cfg = "(next_instr code p, nat (int t + chg), g1, with_analysis (analyze r code) b)"
  have step: "switch_step P ct (p, t, g, st) = Some (Inl ?cfg)"
    using sim_requirements(5) [OF sim cfg p op(3) i, of P ct] run by simp
  show ?thesis
  proof (cases "c2 \<le> g1")
    case True
    show ?thesis
      by (rule lockstep_next [OF step adv [OF True]
            sim_at_inner [OF sim p op i rest2 True refl]])
  next
    case False
    then obtain s' where s': "adv_step P k s = Some (None, s')" "adv_fails s'" using fail by auto
    have "cfg_ok code ?cfg" using switch_step_ok [OF cfg, of ct] step by (simp add: step_ok_def)
    then have "\<exists>g' st'. dispatch P ct ?cfg = Some (g', st') \<and> \<not> completes st'"
      using block_fails [OF _ rest2] False by simp
    then show ?thesis using dispatch_Inl [OF step] lockstep_fail [OF _ s'] by metis
  qed
qed

text \<open>The gas and the rest of the block at an inner instruction.\<close>

lemma inner_gas:
  assumes sim: "sim_at r code cost n (p, t, g, st) k s"
    and p: "p < length code" and inner: "inner_op i"
    and i: "map_of MAP_OPCODES (opcode_at code p) = Some (Some i)" "op_info i = (ci, req, chg)"
    and rest2: "rest r code (next_instr code p) = (c2, q2, w2)"
  shows "adv_gas_left s = g - ci - c2" "0 \<le> g - ci - c2" "0 \<le> c2"
    and "current_block_cost s - (cost + ci) = c2" and "cost_upto r code p cost = cost + ci"
proof -
  note op = inner_op_opcode [OF i(1) inner]
  have "rest r code p = (ci + c2, max (max 0 req) (q2 - chg), max 0 (chg + w2))"
    by (rule inner_requirements [OF op(1-3) p i rest2])
  then show "adv_gas_left s = g - ci - c2" "0 \<le> g - ci - c2" "current_block_cost s - (cost + ci) = c2"
    using sim p op by (auto simp: sim_at_def)
  show "0 \<le> c2" using rest_nonneg [OF rest2] by simp
  show "cost_upto r code p cost = cost + ci"
    using op(3) table_entry_eq [OF opcode_less i] by (simp add: cost_upto_def)
qed

lemma stack_lockstep:
  assumes sim: "sim_at r code cost n (p, t, g, st) k s" and cfg: "cfg_ok code (p, t, g, st)"
    and p: "p < length code" and j: "j \<noteq> Id_jumpdest"
    and i: "map_of MAP_OPCODES (opcode_at code p) = Some (Some (Stack_op j))" "op_info (Stack_op j) = (ci, req, chg)"
  shows "lockstep P ct r code (p, t, g, st) k s"
proof -
  have inner: "inner_op (Stack_op j)" using j by (simp add: inner_op_def)
  note op = inner_op_opcode [OF i(1) inner]
  note req = sim_requirements [OF sim cfg p op(3) i]
  obtain c2 q2 w2 where rest2: "rest r code (next_instr code p) = (c2, q2, w2)" by (metis prod_cases3)
  note gas = inner_gas [OF sim p inner i rest2]
  have chg: "stack_height_change (traits ! opcode_at code p) = chg"
    using op_tables(4) [OF opcode_less i(1)] i(2) by simp
  obtain sp where sp: "stack_impl P j (stack_space (base s)) t = Some sp"
    using stack_impl_total [of j ci req chg t P "stack_space (base s)"] i(2) req cfg
      op_tables(1) [OF opcode_less i(1)] by (auto simp: cfg_ok_def)
  have f: "op_fn (op_table_entry r (opcode_at code p)) = Op_impl (opcode_at code p)"
    using table_entry_eq [OF opcode_less i] j by (cases j) simp_all
  have a: "adv_step P k s = Some (Some (Suc k),
      s\<lparr>base := (base s)\<lparr>stack_space := sp\<rparr>, adv_gas_left := g - ci - c2, adv_stack := nat (int t + chg)\<rparr>)"
    unfolding sim_instr(1) [OF sim p] f
    using core_impl_eq [OF i(1)] sp req(7) chg gas(1)
    by (cases s) (simp add: op_impl_def impl_stack_def adjust_stack_def)
  show ?thesis
  proof (rule inner_lockstep [OF sim cfg p inner i rest2, of "g - ci" "(base s)\<lparr>stack_space := sp\<rparr>"])
    show "invoke_impl P (Stack_op j) p t (g - ci) st = Some (Some (next_instr code p), g - ci,
        with_analysis (analyze r code) ((base s)\<lparr>stack_space := sp\<rparr>))"
      using sp req(6) next_instr_eq [OF i(1)] by simp
  qed (use a gas(2) in simp_all)
qed

lemma state_lockstep:
  assumes sim: "sim_at r code cost n (p, t, g, st) k s" and cfg: "cfg_ok code (p, t, g, st)"
    and p: "p < length code"
    and i: "map_of MAP_OPCODES (opcode_at code p) = Some (Some (State_op j))" "op_info (State_op j) = (ci, req, chg)"
  shows "lockstep P ct r code (p, t, g, st) k s"
proof -
  have inner: "inner_op (State_op j)" by (simp add: inner_op_def)
  note op = inner_op_opcode [OF i(1) inner]
  note req = sim_requirements [OF sim cfg p op(3) i]
  obtain c2 q2 w2 where rest2: "rest r code (next_instr code p) = (c2, q2, w2)" by (metis prod_cases3)
  note gas = inner_gas [OF sim p inner i rest2]
  have chg: "stack_height_change (traits ! opcode_at code p) = chg"
    using op_tables(4) [OF opcode_less i(1)] i(2) by simp
  obtain b where b: "state_impl j P t (base s) = Some b"
    using state_impl_ok [of j ci req chg t P "base s"] i(2) req cfg by (auto simp: cfg_ok_def elim: returnsE)
  have f: "op_fn (op_table_entry r (opcode_at code p)) = Op_impl (opcode_at code p)"
    using table_entry_eq [OF opcode_less i] by simp
  have a: "adv_step P k s = Some (Some (Suc k),
      s\<lparr>base := b, adv_gas_left := g - ci - c2, adv_stack := nat (int t + chg)\<rparr>)"
    unfolding sim_instr(1) [OF sim p] f
    using core_impl_eq [OF i(1)] b req(7) chg gas(1)
    by (cases s) (simp add: op_impl_def impl_state_def adjust_stack_def)
  show ?thesis
  proof (rule inner_lockstep [OF sim cfg p inner i rest2, of "g - ci" b])
    show "invoke_impl P (State_op j) p t (g - ci) st = Some (Some (next_instr code p), g - ci,
        with_analysis (analyze r code) b)"
      using b req(6) next_instr_eq [OF i(1)] by (simp add: state_impl_analysis)
  qed (use a gas(2) in simp_all)
qed

text \<open>The instructions with gas: the run on the inherited part of the state.\<close>

lemma result_run:
  assumes sim: "sim_at r code cost n (p, t, g, st) k s" and cfg: "cfg_ok code (p, t, g, st)"
    and p: "p < length code"
    and i: "map_of MAP_OPCODES (opcode_at code p) = Some (Some (Result_op j))"
      "op_info (Result_op j) = (ci, req, chg)" and g': "0 \<le> g'"
  obtains s1 g1 b1 where "result_impl j P t g' (base s) = Some ((s1, g1), b1)"
    and "result_ok P (nat req) t g' (base s) ((s1, g1), b1)"
    and "output_size b1 = 0" "output_offset b1 = 0"
proof -
  have inner: "inner_op (Result_op j)" by (simp add: inner_op_def)
  note req = sim_requirements [OF sim cfg p inner_op_opcode(3) [OF i(1) inner] i]
  have "returns (result_impl j P t g' (base s)) (result_ok P (nat req) t g' (base s))"
    using result_impl_ok [OF op_tables(1) [OF opcode_less i(1)]] i(2) req cfg g'
    by (simp add: cfg_ok_def)
  then obtain s1 g1 b1 where r: "result_impl j P t g' (base s) = Some ((s1, g1), b1)"
      "result_ok P (nat req) t g' (base s) ((s1, g1), b1)" by (auto elim!: returnsE)
  moreover have "output_size b1 = 0" "output_offset b1 = 0"
    using r(2) req by (auto simp: result_ok_def output_kept_def)
  ultimately show thesis using that by blast
qed

lemma result_lockstep:
  assumes sim: "sim_at r code cost n (p, t, g, st) k s" and cfg: "cfg_ok code (p, t, g, st)"
    and p: "p < length code"
    and i: "map_of MAP_OPCODES (opcode_at code p) = Some (Some (Result_op j))"
      "op_info (Result_op j) = (ci, req, chg)"
    and rest2: "rest r code (next_instr code p) = (c2, q2, w2)"
    and x: "result_impl j P t (g - ci) (base s) = Some ((s1, g1), b1)" "s1 \<noteq> ZVMC_REVERT"
    and adv: "s1 = ZVMC_SUCCESS \<Longrightarrow> c2 \<le> g1 \<Longrightarrow> adv_step P k s =
      Some (Some (Suc k), s\<lparr>base := b1, adv_gas_left := g1 - c2, adv_stack := nat (int t + chg)\<rparr>)"
    and fail: "s1 \<noteq> ZVMC_SUCCESS \<or> g1 < c2 \<Longrightarrow> \<exists>s'. adv_step P k s = Some (None, s') \<and> adv_fails s'"
  shows "lockstep P ct r code (p, t, g, st) k s"
proof -
  have inner: "inner_op (Result_op j)" by (simp add: inner_op_def)
  note op = inner_op_opcode [OF i(1) inner]
  note req = sim_requirements [OF sim cfg p op(3) i]
  have x': "result_impl j P t (g - ci) st = Some ((s1, g1), with_analysis (analyze r code) b1)"
    using x req(6) by (simp add: result_impl_analysis)
  show ?thesis
  proof (cases "s1 = ZVMC_SUCCESS")
    case True
    then have "invoke_impl P (Result_op j) p t (g - ci) st =
        Some (Some (next_instr code p), g1, with_analysis (analyze r code) b1)"
      using x' next_instr_eq [OF i(1)] by simp
    then show ?thesis
      by (rule inner_lockstep [OF sim cfg p inner i rest2]) (use adv fail True in auto)
  next
    case False
    then have step: "switch_step P ct (p, t, g, st) =
        Some (Inr (g1, (with_analysis (analyze r code) b1)\<lparr>status := s1\<rparr>))"
      using req(5) [of P ct] x' by simp
    obtain s' where a: "adv_step P k s = Some (None, s')" "adv_fails s'" using fail False by auto
    show ?thesis
      by (rule lockstep_end [OF step a(1) out_rel_fails]) (use False x(2) a(2) in simp_all)
  qed
qed

lemma plain_result_lockstep:
  assumes sim: "sim_at r code cost n (p, t, g, st) k s" and cfg: "cfg_ok code (p, t, g, st)"
    and p: "p < length code" and j: "\<not> sees_gas j"
    and i: "map_of MAP_OPCODES (opcode_at code p) = Some (Some (Result_op j))"
      "op_info (Result_op j) = (ci, req, chg)"
  shows "lockstep P ct r code (p, t, g, st) k s"
proof -
  have inner: "inner_op (Result_op j)" by (simp add: inner_op_def)
  note op = inner_op_opcode [OF i(1) inner]
  note req = sim_requirements [OF sim cfg p op(3) i]
  obtain c2 q2 w2 where rest2: "rest r code (next_instr code p) = (c2, q2, w2)" by (metis prod_cases3)
  note gas = inner_gas [OF sim p inner i rest2]
  have chg: "stack_height_change (traits ! opcode_at code p) = chg"
    using op_tables(4) [OF opcode_less i(1)] i(2) by simp
  have f: "op_fn (op_table_entry r (opcode_at code p)) = Op_impl (opcode_at code p)"
    using table_entry_eq [OF opcode_less i] j by (cases j) simp_all
  have g0: "0 \<le> g - ci" using req(2) by simp
  obtain s1 g1 b1 where x: "result_impl j P t (g - ci) (base s) = Some ((s1, g1), b1)"
    and x_ok: "result_ok P (nat req) t (g - ci) (base s) ((s1, g1), b1)"
    by (rule result_run [OF sim cfg p i g0])
  obtain s2 g2 b2 where y: "result_impl j P t (g - ci - c2) (base s) = Some ((s2, g2), b2)"
    and y_ok: "result_ok P (nat req) t (g - ci - c2) (base s) ((s2, g2), b2)"
    and out: "output_size b2 = 0" "output_offset b2 = 0"
    by (rule result_run [OF sim cfg p i gas(2)])
  have "gas_only (\<lambda>g. result_impl j P t g (base s))"
    using result_impl_gas_only [OF j _ req(1) _ req(8)] i(2) cfg by (simp add: cfg_ok_def)
  from gas_onlyD [OF this gas(3), of "g - ci"] gas(2)
  have ch: "charged (g - ci) c2 (Some ((s1, g1), b1)) (Some ((s2, g2), b2))" by (simp add: x y)
  have a: "adv_step P k s = Some (if s2 \<noteq> ZVMC_SUCCESS
      then adv_exit s2 (s\<lparr>base := b2, adv_gas_left := g2, adv_stack := nat (int t + chg)\<rparr>)
      else (Some (Suc k), s\<lparr>base := b2, adv_gas_left := g2, adv_stack := nat (int t + chg)\<rparr>))"
    unfolding sim_instr(1) [OF sim p] f
    using core_impl_eq [OF i(1)] y req(7) chg gas(1)
    by (simp add: op_impl_def impl_result_def adjust_stack_def)
  show ?thesis
  proof (rule result_lockstep [OF sim cfg p i rest2 x])
    show "s1 \<noteq> ZVMC_REVERT" using x_ok by (simp add: result_ok_def)
    assume "s1 = ZVMC_SUCCESS" "c2 \<le> g1"
    then show "adv_step P k s =
        Some (Some (Suc k), s\<lparr>base := b1, adv_gas_left := g1 - c2, adv_stack := nat (int t + chg)\<rparr>)"
      using ch a by (simp add: charged_def)
  next
    assume "s1 \<noteq> ZVMC_SUCCESS \<or> g1 < c2"
    then have "s2 \<noteq> ZVMC_SUCCESS" using ch by (auto simp: charged_def split: if_splits)
    moreover have "s2 \<noteq> ZVMC_REVERT" using y_ok by (simp add: result_ok_def)
    ultimately show "\<exists>s'. adv_step P k s = Some (None, s') \<and> adv_fails s'"
      using a out by (auto simp: adv_exit_def adv_fails_def)
  qed
qed

text \<open>
  The instructions that see the gas run with exactly the gas that they have in the Baseline
  interpreter.
\<close>

lemma corrected_lockstep:
  assumes sim: "sim_at r code cost n (p, t, g, st) k s" and cfg: "cfg_ok code (p, t, g, st)"
    and p: "p < length code" and j: "sees_gas j" "j \<noteq> Id_gas"
    and i: "map_of MAP_OPCODES (opcode_at code p) = Some (Some (Result_op j))"
      "op_info (Result_op j) = (ci, req, chg)"
  shows "lockstep P ct r code (p, t, g, st) k s"
proof -
  have inner: "inner_op (Result_op j)" by (simp add: inner_op_def)
  note op = inner_op_opcode [OF i(1) inner]
  note req = sim_requirements [OF sim cfg p op(3) i]
  note role = implementation_facts(2) [OF opcode_less i(1)]
  obtain c2 q2 w2 where rest2: "rest r code (next_instr code p) = (c2, q2, w2)" by (metis prod_cases3)
  note gas = inner_gas [OF sim p inner i rest2]
  have chg: "stack_height_change (traits ! opcode_at code p) = chg"
    using op_tables(4) [OF opcode_less i(1)] i(2) by simp
  have f: "exec_instr P (op_fn (op_table_entry r (opcode_at code p))) k instr s =
      op_corrected P (opcode_at code p) k instr s" for instr
    using table_entry_eq [OF opcode_less i] j role
    by (cases j) (simp_all add: op_call_def op_create_def op_sstore_def)
  have num: "arg_number (arg (spec_instr r code p (cost_upto r code p cost) n)) = Some (cost + ci)"
    using role j gas(5) op by (auto simp: spec_instr_def spec_arg_def ANY_SMALL_PUSH_def ANY_LARGE_PUSH_def)
  have g0: "0 \<le> g - ci" using req(2) by simp
  obtain s1 g1 b1 where x: "result_impl j P t (g - ci) (base s) = Some ((s1, g1), b1)"
    and x_ok: "result_ok P (nat req) t (g - ci) (base s) ((s1, g1), b1)"
    and out: "output_size b1 = 0" "output_offset b1 = 0"
    by (rule result_run [OF sim cfg p i g0])
  have a: "adv_step P k s = Some (if s1 \<noteq> ZVMC_SUCCESS
      then adv_exit s1 (s\<lparr>base := b1, adv_gas_left := g1, adv_stack := nat (int t + chg)\<rparr>)
      else if g1 - c2 < 0
      then adv_exit ZVMC_OUT_OF_GAS (s\<lparr>base := b1, adv_gas_left := g1 - c2, adv_stack := nat (int t + chg)\<rparr>)
      else (Some (Suc k), s\<lparr>base := b1, adv_gas_left := g1 - c2, adv_stack := nat (int t + chg)\<rparr>))"
    unfolding sim_instr(1) [OF sim p] f
    using core_impl_eq [OF i(1)] x req(7) chg gas(1,4) num
    by (simp add: op_corrected_def impl_result_def adjust_stack_def adv_exit_def)
  show ?thesis
  proof (rule result_lockstep [OF sim cfg p i rest2 x])
    show "s1 \<noteq> ZVMC_REVERT" using x_ok by (simp add: result_ok_def)
    show "s1 \<noteq> ZVMC_SUCCESS \<or> g1 < c2 \<Longrightarrow> \<exists>s'. adv_step P k s = Some (None, s') \<and> adv_fails s'"
      using a out x_ok by (auto simp: adv_exit_def adv_fails_def result_ok_def)
  qed (use a in simp)
qed

lemma adv_push_in:
  "adv_stack s = t \<Longrightarrow> t < limit \<Longrightarrow> adv_push v s =
     Some (s\<lparr>base := (base s)\<lparr>stack_space := (stack_space (base s))(t := v)\<rparr>, adv_stack := t + 1\<rparr>)"
  by (simp add: adv_push_def stack_simps)

lemma gas_lockstep:
  assumes sim: "sim_at r code cost n (p, t, g, st) k s" and cfg: "cfg_ok code (p, t, g, st)"
    and p: "p < length code"
    and i: "map_of MAP_OPCODES (opcode_at code p) = Some (Some (Result_op Id_gas))"
  shows "lockstep P ct r code (p, t, g, st) k s"
proof -
  have inner: "inner_op (Result_op Id_gas)" by (simp add: inner_op_def)
  have info: "op_info (Result_op Id_gas) = (2, 0, 1)" by simp
  note op = inner_op_opcode [OF i inner]
  note req = sim_requirements [OF sim cfg p op(3) i info]
  note role = implementation_facts(2) [OF opcode_less i]
  obtain c2 q2 w2 where rest2: "rest r code (next_instr code p) = (c2, q2, w2)" by (metis prod_cases3)
  note gas = inner_gas [OF sim p inner i info rest2]
  have t: "t < limit" using req(3) by simp
  have num: "arg_number (arg (spec_instr r code p (cost_upto r code p cost) n)) = Some (cost + 2)"
    using role gas(5) op by (auto simp: spec_instr_def spec_arg_def ANY_SMALL_PUSH_def ANY_LARGE_PUSH_def)
  let ?b = "(base s)\<lparr>stack_space := (stack_space (base s))(t := u256_of_int64 (g - 2))\<rparr>"
  have x: "result_impl Id_gas P t (g - 2) (base s) = Some ((ZVMC_SUCCESS, g - 2), ?b)"
    using t by (simp add: core_gas_def st_push_in)
  have a: "adv_step P k s = Some (Some (Suc k),
      s\<lparr>base := ?b, adv_gas_left := g - 2 - c2, adv_stack := nat (int t + 1)\<rparr>)"
    unfolding sim_instr(1) [OF sim p] using table_entry_eq [OF opcode_less i info] num gas(1,4) req(7) t
    by (cases s) (simp add: op_gas_def adv_push_in nat_add_distrib)
  show ?thesis
    by (rule result_lockstep [OF sim cfg p i info rest2 x]) (use a gas(2) in simp_all)
qed

lemma padded_immediate:
  "p < length code \<Longrightarrow> m \<le> 32 \<Longrightarrow> take m (drop (p + 1) (pad_code code)) = padded_slice code (p + 1) m"
  by (rule nth_equalityI) (auto simp: padded_slice_nth pad_code_nth pad_code_beyond)

lemma ucast_be_load: "length bs \<le> 8 \<Longrightarrow> ucast (be_load bs :: uint64) = (be_load bs :: uint256)"
  by (rule bit_uint256_eqI) (auto simp: bit_be_load bit_simps)

lemma push_lockstep:
  assumes sim: "sim_at r code cost n (p, t, g, st) k s" and cfg: "cfg_ok code (p, t, g, st)"
    and p: "p < length code"
    and i: "map_of MAP_OPCODES (opcode_at code p) = Some (Some (Iter_op (Id_push m)))"
  shows "lockstep P ct r code (p, t, g, st) k s"
proof -
  have inner: "inner_op (Iter_op (Id_push m))" by (simp add: inner_op_def)
  have info: "op_info (Iter_op (Id_push m)) = (3, 0, 1)" by simp
  note op = inner_op_opcode [OF i inner]
  note req = sim_requirements [OF sim cfg p op(3) i info]
  have m: "1 \<le> m" "m \<le> 32" using op_tables(1) [OF opcode_less i] by simp_all
  have opm: "opcode_at code p = OP_PUSH1 - 1 + m" using implementation_facts(2) [OF opcode_less i] by simp
  obtain c2 q2 w2 where rest2: "rest r code (next_instr code p) = (c2, q2, w2)" by (metis prod_cases3)
  note gas = inner_gas [OF sim p inner i info rest2]
  have t: "t < limit" using req(3) by simp
  let ?v = "be_load (padded_slice code (p + 1) m) :: uint256"
  let ?b = "(base s)\<lparr>stack_space := (stack_space (base s))(t := ?v)\<rparr>"
  have pc: "padded_code (analysis st) = pad_code code" using cfg by (simp add: cfg_ok_def)
  have "core_push m t st p = Some (Some (p + (m + 1)), st\<lparr>stack_space := (stack_space st)(t := ?v)\<rparr>)"
    using core_push_spec [OF m t, of p st] p padded_immediate [OF p m(2)] by (simp add: pc)
  then have run: "invoke_impl P (Iter_op (Id_push m)) p t (g - 3) st =
      Some (Some (next_instr code p), g - 3, with_analysis (analyze r code) ?b)"
    using req(6) next_instr_eq [OF i] by simp
  have imm: "push_imm code p = ?v" "push_imm code p = (be_load (padded_slice code (p + 1) m) :: uint64)"
    using opm m by (simp_all add: push_imm_def)
  have a: "adv_step P k s = Some (Some (Suc k),
      s\<lparr>base := ?b, adv_gas_left := g - 3 - c2, adv_stack := nat (int t + 1)\<rparr>)"
  proof (cases "m \<le> 8")
    case True
    have "arg (spec_instr r code p (cost_upto r code p cost) n) = Arg_small_push_value (push_imm code p)"
      using opm m True by (simp add: spec_instr_def spec_arg_def ANY_SMALL_PUSH_def)
    then show ?thesis
      unfolding sim_instr(1) [OF sim p] using table_entry_eq [OF opcode_less i info] True gas(1) req(7) t imm
      by (cases s) (simp add: op_push_small_def adv_push_in nat_add_distrib ucast_be_load)
  next
    case False
    let ?vs = "push_values (spec_analysis r code)"
    have l: "ANY_LARGE_PUSH (opcode_at code p)" "\<not> ANY_SMALL_PUSH (opcode_at code p)"
      using opm m False by (simp_all add: ANY_LARGE_PUSH_def ANY_SMALL_PUSH_def)
    have "drop n ?vs = push_imm code p # spec_values code (adv_next code p)"
      using sim p l by (simp add: sim_at_def spec_values.simps [of code p] large_values_def split: prod.splits)
    from drop_Cons [OF this] have v: "n < length ?vs" "?vs ! n = push_imm code p" by simp_all
    have "arg (spec_instr r code p (cost_upto r code p cost) n) = Arg_push_value n"
      using opm m False by (simp add: spec_instr_def spec_arg_def ANY_SMALL_PUSH_def ANY_LARGE_PUSH_def)
    moreover have "adv_analysis s = Some (spec_analysis r code)"
      using sim by (simp add: sim_at_def split: prod.splits)
    ultimately show ?thesis
      unfolding sim_instr(1) [OF sim p]
      using table_entry_eq [OF opcode_less i info] False gas(1) req(7) t imm v
      by (cases s) (simp add: op_push_full_def adv_push_in nat_add_distrib)
  qed
  show ?thesis
    by (rule inner_lockstep [OF sim cfg p inner i info rest2 run]) (use a gas(2) in simp_all)
qed

lemma pc_lockstep:
  assumes sim: "sim_at r code cost n (p, t, g, st) k s" and cfg: "cfg_ok code (p, t, g, st)"
    and p: "p < length code"
    and i: "map_of MAP_OPCODES (opcode_at code p) = Some (Some (Iter_op Id_pc))"
  shows "lockstep P ct r code (p, t, g, st) k s"
proof -
  have inner: "inner_op (Iter_op Id_pc)" by (simp add: inner_op_def)
  have info: "op_info (Iter_op Id_pc) = (2, 0, 1)" by simp
  note op = inner_op_opcode [OF i inner]
  note req = sim_requirements [OF sim cfg p op(3) i info]
  have opc: "opcode_at code p = OP_PC" using implementation_facts(2) [OF opcode_less i] by simp
  obtain c2 q2 w2 where rest2: "rest r code (next_instr code p) = (c2, q2, w2)" by (metis prod_cases3)
  note gas = inner_gas [OF sim p inner i info rest2]
  have t: "t < limit" using req(3) by simp
  let ?b = "(base s)\<lparr>stack_space := (stack_space (base s))(t := ucast (of_nat p :: uint64))\<rparr>"
  have run: "invoke_impl P (Iter_op Id_pc) p t (g - 2) st =
      Some (Some (next_instr code p), g - 2, with_analysis (analyze r code) ?b)"
    using req(6) next_instr_eq [OF i] t by (simp add: core_pc_def st_push_in)
  have "arg (spec_instr r code p (cost_upto r code p cost) n) = Arg_number (int p)"
    using opc by (simp add: spec_instr_def spec_arg_def ANY_SMALL_PUSH_def ANY_LARGE_PUSH_def)
  then have a: "adv_step P k s = Some (Some (Suc k),
      s\<lparr>base := ?b, adv_gas_left := g - 2 - c2, adv_stack := nat (int t + 1)\<rparr>)"
    unfolding sim_instr(1) [OF sim p] using table_entry_eq [OF opcode_less i info] gas(1) req(7) t
    by (cases s) (simp add: op_pc_def adv_push_in nat_add_distrib u256_of_int64_def)
  show ?thesis
    by (rule inner_lockstep [OF sim cfg p inner i info rest2 run]) (use a gas(2) in simp_all)
qed

section \<open>Ends and starts of blocks\<close>

text \<open>The gas at an instruction that ends its block.\<close>

lemma end_gas:
  assumes sim: "sim_at r code cost n (p, t, g, st) k s" and p: "p < length code"
    and op: "cuts_off (opcode_at code p) \<or> opcode_at code p = OP_JUMPI"
    and i: "map_of MAP_OPCODES (opcode_at code p) = Some (Some i)" "op_info i = (ci, req, chg)"
  shows "adv_gas_left s = g - ci" "adv_analysis s = Some (spec_analysis r code)"
  using sim end_requirements [OF op p i, of r] by (simp_all add: sim_at_def)

lemma term_lockstep:
  assumes sim: "sim_at r code cost n (p, t, g, st) k s" and cfg: "cfg_ok code (p, t, g, st)"
    and p: "p < length code"
    and i: "map_of MAP_OPCODES (opcode_at code p) = Some (Some (Term_op j))"
      "op_info (Term_op j) = (ci, req, chg)"
  shows "lockstep P ct r code (p, t, g, st) k s"
proof -
  note role = implementation_facts(2) [OF opcode_less i(1)]
  have nj: "opcode_at code p \<noteq> OP_JUMPDEST" using role by (cases j) auto
  note req = sim_requirements [OF sim cfg p nj i]
  have g0: "0 \<le> g - ci" using req(2) by simp
  have gas: "j \<noteq> Id_invalid \<Longrightarrow> adv_gas_left s = g - ci"
    using end_gas(1) [OF sim p _ i] role by (cases j) auto
  have "returns (term_impl j P t (g - ci) (base s)) (\<lambda>((s', g'), st').
      output_ok st' \<and> (if s' = ZVMC_SUCCESS \<or> s' = ZVMC_REVERT then j \<noteq> Id_invalid else output_size st' = 0))"
    using term_impl_ok [of j ci req chg t "g - ci" "base s" P] i(2) req cfg g0
    by (auto simp: cfg_ok_def elim!: returns_mono split: if_splits)
  then obtain s1 g1 b1 where x: "term_impl j P t (g - ci) (base s) = Some ((s1, g1), b1)"
    and out: "output_ok b1"
      "if s1 = ZVMC_SUCCESS \<or> s1 = ZVMC_REVERT then j \<noteq> Id_invalid else output_size b1 = 0"
    by (auto elim!: returnsE)
  have step: "switch_step P ct (p, t, g, st) = Some (Inr (g1, (with_analysis (analyze r code) b1)\<lparr>status := s1\<rparr>))"
    using req(5) [of P ct] x req(6) by (simp add: term_impl_analysis)
  have f: "op_fn (op_table_entry r (opcode_at code p)) = Op_impl (opcode_at code p)"
    using table_entry_eq [OF opcode_less i] by simp
  have "\<exists>s'. adv_step P k s = Some (None, s') \<and> base s' = b1\<lparr>status := s1\<rparr> \<and> (j \<noteq> Id_invalid \<longrightarrow> adv_gas_left s' = g1)"
    unfolding sim_instr(1) [OF sim p] f
    using core_impl_eq [OF i(1)] x req(7) gas
    by (cases "j = Id_invalid") (auto simp: op_impl_def impl_term_def adv_exit_def core_stop_impl_def)
  then obtain s' where a: "adv_step P k s = Some (None, s')" "base s' = b1\<lparr>status := s1\<rparr>"
    "j \<noteq> Id_invalid \<Longrightarrow> adv_gas_left s' = g1" by auto
  have "out_rel (analyze r code) (g1, (with_analysis (analyze r code) b1)\<lparr>status := s1\<rparr>) s'"
    using a(2,3) out by (auto simp: out_rel_def adv_fails_def output_ok_def)
  then show ?thesis by (rule lockstep_end [OF step a(1)])
qed

text \<open>The start of a block: the requirements decide.\<close>

lemma beginblock_pass:
  assumes "arg instr = Arg_block \<lparr>bi_gas_cost = clamp_uint32 C, bi_stack_req = clamp_int16 q,
      bi_stack_max_growth = clamp_int16 w\<rparr>"
    and "0 \<le> C" "C < 2 ^ 32" "0 \<le> q" "0 \<le> w" "adv_stack s \<le> limit"
    and "C \<le> adv_gas_left s" "q \<le> int (adv_stack s)" "int (adv_stack s) + w \<le> int limit"
  shows "opx_beginblock k instr s =
    Some (Some (Suc k), s\<lparr>adv_gas_left := adv_gas_left s - C, current_block_cost := C\<rparr>)"
  using assms clamp_int16_less [of q "int (adv_stack s)"] clamp_int16_growth [of w "int (adv_stack s)"]
  by (simp add: opx_beginblock_def clamp_uint32_id limit_def)

lemma beginblock_fail:
  assumes "arg instr = Arg_block \<lparr>bi_gas_cost = clamp_uint32 C, bi_stack_req = clamp_int16 q,
      bi_stack_max_growth = clamp_int16 w\<rparr>"
    and "0 \<le> C" "C < 2 ^ 32" "0 \<le> q" "0 \<le> w" "adv_stack s \<le> limit"
    and "adv_gas_left s < C \<or> int (adv_stack s) < q \<or> int limit < int (adv_stack s) + w"
    and "output_size (base s) = 0" "output_offset (base s) = 0"
  shows "\<exists>s'. opx_beginblock k instr s = Some (None, s') \<and> adv_fails s'"
  using assms clamp_int16_less [of q "int (adv_stack s)"] clamp_int16_growth [of w "int (adv_stack s)"]
  by (auto simp: opx_beginblock_def clamp_uint32_id limit_def adv_exit_def adv_fails_def Let_def)

lemma rest_gas_uint32:
  assumes "32000 * length code < 2 ^ 32" "p < length code" "rest r code (p + 1) = (c, q, w)"
  shows "1 + c < 2 ^ 32"
proof -
  have "c \<le> 32000 * int (length code - (p + 1))" using rest_gas_bound [of r code "p + 1"] assms(3) by simp
  moreover have "32000 * int (length code - (p + 1)) + 32000 \<le> int (32000 * length code)"
    using assms(2) by (simp add: algebra_simps of_nat_diff)
  moreover have "int (32000 * length code) < 2 ^ 32"
    using assms(1) by (metis of_nat_less_iff of_nat_numeral of_nat_power)
  ultimately show ?thesis by linarith
qed

lemma jumpdest_lockstep:
  assumes sim: "sim_at r code cost n (p, t, g, st) k s" and cfg: "cfg_ok code (p, t, g, st)"
    and p: "p < length code" and len: "32000 * length code < 2 ^ 32"
    and i: "map_of MAP_OPCODES (opcode_at code p) = Some (Some (Stack_op Id_jumpdest))"
  shows "lockstep P ct r code (p, t, g, st) k s"
proof -
  have op: "opcode_at code p = OP_JUMPDEST" using implementation_facts(2) [OF opcode_less i] by simp
  have info: "op_info (Stack_op Id_jumpdest) = (1, 0, 0)" by simp
  have r0: "rest r code p = (0, 0, 0)" using op by (simp add: rest_end)
  have s: "st = with_analysis (analyze r code) (base s)" "adv_gas_left s = g" "adv_stack s = t"
    "adv_analysis s = Some (spec_analysis r code)"
    using sim by (simp_all add: sim_at_def r0)
  have t: "t \<le> limit" "output_size (base s) = 0" "output_offset (base s) = 0"
    using cfg s(1) by (simp_all add: cfg_ok_def)
  obtain c q w where rest: "rest r code (p + 1) = (c, q, w)" by (metis prod_cases3)
  note nn = rest_nonneg [OF rest]
  let ?ins = "spec_instr r code p (cost_upto r code p cost) n"
  have arg: "arg ?ins = Arg_block \<lparr>bi_gas_cost = clamp_uint32 (1 + c), bi_stack_req = clamp_int16 q,
      bi_stack_max_growth = clamp_int16 w\<rparr>"
    using op jumpdest_info_rest [OF rest] by (simp add: spec_instr_def spec_arg_def)
  have a: "adv_step P k s = opx_beginblock k ?ins s"
    unfolding sim_instr(1) [OF sim p] op table_entry_jumpdest by simp
  have b: "switch_step P ct (p, t, g, st) = (if g < 1
      then Some (Inr (g - 1, st\<lparr>status := ZVMC_OUT_OF_GAS\<rparr>)) else Some (Inl (p + 1, t, g - 1, st)))"
    using switch_step_defined [OF cfg p i info, of P ct] by (simp add: core_noop_def)
  have C: "1 + c < 2 ^ 32" by (rule rest_gas_uint32 [OF len p rest])
  show ?thesis
  proof (cases "1 + c \<le> g \<and> q \<le> int t \<and> int t + w \<le> int limit")
    case True
    have n: "next_instr code p = p + 1" using next_instr_eq [OF i] by simp
    have nx: "\<not> cuts_off (opcode_at code p)" "large_values code p = []"
      using op by (simp_all add: large_values_def ANY_LARGE_PUSH_def)
    have cn: "cost_next r code p cost = 1" using op
      by (simp add: cost_next_def cost_upto_def table_entry_jumpdest)
    have "sim_at r code 1 n (p + 1, t, g - 1, st) (Suc k)
        (s\<lparr>adv_gas_left := g - (1 + c), current_block_cost := 1 + c\<rparr>)"
      using True s sim_instr(2,3) [OF sim p] adv_next_inner [OF nx(1)] rest n nx(2) cn
      by (simp add: sim_at_def)
    moreover have "adv_step P k s = Some (Some (Suc k), s\<lparr>adv_gas_left := g - (1 + c), current_block_cost := 1 + c\<rparr>)"
      using a beginblock_pass [OF arg, of s k] True s nn C t by simp
    ultimately show ?thesis using lockstep_next [of P ct "(p, t, g, st)"] b True nn by simp
  next
    case False
    then obtain s' where s': "adv_step P k s = Some (None, s')" "adv_fails s'"
      using a beginblock_fail [OF arg, of s k] s nn C t by fastforce
    have "\<exists>g' st'. dispatch P ct (p, t, g, st) = Some (g', st') \<and> \<not> completes st'"
    proof (cases "g < 1")
      case True
      then show ?thesis using b dispatch_Inr [of P ct "(p, t, g, st)"] by simp
    next
      case g: False
      then have st: "switch_step P ct (p, t, g, st) = Some (Inl (p + 1, t, g - 1, st))" using b by simp
      then have "cfg_ok code (p + 1, t, g - 1, st)"
        using switch_step_ok [OF cfg, of ct] by (simp add: step_ok_def)
      then show ?thesis using block_fails [OF _ rest, of t "g - 1" st ct] False dispatch_Inl [OF st] by auto
    qed
    then show ?thesis by (rule lockstep_fail [OF _ s'])
  qed
qed

text \<open>Jumps.\<close>

lemma jump_target:
  assumes len: "32000 * length code < 2 ^ 32" and d: "valid_jumpdest code d"
  obtains k n where "find_jumpdest (spec_analysis r code) (int d) = int k"
    and "drop k (instrs (spec_analysis r code)) = spec_instrs r code d 0 n @ [mk_instr (Op_impl OP_STOP)]"
    and "drop n (push_values (spec_analysis r code)) = spec_values code d"
proof -
  have l: "length code < 2 ^ 31 - 1" using len by simp
  obtain k where k: "(d, k) \<in> set (jumpdests code 0 1)"
    "find_jumpdest (spec_analysis r code) (int d) = int32 (int k)"
    using find_jumpdest_cases [of code d r] l d by auto
  obtain n where n: "drop (k - 1) (spec_instrs r code 0 0 0) = spec_instrs r code d 0 n"
      "drop n (spec_values code 0) = spec_values code d"
    using jumpdests_suffix [OF k(1), of r 0 0] by auto
  have k1: "1 \<le> k" using jumpdests_ge [OF k(1)] by simp
  have "spec_instrs r code d 0 n \<noteq> []"
    using d by (subst spec_instrs.simps) (simp add: valid_jumpdest_def)
  then have kl: "k - 1 < length (spec_instrs r code 0 0 0)" using n(1) by (metis drop_all not_le)
  then have "k < 2 ^ 31"
    using length_spec_instrs [of r code 0 0 0] length_spec_positions [of code 0] l by simp
  then have f: "find_jumpdest (spec_analysis r code) (int d) = int k" using k(2) by (simp add: int32_id)
  obtain k' where "k = Suc k'" using k1 by (cases k) auto
  then have "drop k (instrs (spec_analysis r code)) = spec_instrs r code d 0 n @ [mk_instr (Op_impl OP_STOP)]"
    using n(1) kl by (simp add: spec_analysis_def)
  then show thesis using that f n(2) by (simp add: spec_analysis_def)
qed

lemma op_jump_cases:
  assumes len: "32000 * length code < 2 ^ 32" and s: "adv_stack s = t" "0 < t" "t \<le> limit"
    "adv_analysis s = Some (spec_analysis r code)"
  shows "if valid_jumpdest code (unat (stack_space (base s) (t - 1)))
    then \<exists>k n. op_jump s = Some (Some k, s\<lparr>adv_stack := t - 1\<rparr>) \<and>
      drop k (instrs (spec_analysis r code)) =
        spec_instrs r code (unat (stack_space (base s) (t - 1))) 0 n @ [mk_instr (Op_impl OP_STOP)] \<and>
      drop n (push_values (spec_analysis r code)) = spec_values code (unat (stack_space (base s) (t - 1)))
    else op_jump s = Some (adv_exit ZVMC_BAD_JUMP_DESTINATION (s\<lparr>adv_stack := t - 1\<rparr>))"
proof -
  define d where "d = unat (stack_space (base s) (t - 1))"
  have u: "uint (stack_space (base s) (t - 1)) = int d" by (simp add: d_def)
  have j: "op_jump s = (if 2 ^ 31 - 1 < d \<or> find_jumpdest (spec_analysis r code) (int32 (int d)) < 0
      then Some (adv_exit ZVMC_BAD_JUMP_DESTINATION (s\<lparr>adv_stack := t - 1\<rparr>))
      else Some (Some (nat (find_jumpdest (spec_analysis r code) (int32 (int d)))), s\<lparr>adv_stack := t - 1\<rparr>))"
    using s unfolding op_jump_def adv_pop_def
    by (simp add: stack_simps u [unfolded One_nat_def] Let_def d_def [unfolded One_nat_def, symmetric])
  have l: "length code < 2 ^ 31 - 1" using len by simp
  show ?thesis
    unfolding d_def [symmetric]
  proof (cases "valid_jumpdest code d")
    case True
    then have "d < 2 ^ 31" using l by (simp add: valid_jumpdest_def)
    then have i: "\<not> 2 ^ 31 - 1 < d" "int32 (int d) = int d" by (simp_all add: int32_id)
    obtain k n where "find_jumpdest (spec_analysis r code) (int d) = int k"
      "drop k (instrs (spec_analysis r code)) = spec_instrs r code d 0 n @ [mk_instr (Op_impl OP_STOP)]"
      "drop n (push_values (spec_analysis r code)) = spec_values code d"
      using jump_target [OF len True, of r] by blast
    then show "if valid_jumpdest code d
      then \<exists>k n. op_jump s = Some (Some k, s\<lparr>adv_stack := t - 1\<rparr>) \<and>
        drop k (instrs (spec_analysis r code)) = spec_instrs r code d 0 n @ [mk_instr (Op_impl OP_STOP)] \<and>
        drop n (push_values (spec_analysis r code)) = spec_values code d
      else op_jump s = Some (adv_exit ZVMC_BAD_JUMP_DESTINATION (s\<lparr>adv_stack := t - 1\<rparr>))"
      using True unfolding j i(2) if_P [OF True] using i(1) by auto
  next
    case False
    have "\<not> 2 ^ 31 - 1 < d \<Longrightarrow> find_jumpdest (spec_analysis r code) (int32 (int d)) < 0"
      using find_jumpdest_cases [of code d r] l False by (simp add: int32_id)
    then show "if valid_jumpdest code d
      then \<exists>k n. op_jump s = Some (Some k, s\<lparr>adv_stack := t - 1\<rparr>) \<and>
        drop k (instrs (spec_analysis r code)) = spec_instrs r code d 0 n @ [mk_instr (Op_impl OP_STOP)] \<and>
        drop n (push_values (spec_analysis r code)) = spec_values code d
      else op_jump s = Some (adv_exit ZVMC_BAD_JUMP_DESTINATION (s\<lparr>adv_stack := t - 1\<rparr>))"
      using False unfolding j by auto
  qed
qed

text \<open>Both interpreters at a jump that is taken; \<open>d\<close> is the destination.\<close>

lemma core_jump_impl_code:
  assumes "analysis st = analyze r code" and "length code < 2 ^ 64"
  shows "core_jump_impl st dst = (if valid_jumpdest code (unat dst)
    then (Some (unat dst), st) else (None, st\<lparr>status := ZVMC_BAD_JUMP_DESTINATION\<rparr>))"
  using assms core_jump_impl_iff [of st dst] analyze_jumpdests_nth [of "unat dst" code]
  by (auto simp: valid_jumpdest_def)

lemma taken_lockstep:
  assumes len: "32000 * length code < 2 ^ 32" and st: "st = with_analysis (analyze r code) (base s)"
    and out: "output_size (base s) = 0" "output_offset (base s) = 0"
    and a: "adv_analysis s = Some (spec_analysis r code)" and t: "t' \<le> limit" and g: "0 \<le> g'"
    and step: "switch_step P ct cfg = Some (case core_jump_impl st dst of
      (np, st') \<Rightarrow> (case np of None \<Rightarrow> Inr (g', st') | Some p' \<Rightarrow> Inl (p', t', g', st')))"
    and jump: "if valid_jumpdest code (unat dst)
      then \<exists>k' n. adv_step P k s = Some (Some k', s\<lparr>adv_gas_left := g', adv_stack := t'\<rparr>) \<and>
        drop k' (instrs (spec_analysis r code)) =
          spec_instrs r code (unat dst) 0 n @ [mk_instr (Op_impl OP_STOP)] \<and>
        drop n (push_values (spec_analysis r code)) = spec_values code (unat dst)
      else \<exists>s'. adv_step P k s = Some (None, s') \<and> base s' = (base s)\<lparr>status := ZVMC_BAD_JUMP_DESTINATION\<rparr>"
  shows "lockstep P ct r code cfg k s"
proof -
  have j: "core_jump_impl st dst = (if valid_jumpdest code (unat dst)
    then (Some (unat dst), st) else (None, st\<lparr>status := ZVMC_BAD_JUMP_DESTINATION\<rparr>))"
    using st len by (intro core_jump_impl_code) simp_all
  show ?thesis
  proof (cases "valid_jumpdest code (unat dst)")
    case True
    obtain k' n where k': "adv_step P k s = Some (Some k', s\<lparr>adv_gas_left := g', adv_stack := t'\<rparr>)"
      "drop k' (instrs (spec_analysis r code)) = spec_instrs r code (unat dst) 0 n @ [mk_instr (Op_impl OP_STOP)]"
      "drop n (push_values (spec_analysis r code)) = spec_values code (unat dst)"
      using jump True by auto
    have "rest r code (unat dst) = (0, 0, 0)" using True by (simp add: rest_end valid_jumpdest_def)
    then have "sim_at r code 0 n (unat dst, t', g', st) k' (s\<lparr>adv_gas_left := g', adv_stack := t'\<rparr>)"
      using st a t g k' True by (simp add: sim_at_def valid_jumpdest_def)
    then show ?thesis using lockstep_next [of P ct cfg, OF _ k'(1)] step j True by simp
  next
    case False
    then obtain s' where s': "adv_step P k s = Some (None, s')"
      "base s' = (base s)\<lparr>status := ZVMC_BAD_JUMP_DESTINATION\<rparr>" using jump by auto
    have "out_rel (analyze r code) (g', st\<lparr>status := ZVMC_BAD_JUMP_DESTINATION\<rparr>) s'"
      using s'(2) out by (intro out_rel_fails) (simp_all add: adv_fails_def)
    then show ?thesis using lockstep_end [of P ct cfg, OF _ s'(1)] step j False by simp
  qed
qed

lemma jump_lockstep:
  assumes sim: "sim_at r code cost n (p, t, g, st) k s" and cfg: "cfg_ok code (p, t, g, st)"
    and p: "p < length code" and len: "32000 * length code < 2 ^ 32"
    and i: "map_of MAP_OPCODES (opcode_at code p) = Some (Some (Iter_op Id_jump))"
  shows "lockstep P ct r code (p, t, g, st) k s"
proof -
  have op: "opcode_at code p = OP_JUMP" using implementation_facts(2) [OF opcode_less i] by simp
  have info: "op_info (Iter_op Id_jump) = (8, 1, -1)" by simp
  have nj: "opcode_at code p \<noteq> OP_JUMPDEST" using op by simp
  note req = sim_requirements [OF sim cfg p nj i info]
  have t: "0 < t" "t \<le> limit" using req(1) cfg by (simp_all add: cfg_ok_def)
  note gas = end_gas [OF sim p _ i info]
  let ?dst = "stack_space (base s) (t - 1)"
  have f: "adv_step P k s = op_jump s"
    unfolding sim_instr(1) [OF sim p] using table_entry_eq [OF opcode_less i info] by simp
  have sp: "stack_space st = stack_space (base s)" by (simp add: req(6))
  have s: "s\<lparr>adv_gas_left := g - 8, adv_stack := t - 1\<rparr> = s\<lparr>adv_stack := t - 1\<rparr>"
    using gas(1) op by (cases s) simp
  show ?thesis
  proof (rule taken_lockstep [OF len req(6,9,10), of "t - 1" "g - 8"])
    show "adv_analysis s = Some (spec_analysis r code)" using gas(2) op by simp
    show "switch_step P ct (p, t, g, st) = Some (case core_jump_impl st ?dst of
      (np, st') \<Rightarrow> (case np of None \<Rightarrow> Inr (g - 8, st') | Some p' \<Rightarrow> Inl (p', t - 1, g - 8, st')))"
      using req(5) [of P ct] t sp by (cases "core_jump_impl st ?dst"; cases "fst (core_jump_impl st ?dst)")
        (simp_all add: core_jump_def st_pop_in nat_diff_distrib)
    show "if valid_jumpdest code (unat ?dst)
      then \<exists>k' n. adv_step P k s = Some (Some k', s\<lparr>adv_gas_left := g - 8, adv_stack := t - 1\<rparr>) \<and>
        drop k' (instrs (spec_analysis r code)) = spec_instrs r code (unat ?dst) 0 n @ [mk_instr (Op_impl OP_STOP)] \<and>
        drop n (push_values (spec_analysis r code)) = spec_values code (unat ?dst)
      else \<exists>s'. adv_step P k s = Some (None, s') \<and> base s' = (base s)\<lparr>status := ZVMC_BAD_JUMP_DESTINATION\<rparr>"
      using op_jump_cases [OF len req(7) t, of r] gas(2) op unfolding f s by (auto simp: adv_exit_def split: if_splits)
  qed (use t req(2) in simp_all)
qed

lemma jumpi_lockstep:
  assumes sim: "sim_at r code cost n (p, t, g, st) k s" and cfg: "cfg_ok code (p, t, g, st)"
    and p: "p < length code" and len: "32000 * length code < 2 ^ 32"
    and i: "map_of MAP_OPCODES (opcode_at code p) = Some (Some (Iter_op Id_jumpi))"
  shows "lockstep P ct r code (p, t, g, st) k s"
proof -
  have op: "opcode_at code p = OP_JUMPI" using implementation_facts(2) [OF opcode_less i] by simp
  have info: "op_info (Iter_op Id_jumpi) = (10, 2, -2)" by simp
  have nj: "opcode_at code p \<noteq> OP_JUMPDEST" using op by simp
  note req = sim_requirements [OF sim cfg p nj i info]
  have t: "2 \<le> t" "t \<le> limit" using req(1) cfg by (simp_all add: cfg_ok_def)
  note gas = end_gas [OF sim p _ i info]
  have A: "adv_analysis s = Some (spec_analysis r code)" "adv_gas_left s = g - 10" using gas op by simp_all
  let ?dst = "stack_space (base s) (t - 1)" and ?c = "stack_space (base s) (t - 2)"
  let ?ins = "spec_instr r code p (cost_upto r code p cost) n"
  have sp: "stack_space st = stack_space (base s)" by (simp add: req(6))
  have f: "adv_step P k s = op_jumpi k ?ins s"
    unfolding sim_instr(1) [OF sim p] using table_entry_eq [OF opcode_less i info] by simp
  have b: "switch_step P ct (p, t, g, st) = Some (if ?c \<noteq> 0
      then (case core_jump_impl st ?dst of
        (np, st') \<Rightarrow> (case np of None \<Rightarrow> Inr (g - 10, st') | Some p' \<Rightarrow> Inl (p', t - 2, g - 10, st')))
      else Inl (p + 1, t - 2, g - 10, st))"
    using req(5) [of P ct] t sp
    by (cases "core_jump_impl st ?dst"; cases "fst (core_jump_impl st ?dst)")
       (simp_all add: core_jumpi_def st_pop_in nat_diff_distrib numeral_2_eq_2)
  have c1: "stk_at (stack_space (base s)) (adv_stack s) 1 = Some ?c"
    using req(7) t by (simp add: stack_simps numeral_2_eq_2)
  show ?thesis
  proof (cases "?c = 0")
    case False
    have jmp: "adv_step P k s = op_jump s \<bind> (\<lambda>(k, s). adv_pop s \<bind> (\<lambda>(x, s). Some (k, s)))"
      unfolding f op_jumpi_def c1 using False by simp
    have s: "s\<lparr>adv_gas_left := g - 10, adv_stack := t - 2\<rparr> = s\<lparr>adv_stack := t - 2\<rparr>"
      using A(2) by (cases s) simp
    have pop: "adv_pop (x\<lparr>adv_stack := t - 1\<rparr>) = Some (stack_space (base x) (t - 2), x\<lparr>adv_stack := t - 2\<rparr>)"
      for x :: "'a adv_state"
      using t by (simp add: adv_pop_def stack_simps numeral_2_eq_2)
    have pop': "adv_pop (snd (adv_exit e (s\<lparr>adv_stack := t - 1\<rparr>))) =
      Some (?c, snd (adv_exit e (s\<lparr>adv_stack := t - 2\<rparr>)))" for e
      using t by (simp add: adv_pop_def adv_exit_def stack_simps numeral_2_eq_2)
    show ?thesis
    proof (rule taken_lockstep [OF len req(6,9,10) A(1), of "t - 2" "g - 10" _ _ ?dst])
      show "switch_step P ct (p, t, g, st) = Some (case core_jump_impl st ?dst of
        (np, st') \<Rightarrow> (case np of None \<Rightarrow> Inr (g - 10, st') | Some p' \<Rightarrow> Inl (p', t - 2, g - 10, st')))"
        using b False by simp
      show "if valid_jumpdest code (unat ?dst)
        then \<exists>k' n. adv_step P k s = Some (Some k', s\<lparr>adv_gas_left := g - 10, adv_stack := t - 2\<rparr>) \<and>
          drop k' (instrs (spec_analysis r code)) = spec_instrs r code (unat ?dst) 0 n @ [mk_instr (Op_impl OP_STOP)] \<and>
          drop n (push_values (spec_analysis r code)) = spec_values code (unat ?dst)
        else \<exists>s'. adv_step P k s = Some (None, s') \<and> base s' = (base s)\<lparr>status := ZVMC_BAD_JUMP_DESTINATION\<rparr>"
        using op_jump_cases [OF len req(7) _ t(2) A(1)] t pop [of s] pop' [of ZVMC_BAD_JUMP_DESTINATION]
        unfolding jmp s by (auto simp: adv_exit_def split: if_splits)
    qed (use t req(2) in simp_all)
  next
    case True
    obtain c q w where rest: "rest r code (p + 1) = (c, q, w)" by (metis prod_cases3)
    note nn = rest_nonneg [OF rest]
    have C: "c < 2 ^ 32" using rest_gas_uint32 [OF len p rest] by simp
    have arg: "arg ?ins = Arg_block \<lparr>bi_gas_cost = clamp_uint32 c, bi_stack_req = clamp_int16 q,
        bi_stack_max_growth = clamp_int16 w\<rparr>"
      using op block_info_rest [OF rest] by (simp add: spec_instr_def spec_arg_def)
    let ?s = "s\<lparr>adv_stack := t - 2\<rparr>"
    have a: "adv_step P k s = opx_beginblock k ?ins ?s"
      unfolding f op_jumpi_def c1 using True t req(7)
      by (simp add: adv_pop_def stack_simps numeral_2_eq_2)
    have step: "switch_step P ct (p, t, g, st) = Some (Inl (p + 1, t - 2, g - 10, st))" using b True by simp
    show ?thesis
    proof (cases "c \<le> g - 10 \<and> q \<le> int (t - 2) \<and> int (t - 2) + w \<le> int limit")
      case ok: True
      have nx: "\<not> cuts_off (opcode_at code p)" "large_values code p = []" "cost_next r code p cost = 0"
        using op by (simp_all add: large_values_def ANY_LARGE_PUSH_def cost_next_def)
      have "next_instr code p = p + 1" using next_instr_eq [OF i] by simp
      then have "sim_at r code 0 n (p + 1, t - 2, g - 10, st) (Suc k)
          (?s\<lparr>adv_gas_left := g - 10 - c, current_block_cost := c\<rparr>)"
        using ok req(6) A(1) sim_instr(2,3) [OF sim p] adv_next_inner [OF nx(1)] rest nx
        by (simp add: sim_at_def)
      moreover have "adv_step P k s = Some (Some (Suc k), ?s\<lparr>adv_gas_left := g - 10 - c, current_block_cost := c\<rparr>)"
        using a beginblock_pass [OF arg, of ?s k] ok A(2) nn C t by simp
      ultimately show ?thesis using lockstep_next [OF step] by blast
    next
      case bad: False
      then obtain s' where s': "adv_step P k s = Some (None, s')" "adv_fails s'"
        using a beginblock_fail [OF arg, of ?s k] A(2) nn C t req(9,10) by fastforce
      have "cfg_ok code (p + 1, t - 2, g - 10, st)"
        using switch_step_ok [OF cfg, of ct] step by (simp add: step_ok_def)
      then have "\<exists>g' st'. dispatch P ct (p, t, g, st) = Some (g', st') \<and> \<not> completes st'"
        using block_fails [OF _ rest, of "t - 2" "g - 10" st ct] bad dispatch_Inl [OF step] by auto
      then show ?thesis by (rule lockstep_fail [OF _ s'])
    qed
  qed
qed

lemma undefined_lockstep:
  assumes sim: "sim_at r code cost n (p, t, g, st) k s" and cfg: "cfg_ok code (p, t, g, st)"
    and p: "p < length code" and i: "map_of MAP_OPCODES (opcode_at code p) = Some None"
  shows "lockstep P ct r code (p, t, g, st) k s"
proof -
  have st: "st = with_analysis (analyze r code) (base s)" using sim by (simp add: sim_at_def split: prod.splits)
  have a: "adv_step P k s = Some (adv_exit ZVMC_UNDEFINED_INSTRUCTION s)"
    unfolding sim_instr(1) [OF sim p] using undefined_facts(2) [OF opcode_less i] by (simp add: op_undefined_def)
  show ?thesis
    using cfg st a
    by (intro lockstep_end [OF switch_step_undefined [OF cfg p i] _ out_rel_fails])
       (auto simp: adv_exit_def adv_fails_def cfg_ok_def)
qed

text \<open>Behind the code both interpreters stop.\<close>

lemma switch_step_padding:
  assumes cfg: "cfg_ok code (p, t, g, st)" and p: "\<not> p < length code"
  shows "switch_step P ct (p, t, g, st) = Some (Inr (g, st\<lparr>status := ZVMC_SUCCESS\<rparr>))"
proof -
  have "fetch st p = Some 0"
    using cfg p instr_start_padded [of code p] pad_code_beyond [of code p]
    by (simp add: fetch_def cfg_ok_def Let_def)
  then show ?thesis
    using stop_in_padding check_requirements_eq [OF _ stop_in_padding, of 0 0 0 ct g t] cfg
    by (simp add: switch_step_def dispatch_op_def invoke_def core_stop_impl_def cfg_ok_def)
qed

lemma end_lockstep:
  assumes sim: "sim_at r code cost n (p, t, g, st) k s" and cfg: "cfg_ok code (p, t, g, st)"
    and p: "\<not> p < length code"
  shows "lockstep P ct r code (p, t, g, st) k s"
proof -
  have r0: "rest r code p = (0, 0, 0)" using p by (simp add: rest_end)
  have s: "st = with_analysis (analyze r code) (base s)" "adv_gas_left s = g"
      "adv_analysis s = Some (spec_analysis r code)"
    and d: "drop k (instrs (spec_analysis r code)) = [mk_instr (Op_impl OP_STOP)]"
    using sim p by (simp_all add: sim_at_def r0)
  have "core_impl OP_STOP = Some (Term_op Id_stop)" by (rule core_impl_eq [OF stop_in_padding])
  then have a: "adv_step P k s = Some (adv_exit ZVMC_SUCCESS (s\<lparr>adv_gas_left := g\<rparr>))"
    using drop_Cons [OF d] s
    by (cases s) (simp add: adv_step_def mk_instr_def op_impl_def impl_term_def core_stop_impl_def)
  show ?thesis
    using s a by (intro lockstep_end [OF switch_step_padding [OF cfg p]])
      (auto simp: adv_exit_def out_rel_def)
qed

section \<open>The two interpreters agree\<close>

theorem sim_lockstep:
  assumes sim: "sim_at r code cost n (p, t, g, st) k s" and cfg: "cfg_ok code (p, t, g, st)"
    and len: "32000 * length code < 2 ^ 32"
  shows "lockstep P ct r code (p, t, g, st) k s"
proof (cases "p < length code")
  case False
  then show ?thesis by (rule end_lockstep [OF sim cfg])
next
  case p: True
  show ?thesis
  proof (cases rule: opcode_cases [of code p])
    case undefined_op
    then show ?thesis by (rule undefined_lockstep [OF sim cfg p])
  next
    case i: (defined_op i ci req chg)
    show ?thesis
    proof (cases i)
      case (Stack_op j)
      then show ?thesis using stack_lockstep [OF sim cfg p] jumpdest_lockstep [OF sim cfg p len] i
        by (cases "j = Id_jumpdest") auto
    next
      case (State_op j)
      then show ?thesis using state_lockstep [OF sim cfg p] i by simp
    next
      case (Result_op j)
      then show ?thesis
        using plain_result_lockstep [OF sim cfg p] corrected_lockstep [OF sim cfg p]
          gas_lockstep [OF sim cfg p] i by (cases "j = Id_gas"; cases "sees_gas j") auto
    next
      case (Iter_op j)
      then show ?thesis
        using push_lockstep [OF sim cfg p] pc_lockstep [OF sim cfg p] jump_lockstep [OF sim cfg p len]
          jumpi_lockstep [OF sim cfg p len] i by (cases j) auto
    next
      case (Term_op j)
      then show ?thesis using term_lockstep [OF sim cfg p] i by simp
    qed
  qed
qed

lemma sim_run:
  assumes "sim_at r code cost n (p, t, g, st) k s" and "cfg_ok code (p, t, g, st)"
    and len: "32000 * length code < 2 ^ 32"
  shows "\<exists>out s'. dispatch P ct (p, t, g, st) = Some out \<and> adv_run P k s = Some s' \<and>
    out_rel (analyze r code) out s'"
  using assms(1,2)
proof (induction "nat g" arbitrary: cost n p t g st k s rule: less_induct)
  case less
  from sim_lockstep [OF less.prems len, of ct]
  consider (move) cfg' k' s' cost' n' where "switch_step P ct (p, t, g, st) = Some (Inl cfg')"
      "adv_step P k s = Some (Some k', s')" "sim_at r code cost' n' cfg' k' s'"
    | (stop) out s' where "dispatch P ct (p, t, g, st) = Some out" "adv_step P k s = Some (None, s')"
      "out_rel (analyze r code) out s'"
    unfolding lockstep_def by blast
  then show ?case
  proof cases
    case stop
    then show ?thesis by (subst adv_run.simps) simp
  next
    case move
    obtain p1 t1 g1 st1 where c: "cfg' = (p1, t1, g1, st1)" by (metis prod_cases4)
    have ok: "cfg_ok code (p1, t1, g1, st1)" "g1 < g"
      using switch_step_ok [OF less.prems(2), of ct] move(1) c by (auto simp: step_ok_def)
    have "nat g1 < nat g" using ok by (auto simp: cfg_ok_def)
    from less.hyps [OF this move(3) [unfolded c] ok(1)]
    show ?thesis using dispatch_Inl [OF move(1)] move(2) c by (subst adv_run.simps) simp
  qed
qed

text \<open>The first block begins at an instruction of its own.\<close>

lemma adv_start:
  assumes len: "32000 * length code < 2 ^ 32" and g: "0 \<le> gas m"
  shows "\<exists>out s'. dispatch P ct (0, 0, gas m, (ExecutionState P m r h code)\<lparr>analysis := analyze r code\<rparr>) = Some out \<and>
    adv_run P 0 ((AdvancedExecutionState P m r h code)\<lparr>adv_analysis := Some (spec_analysis r code)\<rparr>) = Some s' \<and>
    out_rel (analyze r code) out s'"
proof -
  let ?st = "(ExecutionState P m r h code)\<lparr>analysis := analyze r code\<rparr>"
  let ?s = "(AdvancedExecutionState P m r h code)\<lparr>adv_analysis := Some (spec_analysis r code)\<rparr>"
  let ?ins = "\<lparr>fn = Opx_beginblock, arg = Arg_block (block_info r code 0)\<rparr>"
  have cfg: "cfg_ok code (0, 0, gas m, ?st)" by (rule initial_cfg [OF g])
  obtain c q w where rest: "rest r code 0 = (c, q, w)" by (metis prod_cases3)
  note nn = rest_nonneg [OF rest]
  have "c \<le> int (32000 * length code)" using rest_gas_bound [of r code 0] rest by simp
  moreover have "int (32000 * length code) < 2 ^ 32"
    using len by (metis of_nat_less_iff of_nat_numeral of_nat_power)
  ultimately have C: "c < 2 ^ 32" by linarith
  have a: "adv_step P 0 ?s = opx_beginblock 0 ?ins ?s" by (simp add: adv_step_def spec_analysis_def)
  have arg: "arg ?ins = Arg_block \<lparr>bi_gas_cost = clamp_uint32 c, bi_stack_req = clamp_int16 q,
      bi_stack_max_growth = clamp_int16 w\<rparr>"
    using block_info_rest [OF rest] by simp
  have s: "adv_gas_left ?s = gas m" "adv_stack ?s = 0" "base ?s = ExecutionState P m r h code"
    by (simp_all add: AdvancedExecutionState_def)
  have o: "output_size (base ?s) = 0" "output_offset (base ?s) = 0"
    unfolding s by (simp_all add: ExecutionState_def)
  show ?thesis
  proof (cases "c \<le> gas m \<and> q \<le> 0 \<and> w \<le> int limit")
    case True
    let ?s' = "?s\<lparr>adv_gas_left := gas m - c, current_block_cost := c\<rparr>"
    have step: "adv_step P 0 ?s = Some (Some (Suc 0), ?s')"
      unfolding a using beginblock_pass [OF arg, of ?s 0] True s nn C by simp
    have "sim_at r code 0 0 (0, 0, gas m, ?st) (Suc 0) ?s'"
      using True by (simp add: sim_at_def rest AdvancedExecutionState_def) (simp add: spec_analysis_def)
    from sim_run [OF this cfg len, of ct] show ?thesis
      using step by (subst adv_run.simps) simp
  next
    case False
    then have bad: "gas m < c \<or> int (0::nat) < q \<or> int limit < int (0::nat) + w" by auto
    obtain s' where "adv_step P 0 ?s = Some (None, s')" "adv_fails s'"
      unfolding a using beginblock_fail [OF arg, of ?s 0] bad s nn C o by auto
    moreover obtain g' st' where "dispatch P ct (0, 0, gas m, ?st) = Some (g', st')" "\<not> completes st'"
      using block_fails [OF cfg rest bad] by blast
    ultimately show ?thesis by (subst adv_run.simps) (auto intro: out_rel_fails)
  qed
qed

text \<open>
  Both interpreters return for every code of reasonable size.  They complete together, and
  then with the same result and the same effects on the host; otherwise both fail, and only
  the status can differ.
\<close>

theorem advanced_agrees:
  assumes g: "0 \<le> gas m" and len: "32000 * length code < 2 ^ 32"
  shows "\<exists>ra ha rb hb. adv_execute P h r m code = Some (ra, ha) \<and> execute P cgoto h r m code = Some (rb, hb) \<and>
    (if {res_status ra, res_status rb} \<inter> {ZVMC_SUCCESS, ZVMC_REVERT} \<noteq> {}
     then ra = rb \<and> ha = hb else rb = ra\<lparr>res_status := res_status rb\<rparr>)"
proof -
  let ?st = "(ExecutionState P m r h code)\<lparr>analysis := analyze r code\<rparr>"
  let ?s = "(AdvancedExecutionState P m r h code)\<lparr>adv_analysis := Some (spec_analysis r code)\<rparr>"
  let ?ct = "get_baseline_cost_table r"
  obtain g' st' s' where d: "dispatch P ?ct (0, 0, gas m, ?st) = Some (g', st')"
    and a: "adv_run P 0 ?s = Some s'" and rel: "out_rel (analyze r code) (g', st') s'"
    using adv_start [OF len g, of ?ct r h] by auto
  have e: "end_ok P (gas m) ?st (g', st')"
    using dispatch_returns [OF initial_cfg [OF g, of code r h], of ?ct] d by simp
  then have out: "output_ok st'" by (simp add: end_ok_def)
  then obtain bs where bs: "(if output_size st' \<noteq> 0
      then mem_read (memory st') (output_offset st') (output_size st') else Some []) = Some bs"
    using mem_read_in [of "output_offset st'" "output_size st'" "memory st'"]
    by (cases "output_size st' = 0") (auto simp: output_ok_def)
  have asrt: "output_size st' \<noteq> 0 \<or> output_offset st' = 0" using out by (auto simp: output_ok_def split: if_splits)
  have rev: "st_rev ?st = r" by (simp add: ExecutionState_def)
  have b: "execute P cgoto h r m code = Some (make_result (status st')
      (if completes st' then g' else 0) (if status st' = ZVMC_SUCCESS then gas_refund st' else 0) bs, host st')"
    unfolding execute_def execute_state_def Let_def dispatch_cgoto_eq rev if_cancel d bind.bind_lunit
      prod.case bs completes_def using asrt by simp
  show ?thesis
  proof (cases "completes st'")
    case True
    then have r: "adv_gas_left s' = g'" "st' = with_analysis (analyze r code) (base s')"
      using rel by (simp_all add: out_rel_def)
    have eqs: "status (base s') = status st'" "output_size (base s') = output_size st'"
        "output_offset (base s') = output_offset st'" "memory (base s') = memory st'"
        "gas_refund (base s') = gas_refund st'" "host (base s') = host st'"
      by (simp_all add: r(2))
    have "adv_execute P h r m code = Some (make_result (status st')
        (if completes st' then g' else 0) (if status st' = ZVMC_SUCCESS then gas_refund st' else 0) bs, host st')"
      unfolding adv_execute_def adv_analyze_spec adv_execute_state_def Let_def bind.bind_lunit a eqs bs r(1)
        completes_def using asrt by (simp add: eqs)
    then show ?thesis using b True by auto
  next
    case False
    then have f: "adv_fails s'" using rel by (simp add: out_rel_def)
    have z: "output_size st' = 0" using e False by (simp add: end_ok_def)
    have "adv_execute P h r m code = Some (make_result (status (base s')) 0 0 [], host (base s'))"
      using a f unfolding adv_execute_def adv_analyze_spec adv_execute_state_def Let_def bind.bind_lunit
      by (simp add: adv_fails_def completes_def)
    then show ?thesis using b False f z bs by (auto simp: make_result_def completes_def adv_fails_def)
  qed
qed

end

end
