(* ===== verification/Zvm_Tracing.thy ===== *)
theory Zvm_Tracing
  imports Zvm_Baseline
begin

text \<open>
  Tracing (\<open>lib/zvmone/tracing.hpp\<close>, \<open>lib/zvmone/tracing.cpp\<close>): the chain of tracers, the
  histogram tracer and the instruction tracer, and the dispatch loop with tracing enabled
  (\<open>dispatch<true>\<close> of \<open>lib/zvmone/baseline.cpp\<close>).  The interpreter talks to the tracers by
  notifications only; the traced loop returns the notifications it makes, and the tracers
  consume sequences of notifications.  A nested execution makes its own notifications on the
  same chain while an instruction of the outer execution runs.
\<close>

section \<open>Output\<close>

text \<open>
  An output stream is its text and the number base it is set to; the setting stays until
  the next manipulator.
\<close>

record ostream =
  o_text :: string
  o_hex :: bool

function num_str :: "nat \<Rightarrow> nat \<Rightarrow> string" where
  "num_str b n = (if b < 2 \<or> n < b then [''0123456789abcdef'' ! n]
     else num_str b (n div b) @ [''0123456789abcdef'' ! (n mod b)])"
  by auto
termination
  by (relation "measure snd") auto

declare num_str.simps [simp del]

definition put :: "string \<Rightarrow> ostream \<Rightarrow> ostream" where
  "put s os = os\<lparr>o_text := o_text os @ s\<rparr>"

definition set_base :: "bool \<Rightarrow> ostream \<Rightarrow> ostream" where
  "set_base hex os = os\<lparr>o_hex := hex\<rparr>"

text \<open>A number of a \<open>w\<close>-bit type; in base 16 its two's complement bits are printed.\<close>

definition put_num :: "nat \<Rightarrow> int \<Rightarrow> ostream \<Rightarrow> ostream" where
  "put_num w n os = put
     (if o_hex os then num_str 16 (nat (n mod 2 ^ w))
      else if n < 0 then ''-'' @ num_str 10 (nat (- n)) else num_str 10 (nat n)) os"

text \<open>The formatting functions of the ZVMC and intx libraries.\<close>

record trace_lib =
  zvmc_hex :: "bytes \<Rightarrow> string"
  intx_to_string16 :: "uint256 \<Rightarrow> string"
  status_string :: "status_code \<Rightarrow> string"
  revision_string :: "revision \<Rightarrow> string"

section \<open>Tracers\<close>

datatype notification =
    Execution_start revision message bytes
  | Instruction_start nat "uint256 list" int nat
  | Execution_end zvmc_result

text \<open>
  \<open>Instruction_start pc stack gas memory_size\<close> carries what the tracers read: the items of
  the stack, top item first, and the size of the memory of the state.
\<close>

definition get_name :: "trace_lib \<Rightarrow> nat \<Rightarrow> string" where
  "get_name L opcode = (case name (traits ! opcode) of
     Some n \<Rightarrow> n | None \<Rightarrow> ''0x'' @ zvmc_hex L [of_nat opcode])"

record hist_context =
  hc_depth :: int
  hc_code :: bytes
  hc_counts :: "nat list"

record instr_context =
  ic_code :: bytes
  ic_start_gas :: int

datatype tracer = HistogramTracer "hist_context list" | InstructionTracer "instr_context list"

text \<open>Both tracers keep a stack of contexts, one per execution that has not ended.\<close>

definition hist_execution_start :: "message \<Rightarrow> bytes \<Rightarrow> hist_context list \<Rightarrow> hist_context list" where
  "hist_execution_start m code cs =
     \<lparr>hc_depth = depth m, hc_code = code, hc_counts = replicate 256 0\<rparr> # cs"

fun hist_instruction_start :: "nat \<Rightarrow> hist_context list \<Rightarrow> hist_context list option" where
  "hist_instruction_start pc [] = None"
| "hist_instruction_start pc (c # cs) =
     (if pc < length (hc_code c)
      then let op = unat (hc_code c ! pc); counts = hc_counts c
           in Some (c\<lparr>hc_counts := counts[op := (counts ! op + 1) mod 2 ^ 32]\<rparr> # cs)
      else None)"

text \<open>The loop of the report over the opcodes.\<close>

fun report_counts :: "trace_lib \<Rightarrow> nat \<Rightarrow> nat list \<Rightarrow> ostream \<Rightarrow> ostream" where
  "report_counts L i [] os = os"
| "report_counts L i (n # ns) os =
     report_counts L (i + 1) ns
       (if n \<noteq> 0
        then put ''\<newline>'' (put_num 32 (int n) (put '','' (put (get_name L i) os))) else os)"

fun hist_execution_end ::
  "trace_lib \<Rightarrow> hist_context list \<Rightarrow> ostream \<Rightarrow> (hist_context list \<times> ostream) option" where
  "hist_execution_end L [] os = None"
| "hist_execution_end L (c # cs) os =
     (let os = put ''--- # HISTOGRAM depth='' os;
          os = put_num 32 (hc_depth c) os;
          os = put ''\<newline>opcode,count\<newline>'' os
      in Some (cs, report_counts L 0 (hc_counts c) os))"

text \<open>The stack is printed from the bottom; items are separated by commas.\<close>

fun put_items :: "trace_lib \<Rightarrow> bool \<Rightarrow> uint256 list \<Rightarrow> ostream \<Rightarrow> ostream" where
  "put_items L first [] os = os"
| "put_items L first (x # xs) os =
     put_items L False xs
       (put ''\"'' (put (intx_to_string16 L x) (put ''\"0x'' (if first then os else put '','' os))))"

definition output_stack :: "trace_lib \<Rightarrow> uint256 list \<Rightarrow> ostream \<Rightarrow> ostream" where
  "output_stack L stack os = put '']'' (put_items L True (rev stack) (put '',\"stack\":['' os))"

definition instr_execution_start ::
  "trace_lib \<Rightarrow> revision \<Rightarrow> message \<Rightarrow> bytes \<Rightarrow> instr_context list \<Rightarrow> ostream
     \<Rightarrow> instr_context list \<times> ostream" where
  "instr_execution_start L r m code cs os =
     (let cs = \<lparr>ic_code = code, ic_start_gas = gas m\<rparr> # cs;
          os = put ''{'' os;
          os = put_num 32 (depth m) (put ''\"depth\":'' os);
          os = put ''\"'' (put (revision_string L r) (put '',\"rev\":\"'' os));
          os = put (if flags m AND ZVMC_STATIC \<noteq> 0 then ''true'' else ''false'')
                 (put '',\"static\":'' os)
      in (cs, put ''}\<newline>'' os))"

fun instr_instruction_start ::
  "trace_lib \<Rightarrow> nat \<Rightarrow> uint256 list \<Rightarrow> int \<Rightarrow> nat \<Rightarrow> instr_context list \<Rightarrow> ostream
     \<Rightarrow> ostream option" where
  "instr_instruction_start L pc stack g msize [] os = None"
| "instr_instruction_start L pc stack g msize (c # cs) os =
     (if pc < length (ic_code c)
      then let opcode = unat (ic_code c ! pc);
               os = put ''{'' os;
               os = put_num 32 (int pc) (set_base False (put ''\"pc\":'' os));
               os = put_num 32 (int opcode) (set_base False (put '',\"op\":'' os));
               os = put ''\"'' (put (get_name L opcode) (put '',\"opName\":\"'' os));
               os = put_num 64 g (set_base True (put '',\"gas\":0x'' os));
               os = output_stack L stack os;
               os = put_num 64 (int msize) (set_base False (put '',\"memorySize\":'' os))
           in Some (put ''}\<newline>'' os)
      else None)"

fun instr_execution_end ::
  "trace_lib \<Rightarrow> zvmc_result \<Rightarrow> instr_context list \<Rightarrow> ostream \<Rightarrow> (instr_context list \<times> ostream) option" where
  "instr_execution_end L res [] os = None"
| "instr_execution_end L res (c # cs) os =
     (let os = put ''\"error\":'' (put ''{'' os);
          os = (if res_status res = ZVMC_SUCCESS then put ''null'' os
                else put ''\"'' (put (status_string L (res_status res)) (put ''\"'' os)));
          os = put_num 64 (res_gas_left res) (put ''0x'' (set_base True (put '',\"gas\":'' os)));
          os = put_num 64 (ic_start_gas c - res_gas_left res)
                 (put ''0x'' (set_base True (put '',\"gasUsed\":'' os)));
          os = put ''\"'' (put (zvmc_hex L (output_data res)) (put '',\"output\":\"'' os))
      in Some (cs, put ''}\<newline>'' os))"

text \<open>The virtual functions of one tracer.\<close>

fun on_notification ::
  "trace_lib \<Rightarrow> notification \<Rightarrow> tracer \<times> ostream \<Rightarrow> (tracer \<times> ostream) option" where
  "on_notification L (Execution_start r m code) (HistogramTracer cs, os) =
     Some (HistogramTracer (hist_execution_start m code cs), os)"
| "on_notification L (Execution_start r m code) (InstructionTracer cs, os) =
     (case instr_execution_start L r m code cs os of (cs, os) \<Rightarrow> Some (InstructionTracer cs, os))"
| "on_notification L (Instruction_start pc stack g msize) (HistogramTracer cs, os) = do {
     cs \<leftarrow> hist_instruction_start pc cs;
     Some (HistogramTracer cs, os) }"
| "on_notification L (Instruction_start pc stack g msize) (InstructionTracer cs, os) = do {
     os \<leftarrow> instr_instruction_start L pc stack g msize cs os;
     Some (InstructionTracer cs, os) }"
| "on_notification L (Execution_end res) (HistogramTracer cs, os) = do {
     (cs, os) \<leftarrow> hist_execution_end L cs os;
     Some (HistogramTracer cs, os) }"
| "on_notification L (Execution_end res) (InstructionTracer cs, os) = do {
     (cs, os) \<leftarrow> instr_execution_end L res cs os;
     Some (InstructionTracer cs, os) }"

text \<open>
  \<open>Tracer::notify_...\<close>: a tracer handles the notification, then passes it to the next one.
  All tracers of a VM write to the same stream, the standard error stream.
\<close>

fun notify :: "trace_lib \<Rightarrow> notification \<Rightarrow> tracer list \<Rightarrow> ostream \<Rightarrow> (tracer list \<times> ostream) option" where
  "notify L n [] os = Some ([], os)"
| "notify L n (t # ts) os = do {
     (t, os) \<leftarrow> on_notification L n (t, os);
     (ts, os) \<leftarrow> notify L n ts os;
     Some (t # ts, os) }"

fun notify_all ::
  "trace_lib \<Rightarrow> notification list \<Rightarrow> tracer list \<Rightarrow> ostream \<Rightarrow> (tracer list \<times> ostream) option" where
  "notify_all L [] ts os = Some (ts, os)"
| "notify_all L (n # ns) ts os = do { (ts, os) \<leftarrow> notify L n ts os; notify_all L ns ts os }"

definition create_histogram_tracer :: "ostream \<Rightarrow> tracer \<times> ostream" where
  "create_histogram_tracer os = (HistogramTracer [], os)"

definition create_instruction_tracer :: "ostream \<Rightarrow> tracer \<times> ostream" where
  "create_instruction_tracer os = (InstructionTracer [], set_base False os)"

section \<open>The traced dispatch loop\<close>

definition trace_point :: "'h config \<Rightarrow> notification list" where
  "trace_point c = (case c of (pos, t, g, st) \<Rightarrow>
     let offset = pos mod 2 ^ 32 in
     if offset < length (original_code st)
     then [Instruction_start offset (stack_view (stack_space st) t) g (m_size (memory st))] else [])"

partial_function (option) dispatch_tracing ::
  "'h platform \<Rightarrow> int list \<Rightarrow> 'h config \<Rightarrow> ((int \<times> 'h exec_state) \<times> notification list) option" where
  [code]: "dispatch_tracing plat cost_table c = do {
     r \<leftarrow> switch_step plat cost_table c;
     (case r of
        Inl c' \<Rightarrow> do {
          (out, ns) \<leftarrow> dispatch_tracing plat cost_table c';
          Some (out, trace_point c @ ns) }
      | Inr out \<Rightarrow> Some (out, trace_point c)) }"

text \<open>\<open>execute\<close> with a tracer: the result, the state and the notifications.\<close>

definition execute_state_tracing ::
  "'h platform \<Rightarrow> int \<Rightarrow> 'h exec_state \<Rightarrow> code_analysis
     \<Rightarrow> ((zvmc_result \<times> 'h exec_state) \<times> notification list) option" where
  "execute_state_tracing P g st a = do {
     let st = st\<lparr>analysis := a\<rparr>;
     let code = take (executable_size a) (padded_code a);
     let cost_table = get_baseline_cost_table (st_rev st);
     let start = Execution_start (st_rev st) (msg st) code;
     ((g, st), ns) \<leftarrow> dispatch_tracing P cost_table (0, 0, g, st);
     let gas_left = (if status st = ZVMC_SUCCESS \<or> status st = ZVMC_REVERT then g else 0);
     let refund = (if status st = ZVMC_SUCCESS then gas_refund st else 0);
     if \<not> (output_size st \<noteq> 0 \<or> output_offset st = 0) then None
     else do {
       out \<leftarrow> (if output_size st \<noteq> 0
              then mem_read (memory st) (output_offset st) (output_size st) else Some []);
       let result = make_result (status st) gas_left refund out;
       Some ((result, st), start # ns @ [Execution_end result]) } }"

definition execute_tracing ::
  "'h platform \<Rightarrow> 'h \<Rightarrow> revision \<Rightarrow> message \<Rightarrow> bytes
     \<Rightarrow> ((zvmc_result \<times> 'h) \<times> notification list) option" where
  "execute_tracing P h r m code = do {
     ((result, st), ns) \<leftarrow> execute_state_tracing P (gas m) (ExecutionState P m r h code) (analyze r code);
     Some ((result, host st), ns) }"

section \<open>Tracing does not change the execution\<close>

lemma dispatch_tracing_imp:
  "dispatch_tracing P ct c = Some r \<Longrightarrow> dispatch P ct c = Some (fst r)"
proof (rule dispatch_tracing.raw_induct [where P = "\<lambda>P ct c r. dispatch P ct c = Some (fst r)"])
  fix f :: "'h platform \<Rightarrow> int list \<Rightarrow> 'h config \<Rightarrow> ((int \<times> 'h exec_state) \<times> notification list) option"
    and P ct c r
  assume IH: "\<And>P ct c r. f P ct c = Some r \<Longrightarrow> dispatch P ct c = Some (fst r)"
    and step: "switch_step P ct c \<bind> (\<lambda>r. case r of
        Inl c' \<Rightarrow> f P ct c' \<bind> (\<lambda>(out, ns). Some (out, trace_point c @ ns))
      | Inr out \<Rightarrow> Some (out, trace_point c)) = Some r"
  from step obtain x where x: "switch_step P ct c = Some x" by (cases "switch_step P ct c") auto
  show "dispatch P ct c = Some (fst r)"
  proof (cases x)
    case (Inl c')
    then obtain out ns where "f P ct c' = Some (out, ns)" "fst r = out"
      using step x by (auto simp: bind_Some_iff)
    then show ?thesis using x Inl IH by (subst dispatch.simps) fastforce
  next
    case (Inr out)
    then show ?thesis using step x by (subst dispatch.simps) auto
  qed
qed

lemma dispatch_imp_tracing: "dispatch P ct c = Some out \<Longrightarrow> \<exists>ns. dispatch_tracing P ct c = Some (out, ns)"
proof (rule dispatch.raw_induct [where P = "\<lambda>P ct c out. \<exists>ns. dispatch_tracing P ct c = Some (out, ns)"])
  fix f :: "'h platform \<Rightarrow> int list \<Rightarrow> 'h config \<Rightarrow> (int \<times> 'h exec_state) option" and P ct c out
  assume IH: "\<And>P ct c out. f P ct c = Some out \<Longrightarrow> \<exists>ns. dispatch_tracing P ct c = Some (out, ns)"
    and step: "switch_step P ct c \<bind> (\<lambda>r. case r of Inl c \<Rightarrow> f P ct c | Inr out \<Rightarrow> Some out) = Some out"
  from step obtain x where x: "switch_step P ct c = Some x" by (cases "switch_step P ct c") auto
  show "\<exists>ns. dispatch_tracing P ct c = Some (out, ns)"
  proof (cases x)
    case (Inl c')
    then obtain ns where "dispatch_tracing P ct c' = Some (out, ns)" using step x IH by fastforce
    then show ?thesis using x Inl by (subst dispatch_tracing.simps) simp
  next
    case (Inr out')
    then show ?thesis using step x by (subst dispatch_tracing.simps) simp
  qed
qed

lemma dispatch_tracing_fst: "map_option fst (dispatch_tracing P ct c) = dispatch P ct c"
  using dispatch_tracing_imp [of P ct c] dispatch_imp_tracing [of P ct c]
  by (cases "dispatch_tracing P ct c"; cases "dispatch P ct c") auto

lemma execute_tracing_fst: "map_option fst (execute_tracing P h r m code) = execute P cgoto h r m code"
  unfolding execute_tracing_def execute_def execute_state_tracing_def execute_state_def Let_def
    dispatch_cgoto_eq if_cancel dispatch_tracing_fst [symmetric]
  by (cases "dispatch_tracing P (get_baseline_cost_table (st_rev ((ExecutionState P m r h code)\<lparr>analysis := analyze r code\<rparr>)))
        (0, 0, gas m, (ExecutionState P m r h code)\<lparr>analysis := analyze r code\<rparr>)")
     (auto simp: split_def bind_eq_Some_conv split: option.splits bind_splits)

section \<open>What is reported\<close>

text \<open>
  The notifications of an execution: instruction boundaries inside the code, with a stack
  within the limit and gas that decreases from one instruction to the next.
\<close>

fun trace_gas :: "notification \<Rightarrow> int" where
  "trace_gas (Instruction_start pc stack g msize) = g"
| "trace_gas _ = 0"

fun trace_ok :: "bytes \<Rightarrow> notification \<Rightarrow> bool" where
  "trace_ok code (Instruction_start pc stack g msize) \<longleftrightarrow>
     instr_start code pc \<and> pc < length code \<and> length stack \<le> limit \<and> 0 \<le> g \<and> msize mod 32 = 0"
| "trace_ok code _ \<longleftrightarrow> False"

lemma trace_point_ok:
  assumes "cfg_ok code (pos, t, g, st)" "original_code st = code" "length code + 33 \<le> 2 ^ 32"
  shows "\<forall>n \<in> set (trace_point (pos, t, g, st)). trace_ok code n \<and> trace_gas n = g"
proof -
  have "pos < length code + 33" using assms(1) instr_start_padded [of code pos] by (simp add: cfg_ok_def)
  then have "pos mod 2 ^ 32 = pos" using assms(3) by simp
  then show ?thesis using assms by (auto simp: trace_point_def cfg_ok_def Let_def mem_inv_def)
qed

context zvmc_host
begin

lemma dispatch_tracing_ok:
  assumes "cfg_ok code (pos, t, g, st)" "original_code st = code" "length code + 33 \<le> 2 ^ 32"
    and "dispatch_tracing P ct (pos, t, g, st) = Some (out, ns)"
  shows "(\<forall>n \<in> set ns. trace_ok code n \<and> trace_gas n \<le> g) \<and> sorted_wrt (>) (map trace_gas ns)"
  using assms
proof (induction "nat g" arbitrary: pos t g st out ns rule: less_induct)
  case less
  obtain r where r: "switch_step P ct (pos, t, g, st) = Some r" "step_ok P code g st r"
    using switch_step_ok [OF less.prems(1), of ct] by (auto elim: returnsE)
  note pt = trace_point_ok [OF less.prems(1-3)]
  have srt: "sorted_wrt (>) (map trace_gas (trace_point (pos, t, g, st)))"
    by (simp add: trace_point_def Let_def)
  show ?case
  proof (cases r)
    case (Inr out')
    then have "ns = trace_point (pos, t, g, st)"
      using less.prems(4) r(1) by (subst (asm) dispatch_tracing.simps) simp
    then show ?thesis using pt srt by auto
  next
    case (Inl c)
    obtain p1 t1 g1 st1 where c: "c = (p1, t1, g1, st1)" by (metis prod_cases4)
    have ok: "cfg_ok code (p1, t1, g1, st1)" "g1 < g" "original_code st1 = code"
      using r(2) Inl c less.prems(2) by (auto simp: step_ok_def framed_def)
    obtain ns' where ns': "dispatch_tracing P ct (p1, t1, g1, st1) = Some (out, ns')"
      "ns = trace_point (pos, t, g, st) @ ns'"
      using less.prems(4) r(1) Inl c
      by (subst (asm) dispatch_tracing.simps) (auto simp: bind_Some_iff)
    have "nat g1 < nat g" using ok by (auto simp: cfg_ok_def)
    from less.hyps [OF this ok(1,3) less.prems(3) ns'(1)]
    show ?thesis using ns'(2) pt srt ok(2) by (force simp: sorted_wrt_append)
  qed
qed

end

section \<open>Nested executions and the histogram\<close>

text \<open>
  An execution as the tracers see it: its own instructions and the executions nested in
  them.
\<close>

datatype session = Session revision message bytes "session_event list" zvmc_result
and session_event = Own nat "uint256 list" int nat | Nested session

fun notifications :: "session \<Rightarrow> notification list"
  and event_notifications :: "session_event \<Rightarrow> notification list" where
  "notifications (Session r m code es res) =
     Execution_start r m code # concat (map event_notifications es) @ [Execution_end res]"
| "event_notifications (Own pc stack g msize) = [Instruction_start pc stack g msize]"
| "event_notifications (Nested s) = notifications s"

text \<open>All instructions are inside the code of their execution.\<close>

fun session_ok :: "session \<Rightarrow> bool" and event_ok :: "bytes \<Rightarrow> session_event \<Rightarrow> bool" where
  "session_ok (Session r m code es res) \<longleftrightarrow> (\<forall>e \<in> set es. event_ok code e)"
| "event_ok code (Own pc stack g msize) \<longleftrightarrow> pc < length code"
| "event_ok code (Nested s) \<longleftrightarrow> session_ok s"

fun own_pcs :: "session_event list \<Rightarrow> nat list" where
  "own_pcs [] = []"
| "own_pcs (Own pc stack g msize # es) = pc # own_pcs es"
| "own_pcs (Nested s # es) = own_pcs es"

text \<open>How often an opcode occurs among the instructions of an execution itself.\<close>

definition histogram :: "bytes \<Rightarrow> session_event list \<Rightarrow> nat list" where
  "histogram code es = map (\<lambda>op. count_list (map (\<lambda>pc. unat (code ! pc)) (own_pcs es)) op mod 2 ^ 32) [0..<256]"

text \<open>The report that the histogram tracer writes at the end of an execution.\<close>

definition hist_report :: "trace_lib \<Rightarrow> message \<Rightarrow> nat list \<Rightarrow> ostream \<Rightarrow> ostream" where
  "hist_report L m counts os =
     report_counts L 0 counts (put ''\<newline>opcode,count\<newline>''
       (put_num 32 (depth m) (put ''--- # HISTOGRAM depth='' os)))"

fun session_reports :: "trace_lib \<Rightarrow> session \<Rightarrow> ostream \<Rightarrow> ostream"
  and event_reports :: "trace_lib \<Rightarrow> session_event \<Rightarrow> ostream \<Rightarrow> ostream" where
  "session_reports L (Session r m code es res) os =
     hist_report L m (histogram code es) (fold (event_reports L) es os)"
| "event_reports L (Own pc stack g msize) os = os"
| "event_reports L (Nested s) os = session_reports L s os"

lemma notify_all_append:
  "notify_all L (xs @ ys) ts os = notify_all L xs ts os \<bind> (\<lambda>(ts, os). notify_all L ys ts os)"
  by (induction xs arbitrary: ts os) (simp_all add: split_def)

text \<open>The effect of an event on the context of its execution.\<close>

fun counted :: "session_event \<Rightarrow> hist_context \<Rightarrow> hist_context" where
  "counted (Own pc stack g msize) c =
     (let op = unat (hc_code c ! pc) in
      c\<lparr>hc_counts := (hc_counts c)[op := (hc_counts c ! op + 1) mod 2 ^ 32]\<rparr>)"
| "counted (Nested s) c = c"

lemma counted_code [simp]: "hc_code (counted e c) = hc_code c" "hc_depth (counted e c) = hc_depth c"
  by (cases e; simp add: Let_def)+

lemma fold_counted_code [simp]:
  "hc_code (fold counted es c) = hc_code c" "hc_depth (fold counted es c) = hc_depth c"
  by (induction es arbitrary: c) simp_all

lemma count_list_opcode: "op < 256 \<Longrightarrow> length (hc_counts c) = 256 \<Longrightarrow>
  hc_counts (fold counted es c) ! op mod 2 ^ 32 =
    (hc_counts c ! op + count_list (map (\<lambda>pc. unat (hc_code c ! pc)) (own_pcs es)) op) mod 2 ^ 32
  \<and> length (hc_counts (fold counted es c)) = 256"
proof (induction es arbitrary: c rule: own_pcs.induct)
  case (2 pc stack g msize es)
  then show ?case using unsigned_less [of "hc_code c ! pc"]
    by (auto simp: Let_def nth_list_update mod_simps ac_simps)
qed simp_all

lemma counted_bounded:
  "\<forall>n \<in> set (hc_counts c). n < 2 ^ 32 \<Longrightarrow> \<forall>n \<in> set (hc_counts (fold counted es c)). n < 2 ^ 32"
proof (induction es arbitrary: c)
  case (Cons e es)
  have "\<forall>n \<in> set (hc_counts (counted e c)). n < 2 ^ 32"
    using Cons.prems by (cases e) (auto simp: Let_def dest!: set_update_subset_insert [THEN subsetD])
  then show ?case using Cons.IH [of "counted e c"] by simp
qed simp

lemma fold_counted_histogram:
  assumes "c = \<lparr>hc_depth = d, hc_code = code, hc_counts = replicate 256 0\<rparr>"
  shows "hc_counts (fold counted es c) = histogram code es"
proof (rule nth_equalityI)
  have len: "length (hc_counts (fold counted es c)) = 256"
    using count_list_opcode [of 0 c es] assms by simp
  show "length (hc_counts (fold counted es c)) = length (histogram code es)"
    by (simp add: len histogram_def)
  fix op assume "op < length (hc_counts (fold counted es c))"
  then have op: "op < 256" by (simp add: len)
  then have "hc_counts (fold counted es c) ! op < 2 ^ 32"
    using counted_bounded [of c es] assms len by simp
  then have "hc_counts (fold counted es c) ! op = hc_counts (fold counted es c) ! op mod 2 ^ 32" by simp
  also have "\<dots> = histogram code es ! op"
    using count_list_opcode [OF op, of c es] op assms by (simp add: histogram_def)
  finally show "hc_counts (fold counted es c) ! op = histogram code es ! op" .
qed

lemma events_reports:
  assumes "\<And>e c cs os. e \<in> set es \<Longrightarrow> event_ok (hc_code c) e \<Longrightarrow>
      notify_all L (event_notifications e) [HistogramTracer (c # cs)] os =
      Some ([HistogramTracer (counted e c # cs)], event_reports L e os)"
    and "\<forall>e \<in> set es. event_ok (hc_code c) e"
  shows "notify_all L (concat (map event_notifications es)) [HistogramTracer (c # cs)] os =
    Some ([HistogramTracer (fold counted es c # cs)], fold (event_reports L) es os)"
  using assms by (induction es arbitrary: c os) (simp_all add: notify_all_append)

lemma session_reports_all:
  "session_ok s \<Longrightarrow> notify_all L (notifications s) [HistogramTracer cs] os =
     Some ([HistogramTracer cs], session_reports L s os)"
  "event_ok (hc_code c) e \<Longrightarrow> notify_all L (event_notifications e) [HistogramTracer (c # cs)] os =
     Some ([HistogramTracer (counted e c # cs)], event_reports L e os)"
proof (induction s and e arbitrary: cs os and c cs os)
  case (Session r m code es res)
  let ?c = "\<lparr>hc_depth = depth m, hc_code = code, hc_counts = replicate 256 0\<rparr>"
  have "notify_all L (concat (map event_notifications es)) [HistogramTracer (?c # cs)] os =
      Some ([HistogramTracer (fold counted es ?c # cs)], fold (event_reports L) es os)"
    using Session by (intro events_reports) auto
  then show ?case
    using fold_counted_histogram [OF refl, of es "depth m" code]
    by (simp add: hist_execution_start_def notify_all_append hist_report_def Let_def)
next
  case (Own pc stack g msize)
  then show ?case by (simp add: Let_def)
next
  case (Nested s)
  then show ?case by simp
qed

end
