(* ===== verification/Zvm_VM.thy ===== *)
theory Zvm_VM
  imports Zvm_Advanced_Sim Zvm_Tracing
begin

text \<open>
  The ZVMC instance (\<open>lib/zvmone/vm.hpp\<close>, \<open>lib/zvmone/vm.cpp\<close>): its options, its tracers and
  the choice of the interpreter.  Whether computed goto is supported is fixed when the
  program is compiled and a parameter here.
\<close>

section \<open>Definitions\<close>

text \<open>The function pointer \<open>zvmc_vm::execute\<close> points to one of the two interpreters.\<close>

datatype execute_fn = Baseline_execute | Advanced_execute

datatype capability = ZVMC_CAPABILITY_ZVM1

datatype set_option_result =
    ZVMC_SET_OPTION_SUCCESS | ZVMC_SET_OPTION_INVALID_NAME | ZVMC_SET_OPTION_INVALID_VALUE

record VM =
  vm_execute_ptr :: execute_fn
  vm_cgoto :: bool
  vm_tracers :: "tracer list"

definition VM_new :: "bool \<Rightarrow> VM" where
  "VM_new supported = \<lparr>vm_execute_ptr = Baseline_execute, vm_cgoto = supported, vm_tracers = []\<rparr>"

definition zvmc_create_zvmone :: "bool \<Rightarrow> VM" where
  "zvmc_create_zvmone supported = VM_new supported"

definition get_capabilities :: "VM \<Rightarrow> capability set" where
  "get_capabilities vm = {ZVMC_CAPABILITY_ZVM1}"

text \<open>\<open>add_tracer\<close> walks to the first empty pointer of the chain.\<close>

fun append_tracer :: "tracer list \<Rightarrow> tracer \<Rightarrow> tracer list" where
  "append_tracer [] t = [t]"
| "append_tracer (x # xs) t = x # append_tracer xs t"

definition add_tracer :: "tracer \<Rightarrow> VM \<Rightarrow> VM" where
  "add_tracer t vm = vm\<lparr>vm_tracers := append_tracer (vm_tracers vm) t\<rparr>"

definition get_tracer :: "VM \<Rightarrow> tracer option" where
  "get_tracer vm = (case vm_tracers vm of [] \<Rightarrow> None | t # ts \<Rightarrow> Some t)"

text \<open>\<open>set_option\<close>: a null string is read as the empty string.  The stream is \<open>std::cerr\<close>.\<close>

definition set_option ::
  "bool \<Rightarrow> string option \<Rightarrow> string option \<Rightarrow> VM \<times> ostream \<Rightarrow> set_option_result \<times> VM \<times> ostream" where
  "set_option supported c_name c_value s = (case s of (vm, cerr) \<Rightarrow>
     let name = (case c_name of Some n \<Rightarrow> n | None \<Rightarrow> []);
         value = (case c_value of Some v \<Rightarrow> v | None \<Rightarrow> [])
     in if name = ''advanced''
        then (ZVMC_SET_OPTION_SUCCESS, vm\<lparr>vm_execute_ptr := Advanced_execute\<rparr>, cerr)
        else if name = ''cgoto''
        then if supported
             then if value = ''no'' then (ZVMC_SET_OPTION_SUCCESS, vm\<lparr>vm_cgoto := False\<rparr>, cerr)
                  else (ZVMC_SET_OPTION_INVALID_VALUE, vm, cerr)
             else (ZVMC_SET_OPTION_INVALID_NAME, vm, cerr)
        else if name = ''trace''
        then let (t, cerr) = create_instruction_tracer cerr
             in (ZVMC_SET_OPTION_SUCCESS, add_tracer t vm, cerr)
        else if name = ''histogram''
        then let (t, cerr) = create_histogram_tracer cerr
             in (ZVMC_SET_OPTION_SUCCESS, add_tracer t vm, cerr)
        else (ZVMC_SET_OPTION_INVALID_NAME, vm, cerr))"

text \<open>
  The call of \<open>zvmc_vm::execute\<close>: the result, the host and the notifications for the
  tracers.  The Advanced interpreter ignores the VM object.
\<close>

definition vm_execute ::
  "'h platform \<Rightarrow> VM \<Rightarrow> 'h \<Rightarrow> revision \<Rightarrow> message \<Rightarrow> bytes
     \<Rightarrow> ((zvmc_result \<times> 'h) \<times> notification list) option" where
  "vm_execute P vm h r m code =
     (case vm_execute_ptr vm of
        Advanced_execute \<Rightarrow> do { out \<leftarrow> adv_execute P h r m code; Some (out, []) }
      | Baseline_execute \<Rightarrow>
          (if get_tracer vm \<noteq> None then execute_tracing P h r m code
           else do { out \<leftarrow> execute P (vm_cgoto vm) h r m code; Some (out, []) }))"

section \<open>Properties\<close>

lemma append_tracer_eq: "append_tracer ts t = ts @ [t]"
  by (induction ts) simp_all

text \<open>The VM objects that options can produce.\<close>

inductive vm_reachable :: "bool \<Rightarrow> VM \<times> ostream \<Rightarrow> bool" for supported :: bool where
  created: "vm_reachable supported (zvmc_create_zvmone supported, cerr)"
| option: "vm_reachable supported s \<Longrightarrow> set_option supported n v s = (r, s') \<Longrightarrow> vm_reachable supported s'"

inductive_cases vm_reachableE: "vm_reachable supported s"

text \<open>An option that is refused changes nothing.\<close>

lemma set_option_refused:
  "set_option supported n v s = (r, s') \<Longrightarrow> r \<noteq> ZVMC_SET_OPTION_SUCCESS \<Longrightarrow> s' = s"
  by (auto simp: set_option_def Let_def split: prod.splits if_splits)

text \<open>Every tracer of a new VM waits for its first execution.\<close>

definition tracer_idle :: "tracer \<Rightarrow> bool" where
  "tracer_idle t \<longleftrightarrow> t = HistogramTracer [] \<or> t = InstructionTracer []"

lemma vm_reachable_idle:
  assumes "vm_reachable supported s"
  shows "(\<forall>t \<in> set (vm_tracers (fst s)). tracer_idle t) \<and> (vm_cgoto (fst s) \<longrightarrow> supported)"
  using assms
proof (induction rule: vm_reachable.induct)
  case (created cerr)
  then show ?case by (simp add: zvmc_create_zvmone_def VM_new_def)
next
  case (option s n v r s')
  then show ?case
    by (auto simp: set_option_def Let_def add_tracer_def append_tracer_eq create_histogram_tracer_def
        create_instruction_tracer_def tracer_idle_def split: prod.splits if_splits)
qed

text \<open>No option of the Baseline interpreter changes what it computes.\<close>

lemma vm_execute_baseline:
  "vm_execute_ptr vm = Baseline_execute \<Longrightarrow>
   map_option fst (vm_execute P vm h r m code) = execute P False h r m code"
  using execute_tracing_fst [of P h r m code False] execute_tracing_fst [of P h r m code "vm_cgoto vm"]
  by (cases "execute P False h r m code") (simp_all add: vm_execute_def, metis surj_pair)

end
