(* ===== verification/Zvm_World.thy ===== *)
theory Zvm_World
  imports Zvm_State
begin

text \<open>
  The accounts of the test host (\<open>test/state/account.hpp\<close>, class \<open>State\<close> of
  \<open>test/state/state.hpp\<close>).  An \<open>unordered_map\<close> is a partial function; a reference to an
  account that is modified is an update of the map at its address.  A violated \<open>assert\<close>
  (an account that must exist does not) is \<open>None\<close>.
\<close>

section \<open>Accounts\<close>

record StorageValue =
  sv_current :: uint256
  sv_original :: uint256
  sv_access_status :: access_status

definition empty_slot :: StorageValue where
  "empty_slot = \<lparr>sv_current = 0, sv_original = 0, sv_access_status = ZVMC_ACCESS_COLD\<rparr>"

record Account =
  nonce :: uint64
  balance :: uint256
  storage :: "uint256 \<rightharpoonup> StorageValue"
  acc_code :: bytes
  destructed :: bool
  erasable :: bool
  acc_access_status :: access_status

definition empty_account :: Account where
  "empty_account = \<lparr>nonce = 0, balance = 0, storage = Map.empty, acc_code = [], destructed = False,
     erasable = False, acc_access_status = ZVMC_ACCESS_COLD\<rparr>"

definition NonceMax :: uint64 where
  "NonceMax = - 1"

definition is_empty :: "Account \<Rightarrow> bool" where
  "is_empty acc \<longleftrightarrow> acc_code acc = [] \<and> nonce acc = 0 \<and> balance acc = 0"

text \<open>\<open>storage[key]\<close> of an \<open>unordered_map\<close> inserts the default value for a missing key.\<close>

definition slot :: "uint256 \<Rightarrow> Account \<Rightarrow> StorageValue" where
  "slot k acc = (case storage acc k of Some v \<Rightarrow> v | None \<Rightarrow> empty_slot)"

definition set_slot :: "uint256 \<Rightarrow> StorageValue \<Rightarrow> Account \<Rightarrow> Account" where
  "set_slot k v acc = acc\<lparr>storage := (storage acc)(k \<mapsto> v)\<rparr>"

section \<open>The state\<close>

type_synonym State = "address \<rightharpoonup> Account"

definition state_insert :: "address \<Rightarrow> Account \<Rightarrow> State \<Rightarrow> State option" where
  "state_insert addr acc S = (if S addr = None then Some (S(addr \<mapsto> acc)) else None)"

definition state_find :: "State \<Rightarrow> address \<Rightarrow> Account option" where
  "state_find S addr = S addr"

definition state_get :: "State \<Rightarrow> address \<Rightarrow> Account option" where
  "state_get S addr = state_find S addr"

definition state_get_or_insert :: "address \<Rightarrow> Account \<Rightarrow> State \<Rightarrow> (Account \<times> State) option" where
  "state_get_or_insert addr acc S =
     (case state_find S addr of
        Some a \<Rightarrow> Some (a, S)
      | None \<Rightarrow> do { S' \<leftarrow> state_insert addr acc S; Some (acc, S') })"

definition state_touch :: "address \<Rightarrow> State \<Rightarrow> State option" where
  "state_touch addr S = do {
     (acc, S) \<leftarrow> state_get_or_insert addr empty_account S;
     Some (S(addr \<mapsto> acc\<lparr>erasable := True\<rparr>)) }"

section \<open>Lemmas\<close>

definition account_or_empty :: "State \<Rightarrow> address \<Rightarrow> Account" where
  "account_or_empty S addr = (case S addr of Some acc \<Rightarrow> acc | None \<Rightarrow> empty_account)"

lemma state_get_or_insert_eq:
  "state_get_or_insert addr acc S =
     (case S addr of Some a \<Rightarrow> Some (a, S) | None \<Rightarrow> Some (acc, S(addr \<mapsto> acc)))"
  by (simp add: state_get_or_insert_def state_find_def state_insert_def split: option.split)

lemma state_touch_eq:
  "state_touch addr S = Some (S(addr \<mapsto> (account_or_empty S addr)\<lparr>erasable := True\<rparr>))"
  by (simp add: state_touch_def state_get_or_insert_eq account_or_empty_def split: option.split)

text \<open>
  The value of all balances.  The state is a finite map; the sum is taken in the 256-bit
  integers, as the code adds and subtracts balances there.
\<close>

definition total_balance :: "State \<Rightarrow> uint256" where
  "total_balance S = (\<Sum>a \<in> dom S. balance (the (S a)))"

lemma total_balance_upd:
  assumes "finite (dom S)"
  shows "total_balance (S(a \<mapsto> acc)) = total_balance S - balance (account_or_empty S a) + balance acc"
proof -
  have rest: "(\<Sum>x \<in> dom S - {a}. balance (the ((S(a \<mapsto> acc)) x))) =
      (\<Sum>x \<in> dom S - {a}. balance (the (S x)))"
    by (rule sum.cong) auto
  have "total_balance (S(a \<mapsto> acc)) = balance acc + (\<Sum>x \<in> dom S - {a}. balance (the (S x)))"
    unfolding total_balance_def using assms rest
    by (simp add: sum.insert_remove del: fun_upd_apply) simp
  moreover have "total_balance S = balance (account_or_empty S a) + (\<Sum>x \<in> dom S - {a}. balance (the (S x)))"
  proof (cases "S a")
    case None
    then have "dom S - {a} = dom S" by auto
    then show ?thesis using None
      by (simp add: total_balance_def account_or_empty_def empty_account_def)
  next
    case (Some acc')
    then have "a \<in> dom S" by auto
    then show ?thesis using Some assms
      by (simp add: total_balance_def account_or_empty_def sum.remove)
  qed
  ultimately show ?thesis by simp
qed

end
