(* ===== verification/Zvm_Precompiles.thy ===== *)
theory Zvm_Precompiles
  imports Zvm_World Zvm_Baseline
begin

text \<open>
  The precompiled contracts of the test host (\<open>test/state/precompiles.cpp\<close>) and the cache of
  their results (\<open>test/state/precompiles_cache.cpp\<close>).  A violated \<open>assert\<close>, a call through
  a null function pointer and an index outside of a string view are \<open>None\<close>.  Sizes of inputs are natural numbers; where the code
  computes with lengths that it reads from the input, the arithmetic is that of
  \<open>size_t\<close> and \<open>uint256\<close>.
\<close>

section \<open>Costs\<close>

definition GasCostMax :: int where
  "GasCostMax = 2 ^ 63 - 1"

record PrecompileAnalysis =
  pa_gas_cost :: int
  pa_max_output_size :: nat

definition input_words :: "nat \<Rightarrow> int" where
  "input_words size_in_bytes = int ((size_in_bytes + 31) div 32)"

definition cost_per_input_word :: "int \<Rightarrow> int \<Rightarrow> nat \<Rightarrow> int" where
  "cost_per_input_word BaseCost WordCost input_size = BaseCost + WordCost * input_words input_size"

type_synonym analyze_fn = "bytes \<Rightarrow> revision \<Rightarrow> PrecompileAnalysis option"

definition depositroot_analyze :: analyze_fn where
  "depositroot_analyze input r = Some \<lparr>pa_gas_cost = 19992, pa_max_output_size = 32\<rparr>"

definition sha256_analyze :: analyze_fn where
  "sha256_analyze input r =
     Some \<lparr>pa_gas_cost = cost_per_input_word 60 12 (length input), pa_max_output_size = 32\<rparr>"

definition identity_analyze :: analyze_fn where
  "identity_analyze input r =
     Some \<lparr>pa_gas_cost = cost_per_input_word 15 3 (length input), pa_max_output_size = length input\<rparr>"

definition ecadd_analyze :: analyze_fn where
  "ecadd_analyze input r = Some \<lparr>pa_gas_cost = 150, pa_max_output_size = 64\<rparr>"

definition ecmul_analyze :: analyze_fn where
  "ecmul_analyze input r = Some \<lparr>pa_gas_cost = 6000, pa_max_output_size = 64\<rparr>"

definition ecpairing_analyze :: analyze_fn where
  "ecpairing_analyze input r =
     Some \<lparr>pa_gas_cost = 45000 + int (length input div 192) * 34000, pa_max_output_size = 32\<rparr>"

text \<open>\<open>std::bit_width\<close> of a byte, and the position of its first byte that is not zero.\<close>

definition bit_width :: "byte \<Rightarrow> nat" where
  "bit_width b = length (dropWhile Not (rev (map (bit b) [0..<8])))"

definition find_nonzero :: "bytes \<Rightarrow> nat option" where
  "find_nonzero bs = (let k = length (takeWhile (\<lambda>b. b = 0) bs) in if k < length bs then Some k else None)"

text \<open>
  The string view is indexed at \<open>offset\<close> whatever the length to read; an index that is not
  inside of it is undefined, also when no byte is read.
\<close>

definition adjusted_len :: "bytes \<Rightarrow> uint64 \<Rightarrow> uint64 \<Rightarrow> uint64 option" where
  "adjusted_len input offset len =
     (let head_len = min len 32;
          head_explicit_len = max (min (offset + head_len) (of_nat (length input))) offset - offset in
      if \<not> unat offset < length input then None
      else
        let head_explicit_bytes = take (unat head_explicit_len) (drop (unat offset) input);
            exp_bit_width =
              (case find_nonzero head_explicit_bytes of
                 Some k \<Rightarrow> (head_len - of_nat k - 1) * 8 + of_nat (bit_width (head_explicit_bytes ! k))
               | None \<Rightarrow> 0)
        in Some (max (8 * (max len 32 - 32) + (max exp_bit_width 1 - 1)) 1))"

definition mult_complexity_eip2565 :: "uint256 \<Rightarrow> uint256" where
  "mult_complexity_eip2565 x = (let w = drop_bit 3 (x + 7) in w * w)"

definition expmod_analyze :: analyze_fn where
  "expmod_analyze input r =
     (let min_gas = 200;
          input_header = take 96 (input @ replicate 96 0);
          base_len = be_load (take 32 input_header) :: uint256;
          exp_len = be_load (take 32 (drop 32 input_header)) :: uint256;
          mod_len = be_load (take 32 (drop 64 input_header)) :: uint256
      in if base_len = 0 \<and> mod_len = 0 then Some \<lparr>pa_gas_cost = min_gas, pa_max_output_size = 0\<rparr>
         else let len_limit = 2 ^ 64 - 1 in
         if base_len > len_limit \<or> exp_len > len_limit \<or> mod_len > len_limit
         then Some \<lparr>pa_gas_cost = GasCostMax, pa_max_output_size = 0\<rparr>
         else do {
           let max_len = max mod_len base_len;
           adjusted_exp_len \<leftarrow> adjusted_len input (96 + limb base_len 0) (limb exp_len 0);
           let g = mult_complexity_eip2565 max_len * ucast adjusted_exp_len div 3;
           Some \<lparr>pa_gas_cost = max min_gas (uint (min g (word_of_int GasCostMax))),
             pa_max_output_size = to_size mod_len\<rparr> })"

section \<open>Execution\<close>

text \<open>An execution gets the input and the size of the output buffer.\<close>

type_synonym precompile_execute = "bytes \<Rightarrow> nat \<Rightarrow> (status_code \<times> bytes) option"

definition identity_execute :: precompile_execute where
  "identity_execute input out_size =
     (if out_size = length input then Some (ZVMC_SUCCESS, input) else None)"

definition dummy_execute :: precompile_execute where
  "dummy_execute input out_size = Some (ZVMC_INTERNAL_ERROR, [])"

text \<open>The enumerators of \<open>PrecompileId\<close>, and the table of the functions by index.\<close>

definition NumPrecompiles :: nat where
  "NumPrecompiles = 10"

definition PrecompileId_identity :: nat where
  "PrecompileId_identity = 4"

definition precompile_traits :: "(analyze_fn \<times> precompile_execute) option list" where
  "precompile_traits =
     [None,
      Some (depositroot_analyze, dummy_execute),
      Some (sha256_analyze, dummy_execute),
      Some (identity_analyze, identity_execute),
      Some (expmod_analyze, dummy_execute),
      Some (ecadd_analyze, dummy_execute),
      Some (ecmul_analyze, dummy_execute),
      Some (ecpairing_analyze, dummy_execute),
      None,
      None]"

section \<open>The cache\<close>

text \<open>
  One map from input hashes to outputs for every precompile; the entry of a failed
  execution is \<open>None\<close>.  A new cache is filled from a file, so its contents are arbitrary.
\<close>

type_synonym precompile_cache = "nat \<Rightarrow> uint256 \<rightharpoonup> bytes option"

definition cache_find ::
  "(bytes \<Rightarrow> uint256) \<Rightarrow> precompile_cache \<Rightarrow> nat \<Rightarrow> bytes \<Rightarrow> int \<Rightarrow> zvmc_result option" where
  "cache_find keccak256 cache pid input gas_left =
     (case cache pid (keccak256 input) of
        Some None \<Rightarrow> Some (make_result ZVMC_PRECOMPILE_FAILURE 0 0 [])
      | Some (Some out) \<Rightarrow> Some (make_result ZVMC_SUCCESS gas_left 0 out)
      | None \<Rightarrow> None)"

definition cache_insert ::
  "(bytes \<Rightarrow> uint256) \<Rightarrow> nat \<Rightarrow> bytes \<Rightarrow> zvmc_result \<Rightarrow> precompile_cache \<Rightarrow> precompile_cache" where
  "cache_insert keccak256 pid input result cache =
     (if pid = PrecompileId_identity then cache
      else let input_hash = keccak256 input;
               cached_output = (if res_status result = ZVMC_SUCCESS then Some (output_data result) else None)
           in if cache pid input_hash = None
              then cache(pid := (cache pid)(input_hash \<mapsto> cached_output)) else cache)"

section \<open>The call\<close>

definition call_precompile ::
  "(bytes \<Rightarrow> uint256) \<Rightarrow> revision \<Rightarrow> message \<Rightarrow> precompile_cache
     \<Rightarrow> (zvmc_result option \<times> precompile_cache) option" where
  "call_precompile keccak256 r m cache =
     (if code_address m = 0 \<or> code_address m \<ge> of_nat NumPrecompiles then Some (None, cache)
      else do {
        let pid = unat (code_address m) mod 256;
        if \<not> (0 < pid \<and> 0 \<le> gas m) then None
        else do {
          (an, ex) \<leftarrow> precompile_traits ! pid;
          let input = input_data m;
          pa \<leftarrow> an input r;
          let gas_left = gas m - pa_gas_cost pa;
          if gas_left < 0 then Some (Some (make_result ZVMC_OUT_OF_GAS 0 0 []), cache)
          else (case cache_find keccak256 cache pid input gas_left of
            Some res \<Rightarrow> Some (Some res, cache)
          | None \<Rightarrow>
              if \<not> 256 \<ge> pa_max_output_size pa then None
              else do {
                (status, out) \<leftarrow> ex input (pa_max_output_size pa);
                let result = make_result status (if status = ZVMC_SUCCESS then gas_left else 0) 0 out;
                Some (Some result, cache_insert keccak256 pid input result cache) }) } })"

section \<open>Lemmas\<close>

lemma expmod_cost_nonneg: "expmod_analyze input r = Some pa \<Longrightarrow> 0 \<le> pa_gas_cost pa"
  by (auto simp: expmod_analyze_def Let_def GasCostMax_def le_max_iff_disj split: if_splits bind_splits)

definition cost_ok :: "analyze_fn \<times> precompile_execute \<Rightarrow> bool" where
  "cost_ok p \<longleftrightarrow> (\<forall>input r pa. fst p input r = Some pa \<longrightarrow> 0 \<le> pa_gas_cost pa) \<and>
     snd p \<in> {identity_execute, dummy_execute}"

lemma precompile_traits_ok:
  assumes "pid < NumPrecompiles" and "precompile_traits ! pid = Some p"
  shows "cost_ok p"
proof -
  have "list_all (\<lambda>x. case x of None \<Rightarrow> True | Some p \<Rightarrow> cost_ok p) precompile_traits"
    by (simp add: precompile_traits_def cost_ok_def expmod_cost_nonneg depositroot_analyze_def
        sha256_analyze_def identity_analyze_def ecadd_analyze_def ecmul_analyze_def
        ecpairing_analyze_def cost_per_input_word_def input_words_def)
  moreover have "length precompile_traits = NumPrecompiles"
    by (simp add: precompile_traits_def NumPrecompiles_def)
  ultimately show ?thesis using assms by (auto simp: list_all_length)
qed

text \<open>A precompile gives back no more gas than it got, and refunds nothing.\<close>

lemma call_precompile_gas:
  assumes "call_precompile k r m cache = Some (Some res, cache')"
  shows "0 \<le> res_gas_left res \<and> res_gas_left res \<le> gas m \<and> res_gas_refund res = 0 \<and>
    (res_status res \<noteq> ZVMC_SUCCESS \<longrightarrow> res_gas_left res = 0 \<and> output_data res = [])"
proof -
  let ?pid = "unat (code_address m) mod 256"
  have m: "\<not> (code_address m = 0 \<or> code_address m \<ge> of_nat NumPrecompiles)" "0 \<le> gas m"
    using assms by (auto simp: call_precompile_def Let_def split: if_splits)
  obtain an ex where tr: "precompile_traits ! ?pid = Some (an, ex)"
    using assms m by (cases "precompile_traits ! ?pid") (auto simp: call_precompile_def Let_def split: if_splits)
  obtain pa where pa: "an (input_data m) r = Some pa"
    using assms m tr by (auto simp: call_precompile_def Let_def split: if_splits bind_splits)
  have pid: "?pid < NumPrecompiles"
    using m by (auto simp: NumPrecompiles_def word_less_nat_alt not_le)
  have ok: "0 \<le> pa_gas_cost pa" "ex = identity_execute \<or> ex = dummy_execute"
    using precompile_traits_ok [OF pid tr] pa by (auto simp: cost_ok_def)
  show ?thesis
    using assms m tr pa ok
    by (auto simp: call_precompile_def Let_def make_result_def cache_find_def identity_execute_def
        dummy_execute_def split: if_splits option.splits)
qed

section \<open>Undefined requests\<close>

text \<open>
  The requests for a contract that have no defined behaviour: the two contracts without
  functions, the modular exponentiation of an input that ends before its exponent, and a result
  that is larger than the output buffer, unless it is too expensive or comes from the cache.
\<close>

definition undefined_request ::
  "(bytes \<Rightarrow> uint256) \<Rightarrow> revision \<Rightarrow> message \<Rightarrow> precompile_cache \<Rightarrow> bool" where
  "undefined_request keccak256 r m cache \<longleftrightarrow>
     code_address m = 8 \<or> code_address m = 9 \<or>
     (code_address m = 3 \<or> code_address m = 4) \<and>
     (case (if code_address m = 3 then identity_analyze else expmod_analyze) (input_data m) r of
        None \<Rightarrow> True
      | Some pa \<Rightarrow> pa_gas_cost pa \<le> gas m \<and> 256 < pa_max_output_size pa \<and>
          cache (unat (code_address m)) (keccak256 (input_data m)) = None)"

lemma small_address:
  assumes "a < (10 :: address)"
  shows "a \<in> {0, 1, 2, 3, 4, 5, 6, 7, 8, 9}"
proof -
  have "unat a \<in> {0, 1, 2, 3, 4, 5, 6, 7, 8, 9}" using assms by (auto simp: word_less_nat_alt)
  then have "(of_nat (unat a) :: address) \<in> of_nat ` {0, 1, 2, 3, 4, 5, 6, 7, 8, 9}" by (rule imageI)
  then show ?thesis by simp
qed

lemma precompile_request:
  assumes "0 \<le> gas m" and "code_address m \<noteq> 0" "code_address m < 10" and "precompile_traits ! unat (code_address m) = p"
  shows "call_precompile keccak256 r m cache = None \<longleftrightarrow>
    (case p of None \<Rightarrow> True | Some (an, ex) \<Rightarrow>
      (case an (input_data m) r of None \<Rightarrow> True | Some pa \<Rightarrow>
        pa_gas_cost pa \<le> gas m \<and> cache (unat (code_address m)) (keccak256 (input_data m)) = None \<and>
        (256 < pa_max_output_size pa \<or> ex (input_data m) (pa_max_output_size pa) = None)))"
proof -
  have pid: "unat (code_address m) mod 256 = unat (code_address m)" "0 < unat (code_address m)"
    using assms(2,3) by (auto simp: word_less_nat_alt unat_gt_0)
  show ?thesis
    unfolding call_precompile_def NumPrecompiles_def Let_def pid using assms pid
    by (auto simp: cache_find_def split: option.split bind_splits)
qed

text \<open>For every other request \<open>call_precompile\<close> returns.\<close>

lemma call_precompile_None:
  assumes g: "0 \<le> gas m"
  shows "call_precompile keccak256 r m cache = None \<longleftrightarrow> undefined_request keccak256 r m cache"
proof (cases "code_address m < 10 \<and> code_address m \<noteq> 0")
  case False
  then have "code_address m \<notin> {3, 4, 8, 9}" by auto
  then show ?thesis using False
    by (auto simp: call_precompile_def undefined_request_def NumPrecompiles_def)
next
  case True
  note tr = precompile_traits_def depositroot_analyze_def sha256_analyze_def identity_analyze_def
    ecadd_analyze_def ecmul_analyze_def ecpairing_analyze_def identity_execute_def dummy_execute_def
    undefined_request_def
  note req = precompile_request [OF g _ _ refl, of keccak256 r cache]
  have "code_address m \<in> {1, 2, 3, 4, 5, 6, 7, 8, 9}" using small_address True by auto
  then consider "code_address m = 1" | "code_address m = 2" | "code_address m = 3" | "code_address m = 4"
    | "code_address m = 5" | "code_address m = 6" | "code_address m = 7" | "code_address m = 8"
    | "code_address m = 9" by blast
  then show ?thesis by cases (auto simp: req tr split: option.split)
qed

end
