(* ===== verification/Zvm_Rlp.thy ===== *)
theory Zvm_Rlp
  imports Zvm_Prelude
begin

text \<open>
  The RLP encoder (\<open>test/state/rlp.hpp\<close>).  A violated \<open>assert\<close> (a length of more than three
  bytes) is \<open>None\<close>.  The specification is a decoder of the RLP format; encoding and
  decoding is the identity, so that the encoding is injective.
\<close>

section \<open>Definitions\<close>

definition encode_length :: "nat \<Rightarrow> nat \<Rightarrow> nat \<Rightarrow> bytes option" where
  "encode_length ShortBase LongBase l =
     (if \<not> l \<le> 0xffffff then None
      else if l \<le> 55 then Some [of_nat (ShortBase + l)]
      else if l \<le> 0xff then Some [of_nat (LongBase + 1), of_nat l]
      else if l \<le> 0xffff then Some [of_nat (LongBase + 2), of_nat (l div 2 ^ 8), of_nat l]
      else Some [of_nat (LongBase + 3), of_nat (l div 2 ^ 16), of_nat (l div 2 ^ 8), of_nat l])"

definition wrap_list :: "bytes \<Rightarrow> bytes option" where
  "wrap_list content = do { h \<leftarrow> encode_length 192 247 (length content); Some (h @ content) }"

definition trim :: "bytes \<Rightarrow> bytes" where
  "trim b = dropWhile (\<lambda>x. x = 0) b"

definition encode_bytes :: "bytes \<Rightarrow> bytes option" where
  "encode_bytes data =
     (if length data = 1 \<and> unat (data ! 0) < 128 then Some [data ! 0]
      else do { h \<leftarrow> encode_length 128 183 (length data); Some (h @ data) })"

definition encode_uint64 :: "uint64 \<Rightarrow> bytes option" where
  "encode_uint64 x = encode_bytes (trim (be_store 8 x))"

definition encode_uint256 :: "uint256 \<Rightarrow> bytes option" where
  "encode_uint256 x = encode_bytes (trim (be_store 32 x))"

text \<open>
  \<open>encode_container\<close> appends the encodings of the elements to \<open>content\<close>;
  \<open>encode_tuple\<close> is the same for elements of different types.  Both get the results of
  \<open>encode\<close> for their elements.
\<close>

fun append_encodings :: "bytes option list \<Rightarrow> bytes \<Rightarrow> bytes option" where
  "append_encodings [] content = Some content"
| "append_encodings (e # es) content = do { b \<leftarrow> e; append_encodings es (content @ b) }"

definition encode_container :: "bytes option list \<Rightarrow> bytes option" where
  "encode_container es = do { content \<leftarrow> append_encodings es []; wrap_list content }"

definition encode_tuple :: "bytes option list \<Rightarrow> bytes option" where
  "encode_tuple es = do { content \<leftarrow> append_encodings es []; wrap_list content }"

section \<open>The format\<close>

text \<open>Trees of byte strings, their encoding by the functions above, and the decoder.\<close>

datatype rlp_item = Str bytes | Lst "rlp_item list"

fun encode_item :: "rlp_item \<Rightarrow> bytes option" where
  "encode_item (Str b) = encode_bytes b"
| "encode_item (Lst xs) = encode_container (map encode_item xs)"

text \<open>
  The header of an item: whether it is a list, the size of its payload and the bytes that
  follow the header.  A byte below 128 is its own payload.
\<close>

definition be_value :: "bytes \<Rightarrow> nat" where
  "be_value bs = foldl (\<lambda>v b. 256 * v + unat b) 0 bs"

definition rlp_header :: "bytes \<Rightarrow> (bool \<times> nat \<times> bytes) option" where
  "rlp_header bs = (case bs of
      [] \<Rightarrow> None
    | b # r \<Rightarrow>
       (let n = unat b in
        if n < 128 then Some (False, 1, bs)
        else if n < 184 then Some (False, n - 128, r)
        else if n < 192
        then Some (False, be_value (take (n - 183) r), drop (n - 183) r)
        else if n < 248 then Some (True, n - 192, r)
        else Some (True, be_value (take (n - 247) r), drop (n - 247) r)))"

fun decode_item :: "nat \<Rightarrow> bytes \<Rightarrow> (rlp_item \<times> bytes) option"
  and decode_list :: "nat \<Rightarrow> bytes \<Rightarrow> rlp_item list option" where
  "decode_item 0 bs = None"
| "decode_item (Suc n) bs = do {
     (is_list, len, r) \<leftarrow> rlp_header bs;
     payload \<leftarrow> slice r 0 len;
     if is_list then do { xs \<leftarrow> decode_list n payload; Some (Lst xs, drop len r) }
     else Some (Str payload, drop len r) }"
| "decode_list n [] = Some []"
| "decode_list 0 (b # bs) = None"
| "decode_list (Suc n) (b # bs) = do {
     (x, r) \<leftarrow> decode_item n (b # bs); xs \<leftarrow> decode_list n r; Some (x # xs) }"

section \<open>Headers\<close>

lemma unat_byte [simp]: "n < 256 \<Longrightarrow> unat (of_nat n :: byte) = n"
  by (simp add: unat_of_nat)

lemma unat_byte_mod: "unat (of_nat n :: byte) = n mod 256"
  by (simp add: unat_of_nat)

lemma encode_length_header:
  assumes "encode_length SB LB l = Some h" and "SB = 128 \<and> LB = 183 \<or> SB = 192 \<and> LB = 247"
  shows "rlp_header (h @ r) = Some (SB = 192, l, r)"
proof -
  have l: "l \<le> 0xffffff" using assms(1) by (auto simp: encode_length_def split: if_splits)
  consider "l \<le> 55" | "55 < l" "l \<le> 0xff" | "0xff < l" "l \<le> 0xffff" | "0xffff < l" by linarith
  then show ?thesis
  proof cases
    case 1
    then have "unat (of_nat (SB + l) :: byte) = SB + l" using assms(2) by (intro unat_byte) auto
    then show ?thesis using assms 1
      by (auto simp: encode_length_def rlp_header_def Let_def simp del: of_nat_add)
  next
    case 2
    then show ?thesis using assms
      by (auto simp: encode_length_def rlp_header_def Let_def be_value_def unat_byte_mod)
  next
    case 3
    have "256 * (l div 256 mod 256) + l mod 256 = l"
      using 3 less_mult_imp_div_less [of l 256 256] by simp
    then show ?thesis using assms 3
      by (auto simp: encode_length_def rlp_header_def Let_def be_value_def unat_byte_mod)
  next
    case 4
    have "l div 65536 < 256" using l less_mult_imp_div_less [of l 256 65536] by simp
    moreover have "l div 65536 = l div 256 div 256" by (simp add: div_mult2_eq [symmetric])
    ultimately have "256 * (256 * (l div 65536 mod 256) + l div 256 mod 256) + l mod 256 = l"
      by simp
    then show ?thesis using assms 4 l
      by (auto simp: encode_length_def rlp_header_def Let_def be_value_def unat_byte_mod)
  qed
qed

section \<open>Round trip\<close>

lemma append_encodings_acc:
  "append_encodings es content = map_option ((@) content) (append_encodings es [])"
proof (induction es arbitrary: content)
  case (Cons e es)
  show ?case
  proof (cases e)
    case (Some b)
    then show ?thesis using Cons.IH [of "content @ b"] Cons.IH [of b]
      by (simp add: option.map_comp comp_def)
  qed simp
qed simp

lemma append_encodings_Cons:
  "append_encodings (e # es) [] = Some bs \<longleftrightarrow>
     (\<exists>b c. e = Some b \<and> append_encodings es [] = Some c \<and> bs = b @ c)"
proof (cases e)
  case (Some b)
  then show ?thesis using append_encodings_acc [of es b] by auto
qed simp

text \<open>The recursion depth the decoder needs.\<close>

fun need :: "rlp_item \<Rightarrow> nat" where
  "need (Str b) = 1"
| "need (Lst xs) = 1 + length xs + sum_list (map need xs)"

lemma decode_bytes:
  assumes "encode_bytes b = Some bs"
  shows "decode_item (Suc n) (bs @ rest) = Some (Str b, rest)"
proof (cases "length b = 1 \<and> unat (b ! 0) < 128")
  case True
  then obtain x where x: "b = [x]" "unat x < 128" by (cases b) auto
  then have "bs = [x]" using assms by (simp add: encode_bytes_def)
  then show ?thesis using x by (simp add: rlp_header_def Let_def slice_def)
next
  case False
  then obtain h where h: "encode_length 128 183 (length b) = Some h" "bs = h @ b"
    using assms by (auto simp: encode_bytes_def bind_Some_iff)
  then show ?thesis using encode_length_header [OF h(1), of "b @ rest"] by (simp add: slice_def)
qed

lemma encode_item_nonempty: "encode_item x = Some bs \<Longrightarrow> bs \<noteq> []"
  by (cases x) (auto simp: encode_bytes_def encode_container_def wrap_list_def encode_length_def
      bind_Some_iff split: if_splits)

lemma decode_list_step:
  assumes "encode_item x = Some b" "decode_item n (b @ c) = Some (x, c)" "decode_list n c = Some xs"
  shows "decode_list (Suc n) (b @ c) = Some (x # xs)"
  using assms encode_item_nonempty [OF assms(1)] by (cases b) auto

lemma decode_encode:
  "encode_item x = Some bs \<Longrightarrow> need x \<le> n \<Longrightarrow> decode_item n (bs @ rest) = Some (x, rest)"
proof (induction x arbitrary: bs n rest)
  case (Str b)
  then show ?case using decode_bytes [of b bs "n - 1" rest] by simp
next
  case (Lst xs)
  have list: "append_encodings (map encode_item ys) [] = Some c \<Longrightarrow>
      length ys + sum_list (map need ys) \<le> k \<Longrightarrow> decode_list k c = Some ys"
    if "set ys \<subseteq> set xs" for ys c k
    using that
  proof (induction ys arbitrary: c k)
    case (Cons y ys)
    obtain b c' where bc: "encode_item y = Some b" "append_encodings (map encode_item ys) [] = Some c'"
        "c = b @ c'"
      using Cons.prems(1) unfolding list.map append_encodings_Cons by blast
    obtain k' where k: "k = Suc k'" using Cons.prems(2) by (cases k) auto
    have "decode_item k' (b @ c') = Some (y, c')"
      using Lst.IH [of y b k' c'] Cons.prems bc(1) k by simp
    moreover have "decode_list k' c' = Some ys" using Cons.IH [OF bc(2)] Cons.prems k by simp
    ultimately show ?case using decode_list_step [OF bc(1)] bc(3) k by simp
  qed simp
  obtain c h where ch: "append_encodings (map encode_item xs) [] = Some c"
      "encode_length 192 247 (length c) = Some h" "bs = h @ c"
    using Lst.prems(1) by (auto simp: encode_container_def wrap_list_def bind_Some_iff)
  obtain k where k: "n = Suc k" using Lst.prems(2) by (cases n) auto
  have "decode_list k c = Some xs" using list [OF subset_refl ch(1)] Lst.prems(2) k by simp
  then show ?case using encode_length_header [OF ch(2), of "c @ rest"] ch(3) k
    by (simp add: slice_def)
qed

section \<open>Encodings exist\<close>

lemma encode_bytes_Some:
  "length bs \<le> 0xffffff \<Longrightarrow> \<exists>e. encode_bytes bs = Some e \<and> length e \<le> length bs + 4"
  by (auto simp: encode_bytes_def encode_length_def)

lemma wrap_list_Some: "length c \<le> 0xffffff \<Longrightarrow> \<exists>e. wrap_list c = Some e"
  by (auto simp: wrap_list_def encode_length_def)

lemma append_encodings_Some:
  "list_all (\<lambda>e. \<exists>b. e = Some b \<and> length b \<le> n) es \<Longrightarrow>
   \<exists>c. append_encodings es [] = Some c \<and> length c \<le> n * length es"
proof (induction es)
  case (Cons e es)
  then obtain b c where "e = Some b" "length b \<le> n" "append_encodings es [] = Some c" "length c \<le> n * length es"
    by auto
  then show ?case using append_encodings_Cons [of e es "b @ c"] by auto
qed simp

lemma list_item_Some:
  assumes "list_all (\<lambda>e. \<exists>b. e = Some b \<and> length b \<le> n) es" and "n * length es \<le> 0xffffff"
  shows "\<exists>e. encode_container es = Some e"
proof -
  obtain c where c: "append_encodings es [] = Some c" "length c \<le> 0xffffff"
    using append_encodings_Some [OF assms(1)] assms(2) by (meson le_trans)
  then show ?thesis using wrap_list_Some by (simp add: encode_container_def)
qed

end
