(* ===== verification/Zvm_Host.thy ===== *)
theory Zvm_Host
  imports Zvm_VM Zvm_Precompiles Zvm_Rlp
begin

text \<open>
  The host that the test programs give to the interpreters (class \<open>Host\<close> of
  \<open>test/state/host.hpp\<close> and \<open>test/state/host.cpp\<close>): every method of the ZVMC interface, the
  creation of contracts and the calls, which run a VM on the code of an account with the same
  host.  A violated \<open>assert\<close> ends the process and is \<open>None\<close>.
\<close>

section \<open>Data\<close>

record Log =
  log_addr :: address
  log_data :: bytes
  log_topics :: "uint256 list"

definition empty_log :: Log where
  "empty_log = \<lparr>log_addr = 0, log_data = [], log_topics = []\<rparr>"

record Withdrawal =
  w_recipient :: address
  amount_in_gplanck :: uint64

record StateBlockInfo =
  b_number :: int
  b_timestamp :: int
  b_gas_limit :: int
  b_coinbase :: address
  b_prev_randao :: uint256
  b_base_fee :: uint64
  b_withdrawals :: "Withdrawal list"

datatype tx_kind = eip1559

record Transaction =
  t_kind :: tx_kind
  t_data :: bytes
  t_gas_limit :: int
  t_max_gas_price :: uint256
  t_max_priority_gas_price :: uint256
  t_sender :: address
  t_to :: "address option"
  t_value :: uint256
  t_access_list :: "(address \<times> uint256 list) list"
  t_chain_id :: uint64
  t_nonce :: uint64
  t_public_key :: bytes
  t_signature :: bytes

text \<open>
  The members of a \<open>Host\<close> with what they refer to, and the cache of the precompiles, which is
  a static variable.  The last field is not in the code: it records that the model ran out of
  nested calls (see \<open>host_calls\<close>).
\<close>

record Host =
  m_rev :: revision
  m_state :: State
  m_block :: StateBlockInfo
  m_transaction :: Transaction
  m_logs :: "Log list"
  m_cache :: precompile_cache
  out_of_depth :: bool

section \<open>Methods without calls\<close>

definition Host_account_exists :: "Host \<Rightarrow> address \<Rightarrow> bool" where
  "Host_account_exists H addr =
     (case state_find (m_state H) addr of None \<Rightarrow> False | Some acc \<Rightarrow> \<not> is_empty acc)"

definition Host_get_storage :: "Host \<Rightarrow> address \<Rightarrow> uint256 \<Rightarrow> uint256 option" where
  "Host_get_storage H addr key = do {
     acc \<leftarrow> state_get (m_state H) addr;
     Some (case storage acc key of Some v \<Rightarrow> sv_current v | None \<Rightarrow> 0) }"

definition update_status :: "uint256 \<Rightarrow> uint256 \<Rightarrow> uint256 \<Rightarrow> storage_status" where
  "update_status original current v =
     (let dirty = original \<noteq> current;
          restored = original = v;
          current_is_zero = current = 0;
          value_is_zero = v = 0
      in if \<not> dirty \<and> \<not> restored
         then if current_is_zero then ZVMC_STORAGE_ADDED
              else if value_is_zero then ZVMC_STORAGE_DELETED
              else ZVMC_STORAGE_MODIFIED
         else if dirty \<and> \<not> restored
         then if current_is_zero \<and> \<not> value_is_zero then ZVMC_STORAGE_DELETED_ADDED
              else if \<not> current_is_zero \<and> value_is_zero then ZVMC_STORAGE_MODIFIED_DELETED
              else ZVMC_STORAGE_ASSIGNED
         else if dirty \<and> restored
         then if current_is_zero then ZVMC_STORAGE_DELETED_RESTORED
              else if value_is_zero then ZVMC_STORAGE_ADDED_DELETED
              else ZVMC_STORAGE_MODIFIED_RESTORED
         else ZVMC_STORAGE_ASSIGNED)"

definition Host_set_storage ::
  "Host \<Rightarrow> address \<Rightarrow> uint256 \<Rightarrow> uint256 \<Rightarrow> (storage_status \<times> Host) option" where
  "Host_set_storage H addr key v = do {
     acc \<leftarrow> state_get (m_state H) addr;
     let storage_slot = slot key acc;
     let status = update_status (sv_original storage_slot) (sv_current storage_slot) v;
     let acc = set_slot key (storage_slot\<lparr>sv_current := v\<rparr>) acc;
     Some (status, H\<lparr>m_state := (m_state H)(addr \<mapsto> acc)\<rparr>) }"

definition Host_get_balance :: "Host \<Rightarrow> address \<Rightarrow> uint256" where
  "Host_get_balance H addr =
     (case state_find (m_state H) addr of None \<Rightarrow> 0 | Some acc \<Rightarrow> balance acc)"

definition Host_get_code_size :: "Host \<Rightarrow> address \<Rightarrow> nat" where
  "Host_get_code_size H addr =
     (case state_find (m_state H) addr of None \<Rightarrow> 0 | Some acc \<Rightarrow> length (acc_code acc))"

definition Host_get_code_hash :: "(bytes \<Rightarrow> uint256) \<Rightarrow> Host \<Rightarrow> address \<Rightarrow> uint256" where
  "Host_get_code_hash keccak256 H addr =
     (case state_find (m_state H) addr of
        None \<Rightarrow> 0
      | Some acc \<Rightarrow> if \<not> is_empty acc then keccak256 (acc_code acc) else 0)"

definition Host_copy_code :: "Host \<Rightarrow> address \<Rightarrow> nat \<Rightarrow> nat \<Rightarrow> bytes" where
  "Host_copy_code H addr code_offset buffer_size =
     (let c = (case state_find (m_state H) addr of None \<Rightarrow> [] | Some acc \<Rightarrow> acc_code acc);
          code_slice = drop (min code_offset (length c)) c;
          num_bytes = min buffer_size (length code_slice)
      in take num_bytes code_slice)"

definition Host_get_tx_context :: "Host \<Rightarrow> tx_context option" where
  "Host_get_tx_context H =
     (let tx = m_transaction H; blk = m_block H; base_fee = ucast (b_base_fee blk) in
      if \<not> t_max_gas_price tx \<ge> base_fee then None
      else
        let priority_gas_price = min (t_max_priority_gas_price tx) (t_max_gas_price tx - base_fee);
            effective_gas_price = base_fee + priority_gas_price
        in Some \<lparr>tx_gas_price = effective_gas_price, tx_origin = t_sender tx,
             block_coinbase = b_coinbase blk, block_number = b_number blk,
             block_timestamp = b_timestamp blk, block_gas_limit = b_gas_limit blk,
             block_prev_randao = b_prev_randao blk, chain_id = 1, block_base_fee = base_fee\<rparr>)"

definition Host_get_block_hash :: "Host \<Rightarrow> int \<Rightarrow> uint256" where
  "Host_get_block_hash H number = 0"

definition Host_emit_log :: "Host \<Rightarrow> address \<Rightarrow> bytes \<Rightarrow> uint256 list \<Rightarrow> Host" where
  "Host_emit_log H addr data topics =
     H\<lparr>m_logs := m_logs H @ [\<lparr>log_addr = addr, log_data = data, log_topics = topics\<rparr>]\<rparr>"

definition Host_access_account :: "Host \<Rightarrow> address \<Rightarrow> (access_status \<times> Host) option" where
  "Host_access_account H addr = do {
     (acc, S) \<leftarrow> state_get_or_insert addr (empty_account\<lparr>erasable := True\<rparr>) (m_state H);
     let status = acc_access_status acc;
     let H = H\<lparr>m_state := S(addr \<mapsto> acc\<lparr>acc_access_status := ZVMC_ACCESS_WARM\<rparr>)\<rparr>;
     if status = ZVMC_ACCESS_COLD \<and> addr \<ge> 1 \<and> addr \<le> 9 then Some (ZVMC_ACCESS_WARM, H)
     else Some (status, H) }"

definition Host_access_storage :: "Host \<Rightarrow> address \<Rightarrow> uint256 \<Rightarrow> (access_status \<times> Host) option" where
  "Host_access_storage H addr key = do {
     acc \<leftarrow> state_get (m_state H) addr;
     let v = slot key acc;
     let acc' = set_slot key (v\<lparr>sv_access_status := ZVMC_ACCESS_WARM\<rparr>) acc;
     Some (sv_access_status v, H\<lparr>m_state := (m_state H)(addr \<mapsto> acc')\<rparr>) }"

section \<open>Calls\<close>

definition compute_new_account_address ::
  "(bytes \<Rightarrow> uint256) \<Rightarrow> address \<Rightarrow> uint64 \<Rightarrow> uint256 option \<Rightarrow> bytes \<Rightarrow> address option" where
  "compute_new_account_address keccak256 sndr sender_nonce salt init_code = do {
     addr_base_hash \<leftarrow>
       (case salt of
          None \<Rightarrow> do {
            rlp_list \<leftarrow> encode_tuple [encode_bytes (be_store 20 sndr), encode_uint64 sender_nonce];
            Some (keccak256 rlp_list) }
        | Some s \<Rightarrow>
            let init_code_hash = keccak256 init_code;
                buffer = 0xff # be_store 20 sndr @ be_store 32 s @ be_store 32 init_code_hash
            in Some (keccak256 buffer));
     Some (ucast addr_base_hash) }"

abbreviation creates :: "message \<Rightarrow> bool" where
  "creates m \<equiv> kind m = ZVMC_CREATE \<or> kind m = ZVMC_CREATE2"

definition prepare_message ::
  "(bytes \<Rightarrow> uint256) \<Rightarrow> message \<Rightarrow> Host \<Rightarrow> (message option \<times> Host) option" where
  "prepare_message keccak256 m H = do {
     sender_acc \<leftarrow> state_get (m_state H) (sender m);
     let sender_nonce = nonce sender_acc;
     let bump = depth m = 0 \<or> creates m;
     if bump \<and> sender_nonce = NonceMax then Some (None, H)
     else do {
       let H = (if bump
                then H\<lparr>m_state := (m_state H)(sender m \<mapsto> sender_acc\<lparr>nonce := sender_nonce + 1\<rparr>)\<rparr>
                else H);
       if creates m
       then if \<not> (recipient m = 0 \<and> code_address m = 0) then None
            else do {
              addr \<leftarrow> compute_new_account_address keccak256 (sender m) sender_nonce
                        (if kind m = ZVMC_CREATE2 then Some (create2_salt m) else None) (input_data m);
              let m = m\<lparr>recipient := addr\<rparr>;
              (_, H) \<leftarrow> Host_access_account H (recipient m);
              Some (Some m, H) }
       else Some (Some m, H) } }"

text \<open>The transfer of a value; the assertion says that the sender has it.\<close>

definition transfer :: "address \<Rightarrow> address \<Rightarrow> uint256 \<Rightarrow> State \<Rightarrow> State option" where
  "transfer sndr dst v S = do {
     sender_acc \<leftarrow> state_get S sndr;
     if \<not> balance sender_acc \<ge> v then None
     else do {
       let S = S(sndr \<mapsto> sender_acc\<lparr>balance := balance sender_acc - v\<rparr>);
       dst_acc \<leftarrow> state_get S dst;
       Some (S(dst \<mapsto> dst_acc\<lparr>balance := balance dst_acc + v\<rparr>)) } }"

definition max_code_size :: nat where
  "max_code_size = 0x6000"

text \<open>What runs the code of a message: \<open>m_vm.execute(*this, m_rev, msg, code, code_size)\<close>.\<close>

type_synonym vm_runner = "message \<Rightarrow> bytes \<Rightarrow> Host \<Rightarrow> (zvmc_result \<times> Host) option"

definition clear_storage :: "Account \<Rightarrow> Account" where
  "clear_storage acc = acc\<lparr>storage := (\<lambda>k. map_option
     (\<lambda>v. empty_slot\<lparr>sv_access_status := sv_access_status v\<rparr>) (storage acc k))\<rparr>"

text \<open>The three parts of \<open>Host::create\<close>: the new account, the run of the init code, the new code.\<close>

definition new_contract :: "message \<Rightarrow> State \<Rightarrow> State option" where
  "new_contract m S = do {
     (new_acc, S) \<leftarrow> state_get_or_insert (recipient m) empty_account S;
     if nonce new_acc \<noteq> 0 then None
     else transfer (sender m) (recipient m) (msg_value m)
            (S(recipient m \<mapsto> clear_storage (new_acc\<lparr>nonce := 1\<rparr>))) }"

definition deploy_code :: "message \<Rightarrow> zvmc_result \<Rightarrow> Host \<Rightarrow> (zvmc_result \<times> Host) option" where
  "deploy_code m result H = do {
     let gas_left = res_gas_left result;
     if \<not> gas_left \<ge> 0 then None
     else do {
       let c = output_data result;
       if length c > max_code_size then Some (make_result ZVMC_FAILURE 0 0 [], H)
       else do {
         let gas_left = gas_left - int (length c) * 200;
         if gas_left < 0 then Some (make_result ZVMC_FAILURE 0 0 [], H)
         else if c \<noteq> [] \<and> c ! 0 = 0xEF
         then Some (make_result ZVMC_CONTRACT_VALIDATION_FAILURE 0 0 [], H)
         else do {
           acc \<leftarrow> state_get (m_state H) (recipient m);
           Some ((make_result (res_status result) gas_left (res_gas_refund result) [])
                   \<lparr>create_address := recipient m\<rparr>,
                 H\<lparr>m_state := (m_state H)(recipient m \<mapsto> acc\<lparr>acc_code := c\<rparr>)\<rparr>) } } } }"

definition Host_create :: "vm_runner \<Rightarrow> message \<Rightarrow> Host \<Rightarrow> (zvmc_result \<times> Host) option" where
  "Host_create run m H =
     (if \<not> creates m then None
      else if (case state_find (m_state H) (recipient m) of
                 None \<Rightarrow> False | Some acc \<Rightarrow> nonce acc \<noteq> 0 \<or> acc_code acc \<noteq> [])
      then Some (make_result ZVMC_FAILURE 0 0 [], H)
      else do {
        S \<leftarrow> new_contract m (m_state H);
        (result, H) \<leftarrow> run (m\<lparr>input_data := []\<rparr>) (input_data m) (H\<lparr>m_state := S\<rparr>);
        if res_status result \<noteq> ZVMC_SUCCESS
        then Some (result\<lparr>create_address := recipient m\<rparr>, H)
        else deploy_code m result H })"

text \<open>The touch of the recipient and the transfer of the value by a call.\<close>

definition enter_call :: "message \<Rightarrow> Host \<Rightarrow> Host option" where
  "enter_call m H =
     (if kind m = ZVMC_CALL
      then do {
        S \<leftarrow> state_touch (recipient m) (m_state H);
        S \<leftarrow> transfer (sender m) (recipient m) (msg_value m) S;
        Some (H\<lparr>m_state := S\<rparr>) }
      else Some H)"

text \<open>
  The message is run by a precompiled contract or by the VM.  The precompiled contracts
  (\<open>call_precompile\<close>) are a parameter here and in the following definitions; \<open>host_calls\<close> below is
  the host with those of the repository.  \<open>Zvm_Undefined\<close> compares it with the host whose
  contracts have a trap in place of their undefined behaviour.
\<close>

type_synonym precompiles =
  "revision \<Rightarrow> message \<Rightarrow> precompile_cache \<Rightarrow> (zvmc_result option \<times> precompile_cache) option"

definition execute_message ::
  "precompiles \<Rightarrow> vm_runner \<Rightarrow> message \<Rightarrow> Host \<Rightarrow> (zvmc_result \<times> Host) option" where
  "execute_message precompile run m H =
     (if creates m then Host_create run m H
      else if \<not> (kind m \<noteq> ZVMC_CALL \<or> recipient m = code_address m) then None
      else do {
        H \<leftarrow> enter_call m H;
        let dst = (if kind m = ZVMC_CALL then recipient m else code_address m);
        (precompiled, cache) \<leftarrow> precompile (m_rev H) m (m_cache H);
        let H = H\<lparr>m_cache := cache\<rparr>;
        (case precompiled of
           Some result \<Rightarrow> Some (result, H)
         | None \<Rightarrow>
             run m (case state_find (m_state H) dst of None \<Rightarrow> [] | Some acc \<Rightarrow> acc_code acc) H) })"

definition resize_logs :: "nat \<Rightarrow> Log list \<Rightarrow> Log list" where
  "resize_logs n logs = take n logs @ replicate (n - length logs) empty_log"

definition Host_call ::
  "(bytes \<Rightarrow> uint256) \<Rightarrow> precompiles \<Rightarrow> vm_runner \<Rightarrow> Host \<Rightarrow> message \<Rightarrow> (zvmc_result \<times> Host) option" where
  "Host_call keccak256 precompile run H orig_msg = do {
     (prepared, H) \<leftarrow> prepare_message keccak256 orig_msg H;
     (case prepared of
        None \<Rightarrow> Some (make_result ZVMC_FAILURE (gas orig_msg) 0 [], H)
      | Some m \<Rightarrow> do {
          let state_snapshot = m_state H;
          let logs_snapshot = length (m_logs H);
          (result, H) \<leftarrow> execute_message precompile run m H;
          if res_status result \<noteq> ZVMC_SUCCESS
          then do {
            let is_03_touched = (case state_find (m_state H) 3 of None \<Rightarrow> False | Some acc \<Rightarrow> erasable acc);
            let H = H\<lparr>m_state := state_snapshot, m_logs := resize_logs logs_snapshot (m_logs H)\<rparr>;
            H \<leftarrow> (if is_03_touched
                  then do { S \<leftarrow> state_touch 3 (m_state H); Some (H\<lparr>m_state := S\<rparr>) }
                  else Some H);
            Some (result, H) }
          else Some (result, H) }) }"

section \<open>The interface\<close>

text \<open>The functions of the libraries that are not part of the repository.\<close>

record library =
  lib_keccak256 :: "bytes \<Rightarrow> uint256"
  lib_sdivrem :: "uint256 \<Rightarrow> uint256 \<Rightarrow> uint256 \<times> uint256"
  lib_addmod :: "uint256 \<Rightarrow> uint256 \<Rightarrow> uint256 \<Rightarrow> uint256"
  lib_mulmod :: "uint256 \<Rightarrow> uint256 \<Rightarrow> uint256 \<Rightarrow> uint256"
  lib_exp :: "uint256 \<Rightarrow> uint256 \<Rightarrow> uint256"
  lib_count_significant_bytes :: "uint256 \<Rightarrow> nat"
  lib_slt :: "uint256 \<Rightarrow> uint256 \<Rightarrow> bool"
  lib_fresh_memory :: "nat \<Rightarrow> byte"
  lib_fresh_stack :: "nat \<Rightarrow> uint256"

text \<open>
  The host state of the interpreters is the running process, which is \<open>None\<close> after a
  violated assertion; what its methods return then is without meaning.
\<close>

type_synonym process = "Host option"

definition stopped_result :: zvmc_result where
  "stopped_result = make_result ZVMC_INTERNAL_ERROR 0 0 []"

definition host_method :: "'r \<Rightarrow> (Host \<Rightarrow> ('r \<times> Host) option) \<Rightarrow> process \<Rightarrow> 'r \<times> process" where
  "host_method stopped f p =
     (case p \<bind> f of None \<Rightarrow> (stopped, None) | Some (r, H) \<Rightarrow> (r, Some H))"

definition query :: "'r \<Rightarrow> (Host \<Rightarrow> 'r option) \<Rightarrow> process \<Rightarrow> 'r" where
  "query stopped f p = (case p \<bind> f of None \<Rightarrow> stopped | Some r \<Rightarrow> r)"

definition host_interface ::
  "library \<Rightarrow> (Host \<Rightarrow> message \<Rightarrow> (zvmc_result \<times> Host) option) \<Rightarrow> process platform" where
  "host_interface L call =
     \<lparr>host_account_exists = (\<lambda>p a. query False (\<lambda>H. Some (Host_account_exists H a)) p),
      host_get_storage = (\<lambda>p a k. query 0 (\<lambda>H. Host_get_storage H a k) p),
      host_set_storage = (\<lambda>p a k v. host_method ZVMC_STORAGE_ASSIGNED (\<lambda>H. Host_set_storage H a k v) p),
      host_get_balance = (\<lambda>p a. query 0 (\<lambda>H. Some (Host_get_balance H a)) p),
      host_get_code_size = (\<lambda>p a. query 0 (\<lambda>H. Some (Host_get_code_size H a)) p),
      host_get_code_hash = (\<lambda>p a. query 0 (\<lambda>H. Some (Host_get_code_hash (lib_keccak256 L) H a)) p),
      host_copy_code = (\<lambda>p a off n. query [] (\<lambda>H. Some (Host_copy_code H a off n)) p),
      host_call = (\<lambda>p m. host_method stopped_result (\<lambda>H. call H m) p),
      host_get_tx_context = (\<lambda>p. query empty_tx_context Host_get_tx_context p),
      host_get_block_hash = (\<lambda>p n. query 0 (\<lambda>H. Some (Host_get_block_hash H n)) p),
      host_emit_log = (\<lambda>p a d ts. map_option (\<lambda>H. Host_emit_log H a d ts) p),
      host_access_account = (\<lambda>p a. host_method ZVMC_ACCESS_COLD (\<lambda>H. Host_access_account H a) p),
      host_access_storage = (\<lambda>p a k. host_method ZVMC_ACCESS_COLD (\<lambda>H. Host_access_storage H a k) p),
      ethash_keccak256 = lib_keccak256 L,
      intx_sdivrem = lib_sdivrem L,
      intx_addmod = lib_addmod L,
      intx_mulmod = lib_mulmod L,
      intx_exp = lib_exp L,
      intx_count_significant_bytes = lib_count_significant_bytes L,
      intx_slt = lib_slt L,
      fresh_memory = lib_fresh_memory L,
      fresh_stack = lib_fresh_stack L\<rparr>"

text \<open>\<open>m_vm.execute\<close>; a VM that does not return a result has undefined behaviour.\<close>

definition run_vm :: "process platform \<Rightarrow> VM \<Rightarrow> vm_runner" where
  "run_vm P vm m c H = do {
     ((result, p), _) \<leftarrow> vm_execute P vm (Some H) (m_rev H) m c;
     H \<leftarrow> p;
     Some (result, H) }"

text \<open>
  \<open>Host::call\<close> runs a VM that calls \<open>Host::call\<close> again.  The recursion is cut off after
  \<open>n\<close> levels, which the host remembers in the ghost field \<open>out_of_depth\<close>; the depth limit of the
  interpreters makes 1025 levels enough.
\<close>

fun host_calls_with ::
  "precompiles \<Rightarrow> library \<Rightarrow> VM \<Rightarrow> nat \<Rightarrow> Host \<Rightarrow> message \<Rightarrow> (zvmc_result \<times> Host) option" where
  "host_calls_with precompile L vm 0 H m = Some (stopped_result, H\<lparr>out_of_depth := True\<rparr>)"
| "host_calls_with precompile L vm (Suc n) H m =
     Host_call (lib_keccak256 L) precompile
       (run_vm (host_interface L (host_calls_with precompile L vm n)) vm) H m"

definition host_calls :: "library \<Rightarrow> VM \<Rightarrow> nat \<Rightarrow> Host \<Rightarrow> message \<Rightarrow> (zvmc_result \<times> Host) option" where
  "host_calls L vm n = host_calls_with (call_precompile (lib_keccak256 L)) L vm n"

definition host_platform :: "library \<Rightarrow> VM \<Rightarrow> nat \<Rightarrow> process platform" where
  "host_platform L vm n = host_interface L (host_calls L vm n)"

end
