(* ===== verification/Zvm_Host_Laws.thy ===== *)
theory Zvm_Host_Laws
  imports Zvm_Host
begin

text \<open>
  The test host keeps the contract of the interpreters: the laws of the locales
  \<open>zvmc_host\<close> and \<open>intx_library\<close> hold for the platform that \<open>Zvm_Host\<close> builds from the host,
  so that every theorem about an interpreter holds with it.
\<close>

section \<open>The gas of a call\<close>

definition gas_kept :: "vm_runner \<Rightarrow> bool" where
  "gas_kept run \<longleftrightarrow> (\<forall>m c H res H'. 0 \<le> gas m \<longrightarrow> run m c H = Some (res, H') \<longrightarrow>
     0 \<le> res_gas_left res \<and> res_gas_left res \<le> gas m)"

lemma gas_keptD:
  "gas_kept run \<Longrightarrow> 0 \<le> gas m \<Longrightarrow> run m c H = Some (res, H') \<Longrightarrow>
     0 \<le> res_gas_left res \<and> res_gas_left res \<le> gas m"
  unfolding gas_kept_def by blast

lemma deploy_code_gas:
  "deploy_code m r H = Some (res, H') \<Longrightarrow> 0 \<le> res_gas_left res \<and> res_gas_left res \<le> res_gas_left r"
  by (auto simp: deploy_code_def Let_def make_result_def split: if_splits bind_splits)

lemma Host_create_gas:
  assumes run: "gas_kept run" and g: "0 \<le> gas m" and c: "Host_create run m H = Some (res, H')"
  shows "0 \<le> res_gas_left res \<and> res_gas_left res \<le> gas m"
proof -
  have "0 \<le> res_gas_left r \<and> res_gas_left r \<le> gas m"
    if "run (m\<lparr>input_data := []\<rparr>) i H1 = Some (r, H2)" for i H1 r H2
    using gas_keptD [OF run _ that] g by simp
  then show ?thesis using c g
    by (fastforce simp: Host_create_def make_result_def split: if_splits bind_splits
        dest: deploy_code_gas)
qed

text \<open>What is required of the precompiled contracts; \<open>call_precompile\<close> keeps it.\<close>

locale precompiled_contracts =
  fixes precompile :: precompiles
  assumes precompile_gas: "\<And>r m cache res cache'. precompile r m cache = Some (Some res, cache') \<Longrightarrow>
      0 \<le> gas m \<Longrightarrow> 0 \<le> res_gas_left res \<and> res_gas_left res \<le> gas m"
    and precompile_refund: "\<And>r m cache res cache'. precompile r m cache = Some (Some res, cache') \<Longrightarrow>
      0 \<le> gas m \<Longrightarrow> res_gas_refund res = 0"
begin

lemma execute_message_gas:
  assumes run: "gas_kept run" and g: "0 \<le> gas m"
    and c: "execute_message precompile run m H = Some (res, H')"
  shows "0 \<le> res_gas_left res \<and> res_gas_left res \<le> gas m"
proof (cases "creates m")
  case True
  then show ?thesis using Host_create_gas [OF run g] c by (simp add: execute_message_def)
next
  case False
  then show ?thesis using c
    by (auto simp: execute_message_def Let_def split: if_splits bind_splits option.splits
        dest: gas_keptD [OF run g] precompile_gas [OF _ g])
qed

lemma prepare_message_gas:
  "prepare_message k m H = Some (Some m', H') \<Longrightarrow> gas m' = gas m"
  by (auto simp: prepare_message_def Let_def split: if_splits bind_splits)

lemma Host_call_gas:
  assumes run: "gas_kept run" and g: "0 \<le> gas m" and c: "Host_call k precompile run H m = Some (res, H')"
  shows "0 \<le> res_gas_left res \<and> res_gas_left res \<le> gas m"
proof -
  obtain p H1 where p: "prepare_message k m H = Some (p, H1)"
    using c by (auto simp: Host_call_def split: bind_splits)
  show ?thesis
  proof (cases p)
    case None
    then show ?thesis using c p g by (auto simp: Host_call_def make_result_def)
  next
    case (Some m1)
    then have g1: "gas m1 = gas m" using p prepare_message_gas by simp
    obtain H2 where e: "execute_message precompile run m1 H1 = Some (res, H2)"
      using c p Some by (auto simp: Host_call_def Let_def split: bind_splits if_splits)
    show ?thesis using execute_message_gas [OF run _ e] g g1 by simp
  qed
qed

end

section \<open>The contract of the interpreters\<close>

lemma host_interface_laws:
  assumes "\<And>H m res H'. 0 \<le> gas m \<Longrightarrow> call H m = Some (res, H') \<Longrightarrow>
     0 \<le> res_gas_left res \<and> res_gas_left res \<le> gas m"
  shows "zvmc_host (host_interface L call)"
proof
  show "length (host_copy_code (host_interface L call) h a off n) \<le> n" for h a off n
    by (simp add: host_interface_def query_def Host_copy_code_def Let_def split: bind_splits option.split)
  show "0 \<le> res_gas_left (fst (host_call (host_interface L call) h m)) \<and>
      res_gas_left (fst (host_call (host_interface L call) h m)) \<le> gas m" if "0 \<le> gas m" for h m
    using assms [OF that] that
    by (auto simp: host_interface_def host_method_def stopped_result_def make_result_def
        split: bind_splits option.split)
qed

lemma run_vm_gas:
  assumes P: "zvmc_host P" and vm: "vm_execute_ptr vm = Baseline_execute"
  shows "gas_kept (run_vm P vm)"
proof -
  have "0 \<le> res_gas_left res \<and> res_gas_left res \<le> gas m"
    if g: "0 \<le> gas m" and r: "run_vm P vm m c H = Some (res, H')" for m c H res H'
  proof -
    obtain p ns where "vm_execute P vm (Some H) (m_rev H) m c = Some ((res, p), ns)"
      using r by (auto simp: run_vm_def split: bind_splits)
    then have "execute P False (Some H) (m_rev H) m c = Some (res, p)"
      using vm_execute_baseline [OF vm, of P "Some H" "m_rev H" m c] by simp
    then show ?thesis
      using zvmc_host.execute_returns [OF P g, of False "Some H" "m_rev H" c]
      by (simp add: vm_ok_def)
  qed
  then show ?thesis by (auto simp: gas_kept_def)
qed

context precompiled_contracts
begin

lemma calls_gas:
  assumes vm: "vm_execute_ptr vm = Baseline_execute"
  shows "0 \<le> gas m \<Longrightarrow> host_calls_with precompile L vm n H m = Some (res, H') \<Longrightarrow>
    0 \<le> res_gas_left res \<and> res_gas_left res \<le> gas m"
proof (induction n arbitrary: H m res H')
  case 0
  then show ?case by (auto simp: stopped_result_def make_result_def)
next
  case (Suc n)
  have "zvmc_host (host_interface L (host_calls_with precompile L vm n))"
    by (rule host_interface_laws) (rule Suc.IH)
  then show ?case using Host_call_gas [OF run_vm_gas [OF _ vm]] Suc.prems by auto
qed

lemma platform_laws:
  "vm_execute_ptr vm = Baseline_execute \<Longrightarrow> zvmc_host (host_interface L (host_calls_with precompile L vm n))"
  by (rule host_interface_laws) (rule calls_gas)

end

text \<open>The precompiled contracts of the repository.\<close>

interpretation evm_precompiles: precompiled_contracts "call_precompile keccak256" for keccak256
  by unfold_locales (auto dest: call_precompile_gas)

lemma host_calls_gas:
  "vm_execute_ptr vm = Baseline_execute \<Longrightarrow> 0 \<le> gas m \<Longrightarrow> host_calls L vm n H m = Some (res, H') \<Longrightarrow>
   0 \<le> res_gas_left res \<and> res_gas_left res \<le> gas m"
  unfolding host_calls_def by (rule evm_precompiles.calls_gas)

lemma host_platform_laws:
  "vm_execute_ptr vm = Baseline_execute \<Longrightarrow> zvmc_host (host_platform L vm n)"
  unfolding host_platform_def host_calls_def by (rule evm_precompiles.platform_laws)

text \<open>The VM as \<open>zvmc_create_zvmone\<close> makes it.\<close>

interpretation test_host: zvmc_host "host_platform L (zvmc_create_zvmone supported) n"
  for L supported n
  by (rule host_platform_laws) (simp add: zvmc_create_zvmone_def VM_new_def)

section \<open>The reference library\<close>

text \<open>The functions of intx by their documentation; the hash and the fresh buffers are free.\<close>

definition significant_bytes :: "uint256 \<Rightarrow> nat" where
  "significant_bytes x =
     (case List.find (\<lambda>n. unat x < 256 ^ n) [0..<33] of Some n \<Rightarrow> n | None \<Rightarrow> 33)"

definition reference_library :: "(bytes \<Rightarrow> uint256) \<Rightarrow> (nat \<Rightarrow> byte) \<Rightarrow> (nat \<Rightarrow> uint256) \<Rightarrow> library" where
  "reference_library keccak256 mem stk =
     \<lparr>lib_keccak256 = keccak256,
      lib_sdivrem = (\<lambda>a v. (word_of_int (sint a sdiv sint v), word_of_int (sint a smod sint v))),
      lib_addmod = (\<lambda>x y m. word_of_int ((uint x + uint y) mod uint m)),
      lib_mulmod = (\<lambda>x y m. word_of_int ((uint x * uint y) mod uint m)),
      lib_exp = (\<lambda>b e. b ^ unat e),
      lib_count_significant_bytes = significant_bytes,
      lib_slt = (\<lambda>x y. sint x < sint y),
      lib_fresh_memory = mem,
      lib_fresh_stack = stk\<rparr>"

lemma significant_bytes_least:
  "unat x < 256 ^ significant_bytes x \<and> (\<forall>n. unat x < 256 ^ n \<longrightarrow> significant_bytes x \<le> n)"
proof -
  have "unat x < 256 ^ 32" using unsigned_less [of x, where 'a = nat] by simp
  then have "List.find (\<lambda>n. unat x < 256 ^ n) [0..<33] \<noteq> None"
    by (auto simp: find_None_iff simp del: power_numeral intro!: exI [of _ 32])
  then obtain n where n: "List.find (\<lambda>n. unat x < 256 ^ n) [0..<33] = Some n"
    by blast
  then have "unat x < 256 ^ n \<and> (\<forall>j < n. \<not> unat x < 256 ^ j)"
    by (auto simp: find_Some_iff)
  then show ?thesis using n by (auto simp: significant_bytes_def not_less [symmetric])
qed

interpretation reference_host: intx_library "host_platform (reference_library keccak256 mem stk) vm n"
  for keccak256 mem stk vm n
  by unfold_locales
    (use significant_bytes_least in
      \<open>auto simp: host_platform_def host_interface_def reference_library_def\<close>)

section \<open>Net gas metering\<close>

text \<open>
  A sequence of writes to one storage slot, with the cost and the refund that the interpreter
  books for each of them (\<open>sstore_costs\<close> at the status that the host returns).
\<close>

fun write_all :: "revision \<Rightarrow> address \<Rightarrow> uint256 \<Rightarrow> uint256 list \<Rightarrow> Host \<Rightarrow> (int \<times> Host) option" where
  "write_all r a k [] H = Some (0, H)"
| "write_all r a k (v # vs) H = do {
     (st, H) \<leftarrow> Host_set_storage H a k v;
     (net, H) \<leftarrow> write_all r a k vs H;
     let (cost, refund) = sstore_costs r st;
     Some (cost - refund + net, H) }"

text \<open>What a slot costs by its original and its final value, beyond the 100 gas of every write.\<close>

definition slot_price :: "uint256 \<Rightarrow> uint256 \<Rightarrow> int" where
  "slot_price original current =
     (if current = original then 0
      else if original = 0 then 19900
      else if current = 0 then - 2000
      else 2800)"

lemma net_cost_step:
  "fst (sstore_costs r (update_status ori cur v)) - snd (sstore_costs r (update_status ori cur v)) =
     100 + slot_price ori v - slot_price ori cur"
  by (simp add: sstore_costs_eq update_status_def slot_price_def)

lemma slot_set_slot [simp]: "slot k (set_slot k v acc) = v"
  by (simp add: slot_def set_slot_def)

lemma write_all_net:
  assumes "m_state H a = Some acc"
  shows "\<exists>H' acc'. write_all r a k vs H = Some (100 * int (length vs)
      + slot_price (sv_original (slot k acc)) (last (sv_current (slot k acc) # vs))
      - slot_price (sv_original (slot k acc)) (sv_current (slot k acc)), H') \<and>
    m_state H' a = Some acc' \<and> sv_current (slot k acc') = last (sv_current (slot k acc) # vs)"
  using assms
proof (induction vs arbitrary: H acc)
  case Nil
  then show ?case by simp
next
  case (Cons v vs)
  let ?st = "update_status (sv_original (slot k acc)) (sv_current (slot k acc)) v"
  let ?acc = "set_slot k ((slot k acc)\<lparr>sv_current := v\<rparr>) acc"
  let ?H = "H\<lparr>m_state := (m_state H)(a \<mapsto> ?acc)\<rparr>"
  have w: "Host_set_storage H a k v = Some (?st, ?H)"
    using Cons.prems by (simp add: Host_set_storage_def state_get_def state_find_def Let_def)
  show ?case
    using Cons.IH [of ?H ?acc] net_cost_step [of r "sv_original (slot k acc)" "sv_current (slot k acc)" v]
    by (auto simp: w Let_def split: prod.split)
qed

end

