(* ===== verification/Zvm_Ledger.thy ===== *)
theory Zvm_Ledger
  imports Zvm_Host_Laws
begin

text \<open>
  An abstract description of what a message can do to the world, and the proof that
  \<open>Host::call\<close> with the Baseline interpreter refines it.  A ledger changes in elementary
  steps: a log entry, a storage write, a nonce increment, a payment, a new contract, the code
  of a contract; access statuses, touched empty accounts and the cache are not observable.  A
  failed message takes its steps back.  A static message makes no observable step.
\<close>

section \<open>Observations\<close>

definition same_account :: "Account \<Rightarrow> Account \<Rightarrow> bool" where
  "same_account x y \<longleftrightarrow> nonce y = nonce x \<and> balance y = balance x \<and> acc_code y = acc_code x \<and>
     destructed y = destructed x \<and>
     (\<forall>k. sv_current (slot k y) = sv_current (slot k x) \<and> sv_original (slot k y) = sv_original (slot k x))"

definition env_kept :: "Host \<Rightarrow> Host \<Rightarrow> bool" where
  "env_kept H H' \<longleftrightarrow> m_rev H' = m_rev H \<and> m_block H' = m_block H \<and> m_transaction H' = m_transaction H \<and>
     out_of_depth H' = out_of_depth H"

definition same_state :: "State \<Rightarrow> State \<Rightarrow> bool" where
  "same_state S S' \<longleftrightarrow> dom S \<subseteq> dom S' \<and> finite (dom S' - dom S) \<and>
     (\<forall>a. same_account (account_or_empty S a) (account_or_empty S' a))"

definition quiet :: "Host \<Rightarrow> Host \<Rightarrow> bool" where
  "quiet H H' \<longleftrightarrow> same_state (m_state H) (m_state H') \<and> m_logs H' = m_logs H \<and> env_kept H H'"

lemma same_account_refl [simp]: "same_account x x"
  by (simp add: same_account_def)

lemma same_account_trans: "same_account x y \<Longrightarrow> same_account y z \<Longrightarrow> same_account x z"
  by (simp add: same_account_def)

lemma env_kept_refl [simp]: "env_kept H H"
  by (simp add: env_kept_def)

lemma env_kept_trans: "env_kept H H1 \<Longrightarrow> env_kept H1 H2 \<Longrightarrow> env_kept H H2"
  by (simp add: env_kept_def)

lemma same_state_refl [simp]: "same_state S S"
  by (simp add: same_state_def)

lemma same_state_trans:
  assumes "same_state S T" "same_state T U"
  shows "same_state S U"
proof -
  have "dom U - dom S \<subseteq> (dom U - dom T) \<union> (dom T - dom S)" by blast
  then have "finite (dom U - dom S)" using assms
    by (auto simp: same_state_def intro: finite_subset)
  moreover have "same_account (account_or_empty S a) (account_or_empty U a)" for a
    using assms same_account_trans unfolding same_state_def by blast
  ultimately show ?thesis using assms unfolding same_state_def by blast
qed

lemma same_state_upd:
  "same_account (account_or_empty S a) acc \<Longrightarrow> same_state S (S(a \<mapsto> acc))"
  by (auto simp: same_state_def account_or_empty_def Diff_insert
      intro: finite_subset [of _ "{a}"])

lemma account_or_empty_Some [simp]: "S a = Some acc \<Longrightarrow> account_or_empty S a = acc"
  by (simp add: account_or_empty_def)

section \<open>Steps\<close>

inductive ledger :: "bool \<Rightarrow> Host \<Rightarrow> int \<Rightarrow> Host \<Rightarrow> bool" for static :: bool where
  none [simp, intro]: "ledger static H 0 H"
| unobserved: "ledger static H n H' \<Longrightarrow> quiet H' H'' \<Longrightarrow> ledger static H n H''"
| log: "ledger static H n H' \<Longrightarrow> \<not> static \<Longrightarrow> ledger static H n (Host_emit_log H' a d ts)"
| assign: "ledger static H n H' \<Longrightarrow> \<not> static \<Longrightarrow> Host_set_storage H' a k v = Some (st, H'')
    \<Longrightarrow> ledger static H (n + snd (sstore_costs r st)) H''"
| increment: "ledger static H n H' \<Longrightarrow> \<not> static \<Longrightarrow> m_state H' a = Some acc \<Longrightarrow> nonce acc \<noteq> NonceMax
    \<Longrightarrow> ledger static H n (H'\<lparr>m_state := (m_state H')(a \<mapsto> acc\<lparr>nonce := nonce acc + 1\<rparr>)\<rparr>)"
| pay: "ledger static H n H' \<Longrightarrow> \<not> static \<Longrightarrow> transfer a b v (m_state H') = Some S
    \<Longrightarrow> ledger static H n (H'\<lparr>m_state := S\<rparr>)"
| contract: "ledger static H n H' \<Longrightarrow> \<not> static \<Longrightarrow> m_state H' a = Some acc \<Longrightarrow> nonce acc = 0
    \<Longrightarrow> ledger static H n (H'\<lparr>m_state := (m_state H')(a \<mapsto> clear_storage (acc\<lparr>nonce := 1\<rparr>))\<rparr>)"
| code: "ledger static H n H' \<Longrightarrow> \<not> static \<Longrightarrow> m_state H' a = Some acc
    \<Longrightarrow> ledger static H n (H'\<lparr>m_state := (m_state H')(a \<mapsto> acc\<lparr>acc_code := c\<rparr>)\<rparr>)"
| revert: "ledger static H n H1 \<Longrightarrow> ledger static H1 k H2
    \<Longrightarrow> ledger static H n (H2\<lparr>m_state := m_state H1, m_logs := m_logs H1\<rparr>)"

lemma ledger_trans:
  assumes "ledger s H2 k H3" and "ledger s H1 n H2"
  shows "ledger s H1 (n + k) H3"
  using assms
  by (induction rule: ledger.induct) (auto simp: add.assoc [symmetric] intro: ledger.intros)

lemma ledger_trans0:
  assumes "ledger s H2 0 H3" and "ledger s H1 n H2"
  shows "ledger s H1 n H3"
  using ledger_trans [OF assms] by simp

lemma ledger_weaken:
  assumes "ledger s H n H'" and "t \<longrightarrow> s"
  shows "ledger t H n H'"
  using assms by (induction rule: ledger.induct) (blast intro: ledger.intros)+

lemma ledger_quiet: "quiet H H' \<Longrightarrow> ledger s H 0 H'"
  by (blast intro: ledger.intros)

lemma transfer_frame:
  "transfer a b v S = Some S' \<Longrightarrow> dom S' = dom S"
  by (auto simp: transfer_def Let_def state_get_def state_find_def split: if_splits bind_splits)

text \<open>The log and the environment.\<close>

lemma ledger_logs:
  assumes "ledger s H n H'"
  shows "\<exists>xs. m_logs H' = m_logs H @ xs"
  using assms
  by (induction rule: ledger.induct)
     (auto simp: quiet_def Host_emit_log_def Host_set_storage_def Let_def split: bind_splits)

lemma ledger_env:
  assumes "ledger s H n H'"
  shows "env_kept H H'"
  using assms
  by (induction rule: ledger.induct)
     (auto simp: quiet_def Host_emit_log_def Host_set_storage_def Let_def env_kept_def split: bind_splits)

section \<open>The methods of the host\<close>

lemma access_account_quiet:
  assumes "Host_access_account H a = Some (s, H')"
  shows "quiet H H'"
  using assms
  by (auto simp: Host_access_account_def state_get_or_insert_eq Let_def quiet_def env_kept_def
      same_account_def account_or_empty_def empty_account_def slot_def
      split: option.splits if_splits intro!: same_state_upd)

lemma access_storage_quiet:
  assumes "Host_access_storage H a k = Some (s, H')"
  shows "quiet H H'"
  using assms
  by (auto simp: Host_access_storage_def Let_def quiet_def env_kept_def state_get_def state_find_def
      same_account_def account_or_empty_def slot_def set_slot_def empty_slot_def
      split: option.splits bind_splits intro!: same_state_upd)

lemma touch_quiet:
  assumes "state_touch a (m_state H) = Some S"
  shows "quiet H (H\<lparr>m_state := S\<rparr>)"
  using assms
  by (auto simp: state_touch_eq quiet_def env_kept_def same_account_def slot_def intro!: same_state_upd)

lemma transfer_nothing:
  assumes "transfer a b 0 S = Some S'"
  shows "same_state S S'"
  using assms
  by (auto simp: transfer_def Let_def state_get_def state_find_def map_upd_triv
      split: if_splits bind_splits)

text \<open>A call to the abstract world: which messages a static execution may send.\<close>

definition static_ok :: "message \<Rightarrow> bool" where
  "static_ok m \<longleftrightarrow> (is_static m \<longrightarrow>
     depth m \<noteq> 0 \<and> \<not> creates m \<and> (kind m = ZVMC_CALL \<longrightarrow> msg_value m = 0))"

lemma transfer_ledger:
  assumes "transfer a b v (m_state H) = Some S" and "static \<longrightarrow> v = 0"
  shows "ledger static H 0 (H\<lparr>m_state := S\<rparr>)"
proof (cases static)
  case True
  then show ?thesis using assms transfer_nothing [of a b "m_state H" S]
    by (auto simp: quiet_def env_kept_def intro: ledger_quiet)
next
  case False
  then show ?thesis using assms(1) by (blast intro: ledger.intros)
qed

lemma prepare_ledger:
  assumes p: "prepare_message k m H = Some (r, H')" and m: "static_ok m"
  shows "ledger (is_static m) H 0 H'"
proof -
  let ?bump = "depth m = 0 \<or> creates m"
  obtain acc where acc: "m_state H (sender m) = Some acc"
    using p by (auto simp: prepare_message_def state_get_def state_find_def split: bind_splits)
  define H1 where "H1 = (if ?bump
    then H\<lparr>m_state := (m_state H)(sender m \<mapsto> acc\<lparr>nonce := nonce acc + 1\<rparr>)\<rparr> else H)"
  show ?thesis
  proof (cases "?bump \<and> nonce acc = NonceMax")
    case True
    then show ?thesis using p acc
      by (simp add: prepare_message_def state_get_def state_find_def)
  next
    case False
    then have "ledger (is_static m) H 0 H1"
      using acc m by (auto simp: H1_def static_ok_def intro!: increment)
    moreover have "quiet H1 H' \<or> H' = H1"
      using p acc False
      by (auto simp: prepare_message_def state_get_def state_find_def H1_def Let_def
          split: bind_splits if_splits dest: access_account_quiet)
    ultimately show ?thesis by (auto intro: unobserved)
  qed
qed

text \<open>
  A result accounts for the steps: the refund of a successful message is what its steps
  earned, a failed message has no refund.
\<close>

definition accounted :: "bool \<Rightarrow> Host \<Rightarrow> zvmc_result \<Rightarrow> Host \<Rightarrow> bool" where
  "accounted static H res H' \<longleftrightarrow>
     (if res_status res = ZVMC_SUCCESS then ledger static H (res_gas_refund res) H'
      else res_gas_refund res = 0 \<and> (\<exists>n. ledger static H n H'))"

lemma accounted_ledger: "accounted s H res H' \<Longrightarrow> \<exists>n. ledger s H n H'"
  by (auto simp: accounted_def split: if_splits)

lemma accounted_trans: "ledger s H1 0 H2 \<Longrightarrow> accounted s H2 res H3 \<Longrightarrow> accounted s H1 res H3"
  using ledger_trans [of s H2 _ H3 H1 0] by (auto simp: accounted_def split: if_splits)

lemma accounted_failure: "ledger s H n H' \<Longrightarrow> res_status res \<noteq> ZVMC_SUCCESS \<Longrightarrow> res_gas_refund res = 0 \<Longrightarrow>
    accounted s H res H'"
  by (auto simp: accounted_def)

text \<open>What is required of the VM that runs the code of a message.\<close>

definition refines_ledger :: "int \<Rightarrow> vm_runner \<Rightarrow> bool" where
  "refines_ledger d run \<longleftrightarrow> (\<forall>m c H res H'. 0 \<le> gas m \<longrightarrow> depth m = d \<longrightarrow> run m c H = Some (res, H') \<longrightarrow>
     accounted (is_static m) H res H')"

lemma refines_ledgerD:
  "refines_ledger (depth m) run \<Longrightarrow> 0 \<le> gas m \<Longrightarrow> run m c H = Some (res, H') \<Longrightarrow>
   accounted (is_static m) H res H'"
  unfolding refines_ledger_def by blast

lemma new_contract_ledger:
  assumes "new_contract m (m_state H) = Some S"
  shows "ledger False H 0 (H\<lparr>m_state := S\<rparr>)"
proof -
  obtain acc S1 where i: "state_get_or_insert (recipient m) empty_account (m_state H) = Some (acc, S1)"
    and n: "nonce acc = 0"
    and tr: "transfer (sender m) (recipient m) (msg_value m)
       (S1(recipient m \<mapsto> clear_storage (acc\<lparr>nonce := 1\<rparr>))) = Some S"
    using assms by (auto simp: new_contract_def split: bind_splits if_splits)
  have q: "quiet H (H\<lparr>m_state := S1\<rparr>)" and acc: "S1 (recipient m) = Some acc"
    using i by (auto simp: state_get_or_insert_eq quiet_def env_kept_def account_or_empty_def
        split: option.splits intro!: same_state_upd)
  have "ledger False H 0 (H\<lparr>m_state := S1(recipient m \<mapsto> clear_storage (acc\<lparr>nonce := 1\<rparr>))\<rparr>)"
    using contract [OF ledger_quiet [OF q, of False], where a = "recipient m" and acc = acc] acc n by simp
  from pay [OF this] tr show ?thesis by simp
qed

lemma deploy_ledger:
  assumes "deploy_code m r H = Some (res, H')" and "accounted False H0 r H" and "res_status r = ZVMC_SUCCESS"
  shows "accounted False H0 res H'"
  using assms
  by (auto simp: deploy_code_def Let_def state_get_def state_find_def make_result_def accounted_def
      split: if_splits bind_splits intro: code)

lemma Host_create_ledger:
  assumes run: "refines_ledger (depth m) run" and g: "0 \<le> gas m" and m: "\<not> is_static m"
    and c: "Host_create run m H = Some (res, H')"
  shows "accounted False H res H'"
proof (cases "Host_create run m H = Some (make_result ZVMC_FAILURE 0 0 [], H)")
  case True
  then show ?thesis using c by (auto simp: accounted_def make_result_def)
next
  case False
  then obtain S r H2 where S: "new_contract m (m_state H) = Some S"
    and r: "run (m\<lparr>input_data := []\<rparr>) (input_data m) (H\<lparr>m_state := S\<rparr>) = Some (r, H2)"
    and e: "if res_status r \<noteq> ZVMC_SUCCESS then H' = H2 \<and> res = r\<lparr>create_address := recipient m\<rparr>
      else deploy_code m r H2 = Some (res, H')"
    using c by (auto simp: Host_create_def split: if_splits bind_splits)
  have "accounted False (H\<lparr>m_state := S\<rparr>) r H2"
    using refines_ledgerD [of "m\<lparr>input_data := []\<rparr>" run] run g r m by (simp add: is_static_def)
  then have a: "accounted False H r H2" by (rule accounted_trans [OF new_contract_ledger [OF S]])
  show ?thesis
  proof (cases "res_status r = ZVMC_SUCCESS")
    case True
    then show ?thesis using deploy_ledger [OF _ a True] e by simp
  next
    case False
    then show ?thesis using a e by (auto simp: accounted_def)
  qed
qed

lemma enter_call_ledger:
  assumes "enter_call m H = Some H1" and m: "static_ok m"
  shows "ledger (is_static m) H 0 H1"
proof (cases "kind m = ZVMC_CALL")
  case True
  then obtain S1 S2 where S: "state_touch (recipient m) (m_state H) = Some S1"
    "transfer (sender m) (recipient m) (msg_value m) S1 = Some S2" "H1 = H\<lparr>m_state := S2\<rparr>"
    using assms by (auto simp: enter_call_def split: bind_splits)
  have "is_static m \<longrightarrow> msg_value m = 0" using m True by (simp add: static_ok_def)
  then have "ledger (is_static m) (H\<lparr>m_state := S1\<rparr>) 0 H1"
    using transfer_ledger [of "sender m" "recipient m" "msg_value m" "H\<lparr>m_state := S1\<rparr>" S2] S by simp
  then show ?thesis by (rule ledger_trans0) (rule ledger_quiet [OF touch_quiet [OF S(1)]])
next
  case False
  then show ?thesis using assms by (simp add: enter_call_def)
qed

lemma prepare_message_keeps:
  "prepare_message k m H = Some (Some m', H') \<Longrightarrow>
     gas m' = gas m \<and> depth m' = depth m \<and> is_static m' = is_static m \<and> kind m' = kind m \<and>
     msg_value m' = msg_value m"
  by (auto simp: prepare_message_def Let_def is_static_def split: if_splits bind_splits)

context precompiled_contracts
begin

lemma execute_message_ledger:
  assumes run: "refines_ledger (depth m) run" and g: "0 \<le> gas m" and m: "static_ok m"
    and c: "execute_message precompile run m H = Some (res, H')"
  shows "accounted (is_static m) H res H'"
proof (cases "creates m")
  case True
  then show ?thesis using Host_create_ledger [OF run g] c m
    by (auto simp: execute_message_def static_ok_def)
next
  case False
  then obtain H1 where H1: "enter_call m H = Some H1"
    using c by (auto simp: execute_message_def split: if_splits bind_splits)
  obtain pr cache where pr: "precompile (m_rev H1) m (m_cache H1) = Some (pr, cache)"
    using c H1 False by (auto simp: execute_message_def Let_def split: if_splits bind_splits)
  let ?H = "H1\<lparr>m_cache := cache\<rparr>"
  have H': "pr = Some res \<and> H' = ?H \<or> (\<exists>c. run m c ?H = Some (res, H'))"
    using c H1 pr False by (auto simp: execute_message_def Let_def split: if_splits option.splits)
  have "quiet H1 ?H" by (simp add: quiet_def env_kept_def)
  with enter_call_ledger [OF H1 m] have l: "ledger (is_static m) H 0 ?H" by (rule unobserved)
  show ?thesis using H'
  proof (elim disjE conjE exE)
    assume "pr = Some res" "H' = ?H"
    then show ?thesis using l precompile_refund [of "m_rev H1" m "m_cache H1" res cache] pr g
      by (auto simp: accounted_def)
  next
    fix c assume "run m c ?H = Some (res, H')"
    then show ?thesis using accounted_trans [OF l] refines_ledgerD [OF run g] by blast
  qed
qed

lemma Host_call_parts:
  assumes c: "Host_call k precompile run H m = Some (res, H')" and p: "prepare_message k m H = Some (Some m1, H1)"
  shows "\<exists>H2. execute_message precompile run m1 H1 = Some (res, H2) \<and>
    (if res_status res = ZVMC_SUCCESS then H' = H2
     else let H3 = H2\<lparr>m_state := m_state H1, m_logs := resize_logs (length (m_logs H1)) (m_logs H2)\<rparr> in
        H' = H3 \<or> (\<exists>S. state_touch 3 (m_state H3) = Some S \<and> H' = H3\<lparr>m_state := S\<rparr>))"
  using c p by (auto simp: Host_call_def Let_def split: bind_splits if_splits)

lemma Host_call_prepared:
  assumes run: "refines_ledger (depth m) run" and g: "0 \<le> gas m" and m: "static_ok m"
    and c: "Host_call k precompile run H m = Some (res, H')"
  shows "\<exists>p H1. prepare_message k m H = Some (p, H1) \<and> ledger (is_static m) H1 (res_gas_refund res) H' \<and>
    (res_status res \<noteq> ZVMC_SUCCESS \<longrightarrow> quiet H1 H')"
proof -
  obtain p H1 where p: "prepare_message k m H = Some (p, H1)"
    using c by (auto simp: Host_call_def split: bind_splits)
  have "ledger (is_static m) H1 (res_gas_refund res) H' \<and> (res_status res \<noteq> ZVMC_SUCCESS \<longrightarrow> quiet H1 H')"
  proof (cases p)
    case None
    then show ?thesis using c p by (auto simp: Host_call_def make_result_def quiet_def)
  next
    case (Some m1)
    then have k: "gas m1 = gas m" "depth m1 = depth m" "is_static m1 = is_static m" "static_ok m1"
      using p prepare_message_keeps [of k m H m1 H1] m by (auto simp: static_ok_def)
    obtain H2 where e: "execute_message precompile run m1 H1 = Some (res, H2)"
      and r: "if res_status res = ZVMC_SUCCESS then H' = H2
        else let H3 = H2\<lparr>m_state := m_state H1, m_logs := resize_logs (length (m_logs H1)) (m_logs H2)\<rparr> in
          H' = H3 \<or> (\<exists>S. state_touch 3 (m_state H3) = Some S \<and> H' = H3\<lparr>m_state := S\<rparr>)"
      using Host_call_parts [OF c p [unfolded Some]] by blast
    have a: "accounted (is_static m) H1 res H2"
      using execute_message_ledger [OF _ _ _ e] run g k by simp
    then obtain n where l2: "ledger (is_static m) H1 n H2" using accounted_ledger by blast
    have logs: "resize_logs (length (m_logs H1)) (m_logs H2) = m_logs H1"
      using ledger_logs [OF l2] by (auto simp: resize_logs_def)
    have "quiet H1 H'" if "res_status res \<noteq> ZVMC_SUCCESS"
      using that r ledger_env [OF l2] touch_quiet [of 3 "H2\<lparr>m_state := m_state H1, m_logs := m_logs H1\<rparr>"]
      by (auto simp: logs Let_def quiet_def env_kept_def)
    then show ?thesis using r a by (auto simp: accounted_def split: if_splits intro: ledger_quiet)
  qed
  then show ?thesis using p by blast
qed

lemma Host_call_ledger:
  assumes run: "refines_ledger (depth m) run" and g: "0 \<le> gas m" and m: "static_ok m"
    and c: "Host_call k precompile run H m = Some (res, H')"
  shows "ledger (is_static m) H (res_gas_refund res) H'"
  using Host_call_prepared [OF assms] ledger_trans [OF _ prepare_ledger [OF _ m]] by fastforce

end

section \<open>The VM\<close>

text \<open>
  The effects of an execution on the running process are steps of the ledger, when the
  calls that it makes are.
\<close>

definition calls_refine :: "message \<Rightarrow> (Host \<Rightarrow> message \<Rightarrow> (zvmc_result \<times> Host) option) \<Rightarrow> bool" where
  "calls_refine m call \<longleftrightarrow> (\<forall>c H res H'. depth m < 1024 \<longrightarrow> depth c = depth m + 1 \<longrightarrow> 0 \<le> gas c \<longrightarrow>
     static_ok c \<longrightarrow> call H c = Some (res, H') \<longrightarrow> ledger (is_static c) H (res_gas_refund res) H')"

lemma host_method_Some:
  "snd (host_method x f p) = Some H' \<longleftrightarrow> (\<exists>H r. p = Some H \<and> f H = Some (r, H'))"
  by (auto simp: host_method_def split: option.splits bind_splits)

lemma call_allowed_static:
  assumes "call_allowed P m p c" and "0 \<le> depth m"
  shows "static_ok c" and "is_static m \<longrightarrow> is_static c"
proof -
  have s: "flags c = flags m \<Longrightarrow> is_static c = is_static m" "flags c = ZVMC_STATIC \<Longrightarrow> is_static c"
    "flags c = 0 \<Longrightarrow> \<not> is_static c"
    by (simp_all add: is_static_def ZVMC_STATIC_def)
  show "static_ok c" "is_static m \<longrightarrow> is_static c"
    using assms s by (auto simp: call_allowed_def static_ok_def split: call_kind.splits)
qed

lemma host_method_step:
  "snd (host_method x f p) = Some H' \<Longrightarrow> \<exists>H r. p = Some H \<and> f H = Some (r, H') \<and> fst (host_method x f p) = r"
  by (auto simp: host_method_def split: option.splits bind_splits)

lemma effects_ledger:
  assumes e: "vm_effects (host_interface L call) m (Some H) n p"
    and calls: "calls_refine m call" and d: "0 \<le> depth m"
  shows "p = Some H' \<Longrightarrow> ledger (is_static m) H n H'"
  using e
proof (induction arbitrary: H' rule: vm_effects.induct)
  case eff_refl
  then show ?case by simp
next
  case (eff_account n p a)
  then show ?case
    by (auto simp: host_interface_def host_method_Some intro: unobserved access_account_quiet)
next
  case (eff_access_storage n p k)
  then show ?case
    by (auto simp: host_interface_def host_method_Some intro: unobserved access_storage_quiet)
next
  case (eff_set_storage n p r k v)
  then obtain H1 st where "p = Some H1" "Host_set_storage H1 (recipient m) k v = Some (st, H')"
    "fst (host_set_storage (host_interface L call) p (recipient m) k v) = st"
    using host_method_step [of ZVMC_STORAGE_ASSIGNED "\<lambda>H. Host_set_storage H (recipient m) k v" p H']
    by (auto simp: host_interface_def)
  then show ?case using eff_set_storage.IH eff_set_storage.hyps(2) assign by simp
next
  case (eff_log n p d ts)
  then show ?case by (auto simp: host_interface_def intro: log)
next
  case (eff_call n p c)
  then obtain H1 r where H1: "p = Some H1" "call H1 c = Some (r, H')"
    "fst (host_call (host_interface L call) p c) = r"
    using host_method_step [of stopped_result "\<lambda>H. call H c" p H'] by (auto simp: host_interface_def)
  have "ledger (is_static c) H1 (res_gas_refund r) H'"
    using calls H1(2) eff_call.hyps(2) call_allowed_static(1) [OF eff_call.hyps(2) d]
    unfolding calls_refine_def call_allowed_def by blast
  then have "ledger (is_static m) H1 (res_gas_refund r) H'"
    using ledger_weaken call_allowed_static(2) [OF eff_call.hyps(2) d] by blast
  then show ?case using ledger_trans eff_call.IH [OF H1(1)] H1(3) by blast
qed

lemma run_vm_ledger:
  assumes P: "zvmc_host (host_interface L call)" and vm: "vm_execute_ptr vm = Baseline_execute"
    and calls: "\<And>m. depth m = d \<Longrightarrow> calls_refine m call" and d: "0 \<le> d"
  shows "refines_ledger d (run_vm (host_interface L call) vm)"
proof -
  have "accounted (is_static m) H res H'"
    if g: "0 \<le> gas m" "depth m = d" and r: "run_vm (host_interface L call) vm m c H = Some (res, H')"
    for m c H res H'
  proof -
    obtain ns where "vm_execute (host_interface L call) vm (Some H) (m_rev H) m c = Some ((res, Some H'), ns)"
      using r by (auto simp: run_vm_def split: bind_splits)
    then have "execute (host_interface L call) False (Some H) (m_rev H) m c = Some (res, Some H')"
      using vm_execute_baseline [OF vm, of "host_interface L call" "Some H" "m_rev H" m c] by simp
    then have "earns (host_interface L call) (res_status res = ZVMC_SUCCESS) m (Some H) 0 (Some H') (res_gas_refund res)"
      and z: "res_status res \<noteq> ZVMC_SUCCESS \<longrightarrow> res_gas_refund res = 0"
      using zvmc_host.execute_returns [OF P g(1), of False "Some H" "m_rev H" c] by (auto simp: vm_ok_def)
    then obtain n where n: "vm_effects (host_interface L call) m (Some H) n (Some H')"
      and b: "res_status res = ZVMC_SUCCESS \<longrightarrow> res_gas_refund res = 0 + n"
      unfolding earns_def by blast
    have "ledger (is_static m) H n H'" using effects_ledger [OF n calls [OF g(2)]] d g(2) by simp
    then show ?thesis using b z by (auto simp: accounted_def)
  qed
  then show ?thesis by (auto simp: refines_ledger_def)
qed

context precompiled_contracts
begin

text \<open>
  The refinement.  The bound on \<open>n\<close> says that the model has enough levels of nested calls
  for the depth that is left.
\<close>

theorem calls_ledger:
  assumes vm: "vm_execute_ptr vm = Baseline_execute"
  shows "host_calls_with precompile L vm n H m = Some (res, H') \<Longrightarrow> 0 \<le> gas m \<Longrightarrow> 0 \<le> depth m \<Longrightarrow> depth m \<le> 1024 \<Longrightarrow>
    1025 \<le> int n + depth m \<Longrightarrow> static_ok m \<Longrightarrow> ledger (is_static m) H (res_gas_refund res) H'"
proof (induction n arbitrary: H m res H')
  case 0
  then show ?case by simp
next
  case (Suc n)
  have "calls_refine m1 (host_calls_with precompile L vm n)" if "depth m1 = depth m" for m1
    unfolding calls_refine_def using Suc.IH Suc.prems(3,5) that by auto
  then have "refines_ledger (depth m) (run_vm (host_interface L (host_calls_with precompile L vm n)) vm)"
    using run_vm_ledger [OF platform_laws [OF vm, of L n] vm] Suc.prems(3) by blast
  then show ?case using Host_call_ledger Suc.prems(1,2,6) by simp
qed

end

lemma host_calls_ledger:
  "vm_execute_ptr vm = Baseline_execute \<Longrightarrow> host_calls L vm n H m = Some (res, H') \<Longrightarrow> 0 \<le> gas m \<Longrightarrow>
   0 \<le> depth m \<Longrightarrow> depth m \<le> 1024 \<Longrightarrow> 1025 \<le> int n + depth m \<Longrightarrow> static_ok m \<Longrightarrow>
   ledger (is_static m) H (res_gas_refund res) H'"
  unfolding host_calls_def by (rule evm_precompiles.calls_ledger)

section \<open>What the ledger keeps\<close>

lemma clear_storage_simps [simp]:
  "nonce (clear_storage acc) = nonce acc"
  "balance (clear_storage acc) = balance acc"
  "acc_code (clear_storage acc) = acc_code acc"
  by (simp_all add: clear_storage_def)

lemma set_slot_simps [simp]:
  "nonce (set_slot k v acc) = nonce acc"
  "balance (set_slot k v acc) = balance acc"
  "acc_code (set_slot k v acc) = acc_code acc"
  by (simp_all add: set_slot_def)

lemma set_storage_state:
  "Host_set_storage H a k v = Some (st, H') \<Longrightarrow>
   \<exists>acc acc'. m_state H a = Some acc \<and> m_state H' = (m_state H)(a \<mapsto> acc') \<and>
     nonce acc' = nonce acc \<and> balance acc' = balance acc"
  by (auto simp: Host_set_storage_def Let_def state_get_def state_find_def split: bind_splits)

text \<open>No account disappears, and no nonce gets smaller.\<close>

definition nonces_grow :: "State \<Rightarrow> State \<Rightarrow> bool" where
  "nonces_grow S S' \<longleftrightarrow> dom S \<subseteq> dom S' \<and>
     (\<forall>a. nonce (account_or_empty S a) \<le> nonce (account_or_empty S' a))"

lemma nonces_grow_trans: "nonces_grow S T \<Longrightarrow> nonces_grow T U \<Longrightarrow> nonces_grow S U"
  unfolding nonces_grow_def by (blast intro: order_trans)

lemma nonces_grow_upd:
  "S a = Some acc \<Longrightarrow> nonce acc \<le> nonce acc' \<Longrightarrow> nonces_grow S (S(a \<mapsto> acc'))"
  by (auto simp: nonces_grow_def account_or_empty_def)

lemma nonce_increment:
  assumes "n \<noteq> NonceMax"
  shows "n \<le> n + 1"
proof -
  have "1 + n \<noteq> 0" using assms by (auto simp: NonceMax_def add_eq_0_iff)
  then show ?thesis by (simp add: word_le_nat_alt unatSuc add.commute)
qed

lemma nonces_grow_quiet: "same_state S S' \<Longrightarrow> nonces_grow S S'"
  by (simp add: same_state_def nonces_grow_def same_account_def)

lemma nonces_grow_transfer:
  assumes "transfer a b v S = Some S'"
  shows "nonces_grow S S'"
proof -
  obtain x y where x: "S a = Some x" and y: "(S(a \<mapsto> x\<lparr>balance := balance x - v\<rparr>)) b = Some y"
    and S': "S' = S(a \<mapsto> x\<lparr>balance := balance x - v\<rparr>, b \<mapsto> y\<lparr>balance := balance y + v\<rparr>)"
    using assms by (auto simp: transfer_def Let_def state_get_def state_find_def
        split: if_splits bind_splits)
  have "nonces_grow S (S(a \<mapsto> x\<lparr>balance := balance x - v\<rparr>))" using x by (simp add: nonces_grow_upd)
  moreover have "nonces_grow (S(a \<mapsto> x\<lparr>balance := balance x - v\<rparr>)) S'"
    unfolding S' using y by (rule nonces_grow_upd) simp
  ultimately show ?thesis by (rule nonces_grow_trans)
qed

lemma nonces_grow_new: "S a = Some acc \<Longrightarrow> nonce acc = 0 \<Longrightarrow> nonces_grow S (S(a \<mapsto> acc'))"
  by (metis nonces_grow_upd word_zero_le)

lemma nonces_grow_step:
  "nonces_grow S T \<Longrightarrow> T a = Some acc \<Longrightarrow> nonce acc \<le> nonce acc' \<Longrightarrow> nonces_grow S (T(a \<mapsto> acc'))"
  by (rule nonces_grow_trans [OF _ nonces_grow_upd])

lemma ledger_nonces:
  assumes "ledger s H n H'"
  shows "nonces_grow (m_state H) (m_state H')"
  using assms
proof (induction rule: ledger.induct)
  case (assign H n H' a k v st H'' r)
  then obtain acc acc' where "m_state H' a = Some acc" "nonce acc' = nonce acc"
    "m_state H'' = (m_state H')(a \<mapsto> acc')" using set_storage_state [OF assign.hyps(3)] by blast
  then show ?case using nonces_grow_trans [OF assign.IH] nonces_grow_upd [of "m_state H'" a acc acc']
    by (simp del: fun_upd_apply)
next
  case (increment H n H' a acc)
  then show ?case
    using nonces_grow_upd [of "m_state H'" a acc "acc\<lparr>nonce := nonce acc + 1\<rparr>"] nonce_increment
    by (auto intro: nonces_grow_trans simp del: fun_upd_apply)
next
  case (contract H n H' a acc)
  then show ?case using nonces_grow_new by (auto intro: nonces_grow_trans simp del: fun_upd_apply)
qed (auto simp: nonces_grow_def [of S S for S] quiet_def Host_emit_log_def simp del: fun_upd_apply
    intro: nonces_grow_trans nonces_grow_step nonces_grow_quiet nonces_grow_transfer)

text \<open>The sum of all balances.\<close>

definition funds_kept :: "State \<Rightarrow> State \<Rightarrow> bool" where
  "funds_kept S S' \<longleftrightarrow>
     (finite (dom S) \<longrightarrow> finite (dom S') \<and> total_balance S' = total_balance S)"

lemma funds_kept_upd:
  "balance acc = balance (account_or_empty S a) \<Longrightarrow> funds_kept S (S(a \<mapsto> acc))"
  by (simp add: funds_kept_def total_balance_upd)

lemma total_balance_eq:
  assumes "finite A" and "dom S \<subseteq> A"
  shows "total_balance S = (\<Sum>a \<in> A. balance (account_or_empty S a))"
proof -
  have "(\<Sum>a \<in> dom S. balance (the (S a))) = (\<Sum>a \<in> dom S. balance (account_or_empty S a))"
    by (rule sum.cong) (auto simp: account_or_empty_def)
  also have "\<dots> = (\<Sum>a \<in> A. balance (account_or_empty S a))"
    using assms by (intro sum.mono_neutral_left) (auto simp: account_or_empty_def empty_account_def split: option.splits)
  finally show ?thesis by (simp add: total_balance_def)
qed

lemma funds_kept_quiet:
  assumes "same_state S S'"
  shows "funds_kept S S'"
proof -
  have "finite (dom S') \<and> total_balance S' = total_balance S" if "finite (dom S)"
  proof -
    have "dom S' = (dom S' - dom S) \<union> dom S" using assms by (auto simp: same_state_def)
    then have fin: "finite (dom S')" using assms that unfolding same_state_def by (metis finite_Un)
    then show ?thesis using assms
      by (simp add: total_balance_eq [OF fin] same_state_def same_account_def)
  qed
  then show ?thesis by (simp add: funds_kept_def)
qed

lemma funds_kept_transfer:
  assumes "transfer a b v S = Some S'"
  shows "funds_kept S S'"
proof -
  obtain x y where x: "S a = Some x" and y: "(S(a \<mapsto> x\<lparr>balance := balance x - v\<rparr>)) b = Some y"
    and S': "S' = S(a \<mapsto> x\<lparr>balance := balance x - v\<rparr>, b \<mapsto> y\<lparr>balance := balance y + v\<rparr>)"
    using assms by (auto simp: transfer_def Let_def state_get_def state_find_def
        split: if_splits bind_splits)
  then show ?thesis
    using x y by (simp add: funds_kept_def total_balance_upd del: fun_upd_apply)
qed

lemma funds_kept_trans: "funds_kept S T \<Longrightarrow> funds_kept T U \<Longrightarrow> funds_kept S U"
  by (simp add: funds_kept_def)

lemma funds_kept_step:
  "funds_kept S T \<Longrightarrow> T a = Some acc \<Longrightarrow> balance acc' = balance acc \<Longrightarrow> funds_kept S (T(a \<mapsto> acc'))"
  by (rule funds_kept_trans [OF _ funds_kept_upd]) simp_all

lemma ledger_funds:
  assumes "ledger s H n H'"
  shows "funds_kept (m_state H) (m_state H')"
  using assms
proof (induction rule: ledger.induct)
  case (assign H n H' a k v st H'' r)
  then obtain acc acc' where "m_state H' a = Some acc" "balance acc' = balance acc"
    "m_state H'' = (m_state H')(a \<mapsto> acc')" using set_storage_state [OF assign.hyps(3)] by blast
  then show ?case using funds_kept_trans [OF assign.IH] funds_kept_upd [of acc' "m_state H'" a]
    by (simp del: fun_upd_apply)
qed (auto simp: quiet_def Host_emit_log_def funds_kept_def [of S S for S] simp del: fun_upd_apply
    intro: funds_kept_trans funds_kept_step funds_kept_quiet funds_kept_transfer)

text \<open>A static message is not observable.\<close>

lemma static_ledger:
  assumes "ledger s H n H'" and "s"
  shows "quiet H H'"
  using assms
proof (induction rule: ledger.induct)
  case (unobserved H n H' H'')
  then show ?case
    by (auto simp: quiet_def intro: same_state_trans env_kept_trans)
next
  case (revert H n H1 k H2)
  then show ?case by (auto simp: quiet_def env_kept_def)
qed (auto simp: quiet_def)

text \<open>A failed message leaves behind only what its preparation did.\<close>

context precompiled_contracts
begin

lemma calls_prepared:
  assumes vm: "vm_execute_ptr vm = Baseline_execute"
    and c: "host_calls_with precompile L vm n H m = Some (res, H')"
    and m: "0 \<le> gas m" "0 \<le> depth m" "depth m \<le> 1024" "1025 \<le> int n + depth m" "static_ok m"
  shows "\<exists>p H1. prepare_message (lib_keccak256 L) m H = Some (p, H1) \<and>
    ledger (is_static m) H1 (res_gas_refund res) H' \<and> (res_status res \<noteq> ZVMC_SUCCESS \<longrightarrow> quiet H1 H')"
proof -
  obtain n' where n: "n = Suc n'" using m by (cases n) auto
  have "calls_refine m1 (host_calls_with precompile L vm n')" if "depth m1 = depth m" for m1
    unfolding calls_refine_def using calls_ledger [OF vm] m that n by auto
  then have "refines_ledger (depth m) (run_vm (host_interface L (host_calls_with precompile L vm n')) vm)"
    using run_vm_ledger [OF platform_laws [OF vm, of L n'] vm] m by auto
  then show ?thesis by (rule Host_call_prepared [OF _ m(1,5)]) (use c n in simp)
qed

lemma calls_failure:
  assumes vm: "vm_execute_ptr vm = Baseline_execute"
    and c: "host_calls_with precompile L vm n H m = Some (res, H')" and f: "res_status res \<noteq> ZVMC_SUCCESS"
    and m: "0 \<le> gas m" "0 < depth m" "depth m \<le> 1024" "1025 \<le> int n + depth m" "static_ok m"
    and k: "\<not> creates m"
  shows "quiet H H'"
proof -
  have d: "0 \<le> depth m" using m(2) by simp
  obtain p H1 where "prepare_message (lib_keccak256 L) m H = Some (p, H1)" "quiet H1 H'"
    using calls_prepared [OF vm c m(1) d m(3-5)] f by blast
  then show ?thesis using m(2) k by (auto simp: prepare_message_def Let_def split: bind_splits if_splits)
qed

end

lemma host_calls_failure:
  "vm_execute_ptr vm = Baseline_execute \<Longrightarrow> host_calls L vm n H m = Some (res, H') \<Longrightarrow>
   res_status res \<noteq> ZVMC_SUCCESS \<Longrightarrow> 0 \<le> gas m \<Longrightarrow> 0 < depth m \<Longrightarrow> depth m \<le> 1024 \<Longrightarrow>
   1025 \<le> int n + depth m \<Longrightarrow> static_ok m \<Longrightarrow> \<not> creates m \<Longrightarrow> quiet H H'"
  unfolding host_calls_def by (rule evm_precompiles.calls_failure)

end
