(* ===== verification/Zvm_Refunds.thy ===== *)
theory Zvm_Refunds
  imports Zvm_Ledger
begin

text \<open>
  Gas refunds and erased accounts.  A single storage write can book a negative refund; over a
  whole message the refunds never become negative when the slots were unchanged before: the
  refunds cover 4800 gas for every slot that is cleared in the end.
\<close>

section \<open>Refunds\<close>

text \<open>The slots that had a value originally and have none now.\<close>

definition cleared :: "State \<Rightarrow> (address \<times> uint256) set" where
  "cleared S = {(a, k). sv_original (slot k (account_or_empty S a)) \<noteq> 0 \<and>
     sv_current (slot k (account_or_empty S a)) = 0}"

lemma cleared_quiet: "same_state S S' \<Longrightarrow> cleared S' = cleared S"
  by (simp add: cleared_def same_state_def same_account_def)

lemma cleared_upd:
  assumes "S a = Some acc" and "storage acc' = storage acc"
  shows "cleared (S(a \<mapsto> acc')) = cleared S"
proof -
  have "slot k acc' = slot k acc" for k using assms(2) by (simp add: slot_def)
  then have "slot k (account_or_empty (S(a \<mapsto> acc')) b) = slot k (account_or_empty S b)" for k b
    using assms(1) by (simp add: account_or_empty_def)
  then show ?thesis by (simp add: cleared_def)
qed

lemma cleared_transfer:
  assumes "transfer a b v S = Some S'"
  shows "cleared S' = cleared S"
proof -
  obtain x y where x: "S a = Some x" and y: "(S(a \<mapsto> x\<lparr>balance := balance x - v\<rparr>)) b = Some y"
    and S': "S' = S(a \<mapsto> x\<lparr>balance := balance x - v\<rparr>, b \<mapsto> y\<lparr>balance := balance y + v\<rparr>)"
    using assms by (auto simp: transfer_def Let_def state_get_def state_find_def
        split: if_splits bind_splits)
  show ?thesis
    unfolding S' using cleared_upd [of "S(a \<mapsto> x\<lparr>balance := balance x - v\<rparr>)" b, OF y] cleared_upd [of S a, OF x] by (simp del: fun_upd_apply)
qed

lemma cleared_contract:
  assumes "S a = Some acc"
  shows "cleared (S(a \<mapsto> clear_storage (acc\<lparr>nonce := 1\<rparr>))) \<subseteq> cleared S"
proof -
  have "sv_original (slot k (clear_storage (acc\<lparr>nonce := 1\<rparr>))) = 0" for k
    by (simp add: slot_def clear_storage_def empty_slot_def split: option.split)
  then show ?thesis using assms by (auto simp: cleared_def account_or_empty_def split: if_splits)
qed

lemma slot_set: "slot j (set_slot k s acc) = (if j = k then s else slot j acc)"
  by (simp add: slot_def set_slot_def)

lemma cleared_assign:
  assumes "Host_set_storage H a k v = Some (st, H')" and fin: "finite (cleared (m_state H))"
  shows "finite (cleared (m_state H')) \<and>
    4800 * (int (card (cleared (m_state H'))) - int (card (cleared (m_state H)))) \<le> snd (sstore_costs r st)"
proof -
  obtain acc where acc: "m_state H a = Some acc"
    using assms(1) by (auto simp: Host_set_storage_def state_get_def state_find_def split: bind_splits)
  let ?s = "slot k acc"
  let ?acc = "set_slot k (?s\<lparr>sv_current := v\<rparr>) acc"
  have st: "st = update_status (sv_original ?s) (sv_current ?s) v" and S': "m_state H' = (m_state H)(a \<mapsto> ?acc)"
    using assms(1) acc by (auto simp: Host_set_storage_def state_get_def state_find_def Let_def)
  have in0: "(a, k) \<in> cleared (m_state H) \<longleftrightarrow> sv_original ?s \<noteq> 0 \<and> sv_current ?s = 0"
    using acc by (simp add: cleared_def)
  have c: "cleared (m_state H') = (if sv_original ?s \<noteq> 0 \<and> v = 0 then insert (a, k) (cleared (m_state H))
      else cleared (m_state H) - {(a, k)})"
    using acc by (auto simp: cleared_def S' account_or_empty_def slot_set split: if_splits)
  have "int (card (cleared (m_state H'))) - int (card (cleared (m_state H))) =
      (if sv_original ?s \<noteq> 0 \<and> v = 0 then 1 else 0) - (if sv_original ?s \<noteq> 0 \<and> sv_current ?s = 0 then 1 else 0)"
    unfolding c using fin in0 card_Suc_Diff1 [OF fin, of "(a, k)"]
    by (auto simp: card_insert_if insert_absorb)
  then show ?thesis
    using fin by (auto simp: c st sstore_costs_eq update_status_def Let_def)
qed

lemma card_fewer: "finite B \<Longrightarrow> A \<subseteq> B \<Longrightarrow> 4800 * (int (card A) - int (card B)) \<le> 0"
  using card_mono by fastforce

theorem ledger_refund:
  assumes "ledger s H n H'"
  shows "finite (cleared (m_state H)) \<Longrightarrow> finite (cleared (m_state H')) \<and>
    4800 * (int (card (cleared (m_state H'))) - int (card (cleared (m_state H)))) \<le> n"
  using assms
proof (induction rule: ledger.induct)
  case (assign H n H' a k v st H'' r)
  then show ?case using cleared_assign [OF assign.hyps(3), of r] by auto
next
  case (contract H n H' a acc)
  then have f: "finite (cleared (m_state H'))" by blast
  show ?case
    using contract.IH [OF contract.prems] card_fewer [OF f cleared_contract [of "m_state H'" a, OF contract.hyps(3)]]
      finite_subset [OF cleared_contract [of "m_state H'" a, OF contract.hyps(3)] f]
    by (simp del: fun_upd_apply)
qed (auto simp: quiet_def Host_emit_log_def cleared_quiet cleared_upd cleared_transfer simp del: fun_upd_apply)

text \<open>Between transactions every slot holds its original value.\<close>

definition fresh_slots :: "State \<Rightarrow> bool" where
  "fresh_slots S \<longleftrightarrow> (\<forall>a acc k v. S a = Some acc \<longrightarrow> storage acc k = Some v \<longrightarrow> sv_current v = sv_original v)"

lemma fresh_cleared: "fresh_slots S \<Longrightarrow> cleared S = {}"
  by (auto simp: fresh_slots_def cleared_def account_or_empty_def slot_def empty_slot_def
      empty_account_def split: option.splits)

lemma ledger_refund_nonneg:
  assumes "ledger s H n H'" and "fresh_slots (m_state H)"
  shows "0 \<le> n"
  using ledger_refund [OF assms(1)] fresh_cleared [OF assms(2)] by simp

section \<open>Erased accounts\<close>

definition none_destructed :: "State \<Rightarrow> bool" where
  "none_destructed S \<longleftrightarrow> (\<forall>a. \<not> destructed (account_or_empty S a))"

lemma none_destructed_upd:
  "none_destructed S \<Longrightarrow> \<not> destructed acc \<Longrightarrow> none_destructed (S(a \<mapsto> acc))"
  by (simp add: none_destructed_def account_or_empty_def)

lemma none_destructedE: "destructed acc \<Longrightarrow> none_destructed S \<Longrightarrow> S a = Some acc \<Longrightarrow> False"
  unfolding none_destructed_def by (metis account_or_empty_Some)

lemma none_destructed_quiet: "same_state S S' \<Longrightarrow> none_destructed S \<Longrightarrow> none_destructed S'"
  by (simp add: none_destructed_def same_state_def same_account_def)

lemma destructed_storage [simp]:
  "destructed (clear_storage acc) = destructed acc" "destructed (set_slot k v acc) = destructed acc"
  by (simp_all add: clear_storage_def set_slot_def)

lemma none_destructed_step:
  "none_destructed S \<Longrightarrow> S a = Some acc \<Longrightarrow> destructed acc' = destructed acc \<Longrightarrow> none_destructed (S(a \<mapsto> acc'))"
  using none_destructedE [of acc S a] by (auto intro: none_destructed_upd simp del: fun_upd_apply)

lemma none_destructed_transfer:
  assumes "transfer a b v S = Some S'" and "none_destructed S"
  shows "none_destructed S'"
proof -
  obtain x y where x: "S a = Some x" and y: "(S(a \<mapsto> x\<lparr>balance := balance x - v\<rparr>)) b = Some y"
    and S': "S' = S(a \<mapsto> x\<lparr>balance := balance x - v\<rparr>, b \<mapsto> y\<lparr>balance := balance y + v\<rparr>)"
    using assms(1) by (auto simp: transfer_def Let_def state_get_def state_find_def
        split: if_splits bind_splits)
  have "none_destructed (S(a \<mapsto> x\<lparr>balance := balance x - v\<rparr>))"
    by (rule none_destructed_step [of S a, OF assms(2) x]) simp
  then show ?thesis unfolding S' by (rule none_destructed_step) (rule y, simp)
qed

lemma ledger_destructed:
  assumes "ledger s H n H'"
  shows "none_destructed (m_state H) \<Longrightarrow> none_destructed (m_state H')"
  using assms
proof (induction rule: ledger.induct)
  case (assign H n H' a k v st H'' r)
  obtain acc where acc: "m_state H' a = Some acc"
    using assign.hyps(3) by (auto simp: Host_set_storage_def state_get_def state_find_def split: bind_splits)
  then have "m_state H'' = (m_state H')(a \<mapsto> set_slot k ((slot k acc)\<lparr>sv_current := v\<rparr>) acc)"
    using assign.hyps(3) by (auto simp: Host_set_storage_def state_get_def state_find_def Let_def)
  then show ?case using none_destructed_step [of "m_state H'" a acc] acc assign by (simp del: fun_upd_apply)
next
  case (increment H n H' a acc)
  then show ?case using none_destructed_step [of "m_state H'" a acc] by (simp del: fun_upd_apply)
next
  case (contract H n H' a acc)
  then show ?case using none_destructed_step [of "m_state H'" a acc] by (simp del: fun_upd_apply)
next
  case (code H n H' a acc c)
  then show ?case using none_destructed_step [of "m_state H'" a acc] by (simp del: fun_upd_apply)
qed (auto simp: quiet_def Host_emit_log_def intro: none_destructed_quiet none_destructed_transfer)

end
