(* ===== verification/Zvm_Host_Returns.thy ===== *)
theory Zvm_Host_Returns
  imports Zvm_Refunds
begin

text \<open>
  \<open>Host::call\<close> returns: whatever code it runs, no assertion of the host or of the state is
  violated, all nested executions end, and the depth limit is never exceeded.  Only the
  precompiled contracts have to return for that; what those of the repository do, which are not
  defined for every request, is the subject of \<open>Zvm_Undefined\<close>.
\<close>

section \<open>Messages that the host accepts\<close>

abbreviation can_pay :: "message \<Rightarrow> State \<Rightarrow> bool" where
  "can_pay m S \<equiv> msg_value m \<le> balance (account_or_empty S (sender m))"

definition accepted :: "message \<Rightarrow> State \<Rightarrow> bool" where
  "accepted m S \<longleftrightarrow> S (sender m) \<noteq> None \<and>
     (if creates m then recipient m = 0 \<and> code_address m = 0 \<and> can_pay m S
      else if kind m = ZVMC_CALL then recipient m = code_address m \<and> can_pay m S
      else S (recipient m) \<noteq> None)"

text \<open>The message after its preparation: the nonce of a creator is not zero any more.\<close>

definition prepared :: "message \<Rightarrow> State \<Rightarrow> bool" where
  "prepared m S \<longleftrightarrow> S (sender m) \<noteq> None \<and>
     (if creates m then nonce (account_or_empty S (sender m)) \<noteq> 0 \<and> can_pay m S
      else if kind m = ZVMC_CALL then recipient m = code_address m \<and> can_pay m S
      else S (recipient m) \<noteq> None)"

text \<open>What is required of the VM: it returns when the accounts of the message exist.\<close>

definition runs :: "int \<Rightarrow> vm_runner \<Rightarrow> bool" where
  "runs d run \<longleftrightarrow> (\<forall>m c H. 0 \<le> gas m \<longrightarrow> depth m = d \<longrightarrow> m_state H (sender m) \<noteq> None \<longrightarrow>
     m_state H (recipient m) \<noteq> None \<longrightarrow> run m c H \<noteq> None)"

section \<open>The parts of a call\<close>

lemma new_address_Some: "\<exists>a. compute_new_account_address k s n salt init = Some a"
proof -
  have "length (trim (be_store 8 n)) \<le> 8" using length_dropWhile_le by (metis length_be_store trim_def)
  then have "\<exists>e. encode_tuple [encode_bytes (be_store 20 s), encode_uint64 n] = Some e"
    using list_item_Some [of 24 "[encode_bytes (be_store 20 s), encode_uint64 n]"]
      encode_bytes_Some [of "be_store 20 s"] encode_bytes_Some [of "trim (be_store 8 n)"]
    by (force simp: encode_tuple_def encode_container_def encode_uint64_def)
  then show ?thesis by (auto simp: compute_new_account_address_def Let_def split: option.split)
qed

lemma access_account_Some: "\<exists>r. Host_access_account H a = Some r"
  by (auto simp: Host_access_account_def state_get_or_insert_eq Let_def split: option.split)

lemma quiet_account:
  assumes "quiet H H'"
  shows "m_state H a \<noteq> None \<Longrightarrow> m_state H' a \<noteq> None"
    and "balance (account_or_empty (m_state H') a) = balance (account_or_empty (m_state H) a)"
    and "nonce (account_or_empty (m_state H') a) = nonce (account_or_empty (m_state H) a)"
  using assms by (auto simp: quiet_def same_state_def same_account_def)

lemma next_nonce: "(n :: uint64) \<noteq> NonceMax \<Longrightarrow> n + 1 \<noteq> 0"
  by (auto simp: NonceMax_def add_eq_0_iff2)

lemma prepare_returns:
  assumes "accepted m (m_state H)"
  shows "\<exists>r H1. prepare_message k m H = Some (r, H1) \<and> (\<forall>m1. r = Some m1 \<longrightarrow> prepared m1 (m_state H1))"
proof -
  let ?bump = "depth m = 0 \<or> creates m"
  obtain acc where acc: "m_state H (sender m) = Some acc" using assms by (auto simp: accepted_def)
  define H1 where "H1 = (if ?bump
    then H\<lparr>m_state := (m_state H)(sender m \<mapsto> acc\<lparr>nonce := nonce acc + 1\<rparr>)\<rparr> else H)"
  have H1: "m_state H1 (sender m) \<noteq> None" "balance (account_or_empty (m_state H1) (sender m)) = balance acc"
    "m_state H a \<noteq> None \<Longrightarrow> m_state H1 a \<noteq> None"
    "?bump \<Longrightarrow> nonce acc \<noteq> NonceMax \<Longrightarrow> nonce (account_or_empty (m_state H1) (sender m)) \<noteq> 0" for a
    using acc next_nonce by (auto simp: H1_def account_or_empty_def)
  show ?thesis
  proof (cases "?bump \<and> nonce acc = NonceMax")
    case True
    then show ?thesis using acc by (auto simp: prepare_message_def state_get_def state_find_def)
  next
    case False
    show ?thesis
    proof (cases "creates m")
      case True
      obtain a where a: "compute_new_account_address k (sender m) (nonce acc)
          (if kind m = ZVMC_CREATE2 then Some (create2_salt m) else None) (input_data m) = Some a"
        using new_address_Some by blast
      obtain st H2 where H2: "Host_access_account H1 a = Some (st, H2)" using access_account_Some by force
      have H1': "H1 = H\<lparr>m_state := (m_state H)(sender m \<mapsto> acc\<lparr>nonce := nonce acc + 1\<rparr>)\<rparr>"
        using True by (simp add: H1_def)
      have "prepare_message k m H = Some (Some (m\<lparr>recipient := a\<rparr>), H2)"
        using True False assms acc a H2 [unfolded H1']
        by (simp add: prepare_message_def state_get_def state_find_def accepted_def)
      moreover have "prepared (m\<lparr>recipient := a\<rparr>) (m_state H2)"
        using quiet_account [OF access_account_quiet [OF H2]] H1 True False assms acc
        by (auto simp: prepared_def accepted_def)
      ultimately show ?thesis by blast
    next
      case False': False
      then have "prepare_message k m H = Some (Some m, H1)"
        using False acc by (auto simp: prepare_message_def state_get_def state_find_def H1_def)
      moreover have "prepared m (m_state H1)"
        using H1 False' assms acc by (auto simp: prepared_def accepted_def split: if_splits)
      ultimately show ?thesis by blast
    qed
  qed
qed

lemma transfer_returns:
  assumes "S a = Some x" "v \<le> balance x" "S b \<noteq> None"
  shows "\<exists>S'. transfer a b v S = Some S'"
  using assms by (auto simp: transfer_def state_get_def state_find_def Let_def)

lemma new_contract_returns:
  assumes p: "prepared m S" "creates m" and new: "nonce (account_or_empty S (recipient m)) = 0"
  shows "\<exists>S'. new_contract m S = Some S' \<and> S' (sender m) \<noteq> None \<and> S' (recipient m) \<noteq> None"
proof -
  obtain x where x: "S (sender m) = Some x" "nonce x \<noteq> 0" "msg_value m \<le> balance x"
    using p by (auto simp: prepared_def)
  then have neq: "sender m \<noteq> recipient m" using new by auto
  obtain acc S1 where i: "state_get_or_insert (recipient m) empty_account S = Some (acc, S1)"
    and S1: "\<And>a. a \<noteq> recipient m \<Longrightarrow> S1 a = S a" "nonce acc = 0"
    using new by (auto simp: state_get_or_insert_eq account_or_empty_def empty_account_def split: option.splits)
  let ?S = "S1(recipient m \<mapsto> clear_storage (acc\<lparr>nonce := 1\<rparr>))"
  have "?S (sender m) = Some x" "?S (recipient m) \<noteq> None" using x S1 neq by simp_all
  from transfer_returns [of ?S, OF this(1) x(3) this(2)]
  obtain S' where S': "transfer (sender m) (recipient m) (msg_value m) ?S = Some S'" by blast
  have "dom S' = dom ?S" by (rule transfer_frame [OF S'])
  moreover have "new_contract m S = Some S'" using S' i S1(2) by (simp add: new_contract_def)
  ultimately show ?thesis using \<open>?S (sender m) = Some x\<close> \<open>?S (recipient m) \<noteq> None\<close> by (metis domIff option.distinct(1))
qed


text \<open>The accounts of a message stay while it runs.\<close>

lemma ledger_dom: "ledger s H n H' \<Longrightarrow> m_state H a \<noteq> None \<Longrightarrow> m_state H' a \<noteq> None"
  using ledger_nonces [of s H n H'] by (auto simp: nonces_grow_def)

lemma Host_create_returns:
  assumes run: "runs (depth m) run" "refines_ledger (depth m) run" "gas_kept run" and g: "0 \<le> gas m"
    and p: "prepared m (m_state H)" "creates m"
  shows "Host_create run m H \<noteq> None"
proof (cases "case state_find (m_state H) (recipient m) of
    None \<Rightarrow> False | Some acc \<Rightarrow> nonce acc \<noteq> 0 \<or> acc_code acc \<noteq> []")
  case True
  then show ?thesis using p(2) by (simp add: Host_create_def)
next
  case False
  then have "nonce (account_or_empty (m_state H) (recipient m)) = 0"
    by (auto simp: state_find_def account_or_empty_def empty_account_def split: option.splits)
  then obtain S where S: "new_contract m (m_state H) = Some S" "S (sender m) \<noteq> None" "S (recipient m) \<noteq> None"
    using new_contract_returns [OF p] by blast
  let ?m = "m\<lparr>input_data := []\<rparr>"
  have "run ?m (input_data m) (H\<lparr>m_state := S\<rparr>) \<noteq> None"
    using run(1) g S by (simp add: runs_def)
  then obtain r H2 where r: "run ?m (input_data m) (H\<lparr>m_state := S\<rparr>) = Some (r, H2)" by auto
  have "0 \<le> res_gas_left r" using gas_keptD [OF run(3) _ r] g by simp
  moreover have "m_state H2 (recipient m) \<noteq> None"
  proof -
    have "accounted (is_static ?m) (H\<lparr>m_state := S\<rparr>) r H2"
      using refines_ledgerD [of ?m run, OF _ _ r] run(2) g by simp
    then obtain n where "ledger (is_static ?m) (H\<lparr>m_state := S\<rparr>) n H2" using accounted_ledger by blast
    from ledger_dom [OF this] show ?thesis using S(3) by simp
  qed
  ultimately have "deploy_code m r H2 \<noteq> None"
    by (auto simp: deploy_code_def Let_def state_get_def state_find_def)
  then show ?thesis using p(2) False S(1) r by (simp add: Host_create_def)
qed

context precompiled_contracts
begin

lemma execute_message_returns:
  assumes run: "runs (depth m) run" "refines_ledger (depth m) run" "gas_kept run" and g: "0 \<le> gas m"
    and p: "prepared m (m_state H)" and total: "\<And>r m c. 0 \<le> gas m \<Longrightarrow> precompile r m c \<noteq> None"
  shows "execute_message precompile run m H \<noteq> None"
proof (cases "creates m")
  case True
  then show ?thesis using Host_create_returns [OF run g p] by (simp add: execute_message_def)
next
  case False
  have "\<exists>H1. enter_call m H = Some H1 \<and> m_state H1 (sender m) \<noteq> None \<and> m_state H1 (recipient m) \<noteq> None"
  proof (cases "kind m = ZVMC_CALL")
    case True
    obtain x where x: "m_state H (sender m) = Some x" "msg_value m \<le> balance x"
      using p True by (auto simp: prepared_def)
    let ?S = "(m_state H)(recipient m \<mapsto> (account_or_empty (m_state H) (recipient m))\<lparr>erasable := True\<rparr>)"
    have "\<exists>y. ?S (sender m) = Some y \<and> msg_value m \<le> balance y" using x by auto
    then obtain y where y: "?S (sender m) = Some y" "msg_value m \<le> balance y" by blast
    obtain S' where S': "transfer (sender m) (recipient m) (msg_value m) ?S = Some S'"
      using transfer_returns [of ?S "sender m" y "msg_value m" "recipient m"] y by auto
    moreover have "dom S' = dom ?S" by (rule transfer_frame [OF S'])
    ultimately show ?thesis using True y(1) by (auto simp: enter_call_def state_touch_eq)
  next
    case False': False
    then show ?thesis using p False by (auto simp: enter_call_def prepared_def)
  qed
  then obtain H1 where H1: "enter_call m H = Some H1" "m_state H1 (sender m) \<noteq> None" "m_state H1 (recipient m) \<noteq> None"
    by blast
  obtain pr cache where pr: "precompile (m_rev H1) m (m_cache H1) = Some (pr, cache)"
    using total [OF g, of "m_rev H1" "m_cache H1"] by (metis not_None_eq surj_pair)
  have "run m c (H1\<lparr>m_cache := cache\<rparr>) \<noteq> None" for c using run(1) g H1 by (simp add: runs_def)
  then show ?thesis using False p H1(1) pr
    by (auto simp: execute_message_def Let_def prepared_def split: option.split)
qed

lemma Host_call_returns:
  assumes run: "runs (depth m) run" "refines_ledger (depth m) run" "gas_kept run" and g: "0 \<le> gas m"
    and a: "accepted m (m_state H)" and total: "\<And>r m c. 0 \<le> gas m \<Longrightarrow> precompile r m c \<noteq> None"
  shows "Host_call k precompile run H m \<noteq> None"
proof -
  obtain r H1 where p: "prepare_message k m H = Some (r, H1)" "\<And>m1. r = Some m1 \<Longrightarrow> prepared m1 (m_state H1)"
    using prepare_returns [OF a] by blast
  show ?thesis
  proof (cases r)
    case None
    then show ?thesis using p(1) by (simp add: Host_call_def)
  next
    case (Some m1)
    then have k: "gas m1 = gas m" "depth m1 = depth m"
      using p prepare_message_keeps [of k m H m1 H1] by auto
    have "execute_message precompile run m1 H1 \<noteq> None"
      by (rule execute_message_returns) (use run g k p(2) [OF Some] total in simp_all)
    then show ?thesis using p(1) Some
      by (auto simp: Host_call_def Let_def state_touch_eq)
  qed
qed

end

section \<open>The VM\<close>

definition calls_return :: "message \<Rightarrow> (Host \<Rightarrow> message \<Rightarrow> (zvmc_result \<times> Host) option) \<Rightarrow> bool" where
  "calls_return m call \<longleftrightarrow> (\<forall>c H. depth m < 1024 \<longrightarrow> depth c = depth m + 1 \<longrightarrow> 0 \<le> gas c \<longrightarrow>
     static_ok c \<longrightarrow> accepted c (m_state H) \<longrightarrow> call H c \<noteq> None)"

lemma allowed_accepted:
  assumes "call_allowed (host_interface L call) m (Some H) c"
    and "m_state H (sender m) \<noteq> None" "m_state H (recipient m) \<noteq> None"
  shows "accepted c (m_state H)"
  using assms
  by (auto simp: call_allowed_def accepted_def host_interface_def query_def Host_get_balance_def
      state_find_def split: call_kind.splits)

lemma effects_running:
  assumes e: "vm_effects (host_interface L call) m (Some H) n p"
    and calls: "calls_refine m call" "calls_return m call" and d: "0 \<le> depth m"
    and ex: "m_state H (sender m) \<noteq> None" "m_state H (recipient m) \<noteq> None"
  shows "p \<noteq> None"
  using e
proof (induction rule: vm_effects.induct)
  case (eff_account n p a)
  then obtain H1 where "p = Some H1" by auto
  moreover obtain r H2 where "Host_access_account H1 a = Some (r, H2)" using access_account_Some by force
  ultimately show ?case by (simp add: host_interface_def host_method_def)
next
  case (eff_access_storage n p k)
  then obtain H1 where H1: "p = Some H1" by auto
  have "m_state H1 (recipient m) \<noteq> None"
    using effects_ledger [OF eff_access_storage.hyps(1) calls(1) d H1] ledger_dom ex by blast
  then show ?case using H1
    by (auto simp: host_interface_def host_method_def Host_access_storage_def state_get_def state_find_def Let_def)
next
  case (eff_set_storage n p r k v)
  then obtain H1 where H1: "p = Some H1" by auto
  have "m_state H1 (recipient m) \<noteq> None"
    using effects_ledger [OF eff_set_storage.hyps(1) calls(1) d H1] ledger_dom ex by blast
  then show ?case using H1
    by (auto simp: host_interface_def host_method_def Host_set_storage_def state_get_def state_find_def Let_def)
next
  case (eff_log n p d ts)
  then show ?case by (simp add: host_interface_def)
next
  case (eff_call n p c)
  then obtain H1 where H1: "p = Some H1" by auto
  have "m_state H1 (sender m) \<noteq> None" "m_state H1 (recipient m) \<noteq> None"
    using effects_ledger [OF eff_call.hyps(1) calls(1) d H1] ledger_dom ex by blast+
  then have "accepted c (m_state H1)" using allowed_accepted eff_call.hyps(2) H1 by blast
  then have "call H1 c \<noteq> None"
    using calls(2) eff_call.hyps(2) call_allowed_static(1) [OF eff_call.hyps(2) d]
    unfolding calls_return_def call_allowed_def by blast
  then show ?case using H1 by (auto simp: host_interface_def host_method_def)
qed simp

lemma run_vm_returns:
  assumes P: "zvmc_host (host_interface L call)" and vm: "vm_execute_ptr vm = Baseline_execute"
    and calls: "\<And>m. depth m = d \<Longrightarrow> calls_refine m call" "\<And>m. depth m = d \<Longrightarrow> calls_return m call" and d: "0 \<le> d"
  shows "runs d (run_vm (host_interface L call) vm)"
proof -
  have "run_vm (host_interface L call) vm m c H \<noteq> None"
    if g: "0 \<le> gas m" "depth m = d" and ex: "m_state H (sender m) \<noteq> None" "m_state H (recipient m) \<noteq> None"
    for m c H
  proof -
    obtain res p where e: "execute (host_interface L call) False (Some H) (m_rev H) m c = Some (res, p)"
      and eff: "\<exists>n. vm_effects (host_interface L call) m (Some H) n p"
      using zvmc_host.execute_returns [OF P g(1), of False "Some H" "m_rev H" c]
      by (auto simp: vm_ok_def earns_def returns_def)
    have "p \<noteq> None" using effects_running [OF _ calls(1) [OF g(2)] calls(2) [OF g(2)] _ ex] eff d g(2) by blast
    moreover obtain ns where "vm_execute (host_interface L call) vm (Some H) (m_rev H) m c = Some ((res, p), ns)"
      using e vm_execute_baseline [OF vm, of "host_interface L call" "Some H" "m_rev H" m c]
      by (cases "vm_execute (host_interface L call) vm (Some H) (m_rev H) m c") auto
    ultimately show ?thesis by (auto simp: run_vm_def)
  qed
  then show ?thesis by (simp add: runs_def)
qed

context precompiled_contracts
begin

theorem calls_do_return:
  assumes vm: "vm_execute_ptr vm = Baseline_execute" and total: "\<And>r m c. 0 \<le> gas m \<Longrightarrow> precompile r m c \<noteq> None"
  shows "0 \<le> gas m \<Longrightarrow> 0 \<le> depth m \<Longrightarrow> depth m \<le> 1024 \<Longrightarrow> 1025 \<le> int n + depth m \<Longrightarrow> static_ok m \<Longrightarrow>
    accepted m (m_state H) \<Longrightarrow> host_calls_with precompile L vm n H m \<noteq> None"
proof (induction n arbitrary: H m)
  case 0
  then show ?case by simp
next
  case (Suc n)
  let ?call = "host_calls_with precompile L vm n"
  have laws: "zvmc_host (host_interface L ?call)" by (rule platform_laws [OF vm])
  have refine: "calls_refine m1 ?call" if "depth m1 = depth m" for m1
    unfolding calls_refine_def using calls_ledger [OF vm] Suc.prems(2,4) that by auto
  have ret: "calls_return m1 ?call" if "depth m1 = depth m" for m1
    unfolding calls_return_def using Suc.IH Suc.prems(2,4) that by auto
  have "host_calls_with precompile L vm (Suc n) H m =
      Host_call (lib_keccak256 L) precompile (run_vm (host_interface L ?call) vm) H m" by simp
  then show ?case
    using Host_call_returns [OF run_vm_returns [OF laws vm refine ret Suc.prems(2)]
        run_vm_ledger [OF laws vm refine Suc.prems(2)] run_vm_gas [OF laws vm] Suc.prems(1,6) total] by simp
qed

end

end
