(* ===== verification/Zvm_Bloom.thy ===== *)
theory Zvm_Bloom
  imports Zvm_Host
begin

text \<open>
  The bloom filter of logs (\<open>test/state/bloom_filter.cpp\<close>).  The specification reads the 256
  bytes of a filter as a 2048-bit number: every entry sets the three bits that its hash names,
  and nothing else is set.
\<close>

section \<open>Definitions\<close>

type_synonym BloomFilter = bytes

definition empty_filter :: BloomFilter where
  "empty_filter = replicate 256 0"

definition bit_to_set :: "bytes \<Rightarrow> nat \<Rightarrow> int" where
  "bit_to_set hash i = push_bit 8 (uint (hash ! i) AND 0x07) OR uint (hash ! (i + 1))"

definition set_filter_bit :: "bytes \<Rightarrow> nat \<Rightarrow> BloomFilter \<Rightarrow> BloomFilter" where
  "set_filter_bit hash i bf =
     (let bit_index = 0x07FF - bit_to_set hash i;
          byte_index = nat (bit_index div 8);
          bit_pos = word_of_int (push_bit (nat (7 - bit_index mod 8)) 1)
      in bf[byte_index := bf ! byte_index OR bit_pos])"

definition add_to :: "(bytes \<Rightarrow> uint256) \<Rightarrow> BloomFilter \<Rightarrow> bytes \<Rightarrow> BloomFilter" where
  "add_to keccak256 bf entry =
     (let hash = be_store 32 (keccak256 entry)
      in fold (set_filter_bit hash) [0, 2, 4] bf)"

text \<open>\<open>compute_bloom_filter\<close> for the logs of a transaction.\<close>

definition add_log :: "(bytes \<Rightarrow> uint256) \<Rightarrow> Log \<Rightarrow> BloomFilter \<Rightarrow> BloomFilter" where
  "add_log keccak256 log bf =
     fold (\<lambda>topic bf. add_to keccak256 bf (be_store 32 topic)) (log_topics log)
       (add_to keccak256 bf (be_store 20 (log_addr log)))"

definition compute_bloom_filter :: "(bytes \<Rightarrow> uint256) \<Rightarrow> Log list \<Rightarrow> BloomFilter" where
  "compute_bloom_filter keccak256 logs = fold (add_log keccak256) logs empty_filter"

text \<open>\<open>compute_bloom_filter\<close> for the filters of the receipts of a block.\<close>

definition combine_filters :: "BloomFilter list \<Rightarrow> BloomFilter" where
  "combine_filters filters = fold (\<lambda>f res. map2 (\<lambda>x y. x OR y) res f) filters empty_filter"

section \<open>Specification\<close>

text \<open>The three bits of an entry: the low eleven bits of the first three 16-bit words of its hash.\<close>

definition entry_bits :: "(bytes \<Rightarrow> uint256) \<Rightarrow> bytes \<Rightarrow> nat set" where
  "entry_bits keccak256 entry =
     (\<lambda>i. unat (drop_bit (240 - 16 * i) (keccak256 entry)) mod 2 ^ 11) ` {0, 1, 2}"

definition log_entries :: "Log \<Rightarrow> bytes set" where
  "log_entries log = insert (be_store 20 (log_addr log)) (be_store 32 ` set (log_topics log))"

definition filter_bits :: "BloomFilter \<Rightarrow> nat set" where
  "filter_bits bf = {n. bit (be_load bf :: 2048 word) n}"

lemma bit_to_set_eq:
  assumes "i < 3"
  shows "bit_to_set (be_store 32 (h :: uint256)) (2 * i) = int (unat (drop_bit (240 - 16 * i) h) mod 2 ^ 11)"
proof -
  have m: "(x :: int) AND 7 = take_bit 3 x" for x
    using take_bit_eq_mask [of 3 x] by (simp add: mask_eq_exp_minus_1)
  have r: "int (unat x mod 2 ^ 11) = take_bit 11 (uint x)" for x :: uint256
    by (simp add: take_bit_eq_mod zmod_int)
  have hi: "bit (be_store 32 h ! (2 * i)) k \<longleftrightarrow> k < 8 \<and> bit h (248 - 16 * i + k)" for k
    using assms bit_be_store_nth [of "2 * i" 32 h k] by (simp add: diff_mult_distrib2)
  have lo: "bit (be_store 32 h ! Suc (2 * i)) k \<longleftrightarrow> k < 8 \<and> bit h (240 + k - 16 * i)" for k
    using assms bit_be_store_nth [of "2 * i + 1" 32 h k] by (simp add: diff_mult_distrib2)
  show ?thesis unfolding bit_to_set_def r m
  proof (rule bit_eqI)
    fix n
    have "248 - 16 * i + (n - 8) = 240 - 16 * i + n" if "8 \<le> n" using that assms by simp
    then show "bit (push_bit 8 (take_bit 3 (uint (be_store 32 h ! (2 * i)))) OR uint (be_store 32 h ! (2 * i + 1))) n =
        bit (take_bit 11 (uint (drop_bit (240 - 16 * i) h))) n"
      using assms by (cases "8 \<le> n") (auto simp: bit_or_iff bit_push_bit_iff bit_take_bit_iff bit_uint_iff hi lo bit_drop_bit_eq)
  qed
qed

lemma length_set_filter_bit [simp]: "length (set_filter_bit hash i bf) = length bf"
  by (simp add: set_filter_bit_def Let_def)

lemma filter_bits_eq:
  "length bf = 256 \<Longrightarrow> filter_bits bf = {n. n < 2048 \<and> bit (bf ! (255 - n div 8)) (n mod 8)}"
  by (auto simp: filter_bits_def bit_be_load)

lemma filter_bits_set:
  assumes len: "length bf = 256" and b: "bit_to_set hash i = int b" "b < 2 ^ 11"
  shows "filter_bits (set_filter_bit hash i bf) = insert b (filter_bits bf)"
proof -
  have "(0x07FF - int b) div 8 = 255 - int b div 8" "(0x07FF - int b) mod 8 = 7 - int b mod 8"
  proof -
    have s: "0x07FF - int b = 8 * (255 - int b div 8) + (7 - int b mod 8)"
      using div_mult_mod_eq [of "int b" 8] unfolding right_diff_distrib by presburger
    have r: "0 \<le> 7 - int b mod 8" "7 - int b mod 8 < 8"
      using pos_mod_bound [of 8 "int b"] pos_mod_sign [of 8 "int b"] by simp_all
    show "(0x07FF - int b) div 8 = 255 - int b div 8" by (rule int_div_pos_eq [OF s r])
    show "(0x07FF - int b) mod 8 = 7 - int b mod 8" by (rule int_mod_pos_eq [OF s r])
  qed
  then have idx: "nat ((0x07FF - int b) div 8) = 255 - b div 8" "nat (7 - (0x07FF - int b) mod 8) = b mod 8"
    using b(2) by (simp_all add: nat_diff_distrib nat_div_distrib nat_mod_distrib)
  have bit: "bit (word_of_int (push_bit (b mod 8) 1) :: byte) k \<longleftrightarrow> k = b mod 8" for k
    by (auto simp: bit_simps)
  have bit': "bit (2 ^ (b mod 8) :: byte) k \<longleftrightarrow> k = b mod 8" for k
    by (auto simp: bit_exp_iff possible_bit_def)
  let ?bf = "bf[255 - b div 8 := bf ! (255 - b div 8) OR word_of_int (push_bit (b mod 8) 1)]"
  have s: "set_filter_bit hash i bf = ?bf"
    unfolding set_filter_bit_def Let_def b(1) idx ..
  have "n \<in> filter_bits ?bf \<longleftrightarrow> n \<in> insert b (filter_bits bf)" for n
  proof (cases "n div 8 = b div 8")
    case True
    then have "n = b \<longleftrightarrow> n mod 8 = b mod 8" by (metis div_mult_mod_eq)
    moreover have "n < 2048"
      using True b(2) div_less_iff_less_mult [of 8 n 256] div_less_iff_less_mult [of 8 b 256] by simp
    ultimately show ?thesis using len True by (auto simp: filter_bits_eq bit_or_iff bit bit')
  next
    case False
    then have "n \<noteq> b" "n < 2048 \<Longrightarrow> 255 - b div 8 \<noteq> 255 - n div 8" using b(2) by auto
    then show ?thesis using len by (auto simp: filter_bits_eq)
  qed
  then show ?thesis unfolding s by blast
qed

lemma filter_bits_add_to:
  assumes "length bf = 256"
  shows "filter_bits (add_to keccak256 bf entry) = filter_bits bf \<union> entry_bits keccak256 entry"
    and "length (add_to keccak256 bf entry) = 256"
proof -
  let ?h = "be_store 32 (keccak256 entry)"
  let ?n = "\<lambda>i. unat (drop_bit (240 - 16 * i) (keccak256 entry)) mod 2 ^ 11"
  have s: "filter_bits (set_filter_bit ?h (2 * i) f) = insert (?n i) (filter_bits f)" if "i < 3" "length f = 256" for i f
    using filter_bits_set [OF that(2) bit_to_set_eq [OF that(1), of "keccak256 entry"]] by simp
  show "filter_bits (add_to keccak256 bf entry) = filter_bits bf \<union> entry_bits keccak256 entry"
    using s [of 0 bf] s [of 1 "set_filter_bit ?h 0 bf"] s [of 2 "set_filter_bit ?h 2 (set_filter_bit ?h 0 bf)"] assms
    by (auto simp: add_to_def Let_def entry_bits_def)
  show "length (add_to keccak256 bf entry) = 256"
    using assms by (simp add: add_to_def Let_def)
qed

lemma filter_bits_add_log:
  assumes "length bf = 256"
  shows "filter_bits (add_log keccak256 log bf) = filter_bits bf \<union> (\<Union>e \<in> log_entries log. entry_bits keccak256 e) \<and>
    length (add_log keccak256 log bf) = 256"
proof -
  have "filter_bits (fold (\<lambda>topic bf. add_to keccak256 bf (be_store 32 topic)) ts f) =
      filter_bits f \<union> (\<Union>t \<in> set ts. entry_bits keccak256 (be_store 32 t)) \<and>
      length (fold (\<lambda>topic bf. add_to keccak256 bf (be_store 32 topic)) ts f) = 256"
    if "length f = 256" for ts :: "uint256 list" and f
    using that by (induction ts arbitrary: f) (auto simp: filter_bits_add_to)
  then show ?thesis using assms by (auto simp: add_log_def log_entries_def filter_bits_add_to)
qed

lemma filter_bits_fold:
  assumes "length bf = 256"
  shows "filter_bits (fold (add_log keccak256) logs bf) =
      filter_bits bf \<union> (\<Union>log \<in> set logs. \<Union>e \<in> log_entries log. entry_bits keccak256 e) \<and>
    length (fold (add_log keccak256) logs bf) = 256"
  using assms by (induction logs arbitrary: bf) (auto simp: filter_bits_add_log)

lemma filter_bits_empty [simp]: "filter_bits empty_filter = {}" "length empty_filter = 256"
  by (auto simp: filter_bits_eq empty_filter_def)

theorem bloom_filter_bits:
  "filter_bits (compute_bloom_filter keccak256 logs) =
     (\<Union>log \<in> set logs. \<Union>e \<in> log_entries log. entry_bits keccak256 e)"
  using filter_bits_fold [of empty_filter keccak256 logs] by (simp add: compute_bloom_filter_def)

text \<open>The filter of a block is the filter of all its logs.\<close>

lemma filter_bits_inject:
  assumes "length f = 256" "length g = 256" "filter_bits f = filter_bits g"
  shows "f = g"
proof (rule nth_equalityI)
  fix i assume "i < length f"
  then have i: "i < 256" using assms(1) by simp
  show "f ! i = g ! i"
  proof (rule bit_word_eqI)
    fix k assume "k < LENGTH(8)"
    then have k: "k < 8" by simp
    let ?n = "8 * (255 - i) + k"
    have "?n < 2048" "255 - ?n div 8 = i" "?n mod 8 = k" using i k by auto
    then show "bit (f ! i) k = bit (g ! i) k"
      using assms(3) unfolding filter_bits_eq [OF assms(1)] filter_bits_eq [OF assms(2)] set_eq_iff
      by (metis (mono_tags, lifting) mem_Collect_eq)
  qed
qed (simp add: assms)

lemma filter_bits_combine:
  assumes "list_all (\<lambda>f. length f = 256) fs" "length res = 256"
  shows "filter_bits (fold (\<lambda>f res. map2 (\<lambda>x y. x OR y) res f) fs res) = filter_bits res \<union> (\<Union>f \<in> set fs. filter_bits f) \<and>
    length (fold (\<lambda>f res. map2 (\<lambda>x y. x OR y) res f) fs res) = 256"
  using assms
proof (induction fs arbitrary: res)
  case (Cons f fs)
  have "filter_bits (map2 (\<lambda>x y. x OR y) res f) = filter_bits res \<union> filter_bits f"
    using Cons.prems by (auto simp: filter_bits_eq bit_or_iff)
  then show ?case using Cons.IH [of "map2 (\<lambda>x y. x OR y) res f"] Cons.prems by auto
qed simp

theorem block_filter:
  "combine_filters (map (compute_bloom_filter keccak256) logss) = compute_bloom_filter keccak256 (concat logss)"
proof (rule filter_bits_inject)
  have l: "length (compute_bloom_filter keccak256 logs) = 256" for logs
    using filter_bits_fold [of empty_filter keccak256 logs] by (simp add: compute_bloom_filter_def)
  show "length (combine_filters (map (compute_bloom_filter keccak256) logss)) = 256"
    "length (compute_bloom_filter keccak256 (concat logss)) = 256"
    "filter_bits (combine_filters (map (compute_bloom_filter keccak256) logss)) =
      filter_bits (compute_bloom_filter keccak256 (concat logss))"
    using filter_bits_combine [of "map (compute_bloom_filter keccak256) logss" empty_filter] l
    by (auto simp: combine_filters_def list_all_iff bloom_filter_bits)
qed

end
