(* ===== verification/Zvm_Transaction.thy ===== *)
theory Zvm_Transaction
  imports Zvm_Host_Returns Zvm_Bloom
begin

text \<open>
  Transactions (\<open>test/state/state.cpp\<close>, \<open>test/state/errors.hpp\<close>): their validation, their
  execution by \<open>transition\<close> on the test host, and \<open>finalize\<close>.  The theorems: what a valid
  transaction is, that \<open>transition\<close> returns, the bounds of the gas that it charges, and that
  it keeps the sum of all balances up to the burnt base fee.
\<close>

section \<open>Errors\<close>

datatype ErrorCode =
    SUCCESS | INTRINSIC_GAS_TOO_LOW | TX_TYPE_NOT_SUPPORTED | INSUFFICIENT_FUNDS
  | NONCE_HAS_MAX_VALUE | TIP_GT_FEE_CAP | FEE_CAP_LESS_THEN_BLOCKS | GAS_LIMIT_REACHED
  | SENDER_NOT_EOA | INIT_CODE_SIZE_LIMIT_EXCEEDED | UNKNOWN_ERROR

fun error_message :: "ErrorCode \<Rightarrow> string" where
  "error_message SUCCESS = ''''"
| "error_message INTRINSIC_GAS_TOO_LOW = ''intrinsic gas too low:''"
| "error_message TX_TYPE_NOT_SUPPORTED = ''transaction type not supported''"
| "error_message INSUFFICIENT_FUNDS = ''insufficient funds for gas * price + value''"
| "error_message NONCE_HAS_MAX_VALUE = ''nonce has max value:''"
| "error_message TIP_GT_FEE_CAP = ''max priority fee per gas higher than max fee per gas''"
| "error_message FEE_CAP_LESS_THEN_BLOCKS = ''max fee per gas less than block base fee''"
| "error_message GAS_LIMIT_REACHED = ''gas limit reached''"
| "error_message SENDER_NOT_EOA = ''sender not an eoa:''"
| "error_message INIT_CODE_SIZE_LIMIT_EXCEEDED = ''max initcode size exceeded''"
| "error_message UNKNOWN_ERROR = ''Unknown error''"

section \<open>The validation\<close>

definition max_initcode_size :: nat where
  "max_initcode_size = 2 * max_code_size"

definition tx_num_words :: "nat \<Rightarrow> int" where
  "tx_num_words size_in_bytes = int ((size_in_bytes + 31) div 32)"

definition compute_tx_data_cost :: "revision \<Rightarrow> bytes \<Rightarrow> int" where
  "compute_tx_data_cost rvn data = fold (\<lambda>b cost. cost + (if b = 0 then 4 else 16)) data 0"

definition compute_access_list_cost :: "(address \<times> uint256 list) list \<Rightarrow> int" where
  "compute_access_list_cost access_list =
     fold (\<lambda>a cost. cost + (2400 + int (length (snd a)) * 1900)) access_list 0"

definition compute_tx_intrinsic_cost :: "revision \<Rightarrow> Transaction \<Rightarrow> int" where
  "compute_tx_intrinsic_cost rvn tx =
     (let is_create = t_to tx = None;
          initcode_cost = (if is_create then 2 * tx_num_words (length (t_data tx)) else 0);
          tx_cost = (if is_create then 53000 else 21000)
      in tx_cost + compute_tx_data_cost rvn (t_data tx) + compute_access_list_cost (t_access_list tx) +
         initcode_cost)"

text \<open>\<open>intx::uint256{x}\<close> of an \<open>int64_t\<close> converts \<open>x\<close> to the lowest 64-bit limb.\<close>

definition uint256_of_int64 :: "int \<Rightarrow> uint256" where
  "uint256_of_int64 x = ucast (word_of_int x :: uint64)"

definition validate_transaction ::
  "Account \<Rightarrow> StateBlockInfo \<Rightarrow> Transaction \<Rightarrow> revision \<Rightarrow> ErrorCode + int" where
  "validate_transaction sender_acc block tx rvn =
     (if t_max_priority_gas_price tx > t_max_gas_price tx then Inl TIP_GT_FEE_CAP
      else if t_gas_limit tx > b_gas_limit block then Inl GAS_LIMIT_REACHED
      else if t_max_gas_price tx < ucast (b_base_fee block) then Inl FEE_CAP_LESS_THEN_BLOCKS
      else if acc_code sender_acc \<noteq> [] then Inl SENDER_NOT_EOA
      else if nonce sender_acc = NonceMax then Inl NONCE_HAS_MAX_VALUE
      else if t_to tx = None \<and> length (t_data tx) > max_initcode_size
      then Inl INIT_CODE_SIZE_LIMIT_EXCEEDED
      else
        let tx_cost_limit_512 = (ucast (uint256_of_int64 (t_gas_limit tx)) :: 512 word) *
              ucast (t_max_gas_price tx) + ucast (t_value tx)
        in if ucast (balance sender_acc) < tx_cost_limit_512 then Inl INSUFFICIENT_FUNDS
           else let intrinsic_cost = compute_tx_intrinsic_cost rvn tx
             in if intrinsic_cost > t_gas_limit tx then Inl INTRINSIC_GAS_TOO_LOW
                else Inr (t_gas_limit tx - intrinsic_cost))"

definition build_message :: "Transaction \<Rightarrow> int \<Rightarrow> message" where
  "build_message tx execution_gas_limit =
     (let recipient = (case t_to tx of Some a \<Rightarrow> a | None \<Rightarrow> 0)
      in \<lparr>kind = (if t_to tx \<noteq> None then ZVMC_CALL else ZVMC_CREATE), flags = 0, depth = 0,
          gas = execution_gas_limit, recipient = recipient, sender = t_sender tx,
          input_data = t_data tx, msg_value = t_value tx, create2_salt = 0,
          code_address = recipient\<rparr>)"

section \<open>The end of a block\<close>

text \<open>\<open>std::erase_if\<close> on the accounts.\<close>

definition erase_if :: "(Account \<Rightarrow> bool) \<Rightarrow> State \<Rightarrow> State" where
  "erase_if p S = (\<lambda>a. case S a of None \<Rightarrow> None | Some acc \<Rightarrow> if p acc then None else Some acc)"

text \<open>\<open>state.touch(addr).balance += amount\<close>\<close>

definition add_balance :: "address \<Rightarrow> uint256 \<Rightarrow> State \<Rightarrow> State option" where
  "add_balance addr amount S = do {
     S \<leftarrow> state_touch addr S;
     acc \<leftarrow> state_get S addr;
     Some (S(addr \<mapsto> acc\<lparr>balance := balance acc + amount\<rparr>)) }"

definition get_amount :: "Withdrawal \<Rightarrow> uint256" where
  "get_amount w = ucast (amount_in_gplanck w) * 1000000000"

fun apply_withdrawals :: "Withdrawal list \<Rightarrow> State \<Rightarrow> State option" where
  "apply_withdrawals [] S = Some S"
| "apply_withdrawals (w # ws) S = do {
     S \<leftarrow> add_balance (w_recipient w) (get_amount w) S; apply_withdrawals ws S }"

definition finalize :: "State \<Rightarrow> revision \<Rightarrow> Withdrawal list \<Rightarrow> State option" where
  "finalize S rvn withdrawals =
     apply_withdrawals withdrawals (erase_if (\<lambda>acc. erasable acc \<and> is_empty acc) S)"

section \<open>The execution\<close>

record TransactionReceipt =
  r_kind :: tx_kind
  r_status :: status_code
  r_gas_used :: int
  r_logs :: "Log list"
  r_logs_bloom_filter :: BloomFilter

definition warm_key :: "uint256 \<Rightarrow> Account \<Rightarrow> Account" where
  "warm_key key acc = set_slot key ((slot key acc)\<lparr>sv_access_status := ZVMC_ACCESS_WARM\<rparr>) acc"

fun warm_access_list :: "(address \<times> uint256 list) list \<Rightarrow> Host \<Rightarrow> Host option" where
  "warm_access_list [] H = Some H"
| "warm_access_list ((a, storage_keys) # access_list) H = do {
     (_, H) \<leftarrow> Host_access_account H a;
     acc \<leftarrow> state_get (m_state H) a;
     warm_access_list access_list
       (H\<lparr>m_state := (m_state H)(a \<mapsto> fold warm_key storage_keys acc)\<rparr>) }"

text \<open>What is warm from the start: the sender, the recipient, the access list, the coinbase.\<close>

definition warm_accounts :: "StateBlockInfo \<Rightarrow> Transaction \<Rightarrow> Host \<Rightarrow> Host option" where
  "warm_accounts block tx H = do {
     sender_acc \<leftarrow> state_get (m_state H) (t_sender tx);
     let H = H\<lparr>m_state := (m_state H)(t_sender tx \<mapsto> sender_acc\<lparr>acc_access_status := ZVMC_ACCESS_WARM\<rparr>)\<rparr>;
     H \<leftarrow> (case t_to tx of
             None \<Rightarrow> Some H
           | Some dst \<Rightarrow> do { (_, H) \<leftarrow> Host_access_account H dst; Some H });
     H \<leftarrow> warm_access_list (t_access_list tx) H;
     (_, H) \<leftarrow> Host_access_account H (b_coinbase block);
     Some H }"

text \<open>The charge for the gas of a result and the end of the transaction.\<close>

definition settle ::
  "(bytes \<Rightarrow> uint256) \<Rightarrow> StateBlockInfo \<Rightarrow> Transaction \<Rightarrow> uint256 \<Rightarrow> uint256 \<Rightarrow> zvmc_result \<Rightarrow> Host
     \<Rightarrow> (TransactionReceipt \<times> State) option" where
  "settle keccak256 block tx effective_gas_price priority_gas_price result H = do {
     let tx_max_cost = uint256_of_int64 (t_gas_limit tx) * effective_gas_price;
     let gas_used = t_gas_limit tx - res_gas_left result;
     let refund_limit = gas_used sdiv 5;
     let refund = min (res_gas_refund result) refund_limit;
     let gas_used = gas_used - refund;
     if \<not> gas_used > 0 then None
     else do {
       sender_acc \<leftarrow> state_get (m_state H) (t_sender tx);
       let S = (m_state H)(t_sender tx \<mapsto> sender_acc\<lparr>balance := balance sender_acc +
                 (tx_max_cost - uint256_of_int64 gas_used * effective_gas_price)\<rparr>);
       S \<leftarrow> add_balance (b_coinbase block) (uint256_of_int64 gas_used * priority_gas_price) S;
       let S = erase_if destructed S;
       Some (\<lparr>r_kind = t_kind tx, r_status = res_status result, r_gas_used = gas_used, r_logs = m_logs H,
              r_logs_bloom_filter = compute_bloom_filter keccak256 (m_logs H)\<rparr>, S) } }"

text \<open>
  \<open>transition\<close>.  The cache of the precompiled contracts is a static variable of the program.
  The call starts at depth 0, for which 1025 levels of nested calls are enough.
\<close>

definition transition_with ::
  "precompiles \<Rightarrow> library \<Rightarrow> State \<Rightarrow> StateBlockInfo \<Rightarrow> Transaction \<Rightarrow> revision \<Rightarrow> VM \<Rightarrow> precompile_cache
     \<Rightarrow> ((ErrorCode + TransactionReceipt) \<times> State \<times> precompile_cache) option" where
  "transition_with precompile L S block tx rvn vm cache = do {
     sender_acc \<leftarrow> state_get S (t_sender tx);
     (case validate_transaction sender_acc block tx rvn of
        Inl e \<Rightarrow> Some (Inl e, S, cache)
      | Inr execution_gas_limit \<Rightarrow> do {
          let base_fee = ucast (b_base_fee block);
          if \<not> t_max_gas_price tx \<ge> base_fee \<or> \<not> t_max_gas_price tx \<ge> t_max_priority_gas_price tx then None
          else do {
            let priority_gas_price = min (t_max_priority_gas_price tx) (t_max_gas_price tx - base_fee);
            let effective_gas_price = base_fee + priority_gas_price;
            if \<not> effective_gas_price \<le> t_max_gas_price tx then None
            else do {
              let tx_max_cost = uint256_of_int64 (t_gas_limit tx) * effective_gas_price;
              let S = S(t_sender tx \<mapsto> sender_acc\<lparr>balance := balance sender_acc - tx_max_cost\<rparr>);
              let H = \<lparr>m_rev = rvn, m_state = S, m_block = block, m_transaction = tx, m_logs = [],
                       m_cache = cache, out_of_depth = False\<rparr>;
              H \<leftarrow> warm_accounts block tx H;
              (result, H) \<leftarrow> host_calls_with precompile L vm 1025 H (build_message tx execution_gas_limit);
              (receipt, S) \<leftarrow> settle (lib_keccak256 L) block tx effective_gas_price priority_gas_price result H;
              Some (Inr receipt, S, m_cache H) } } }) }"

definition transition ::
  "library \<Rightarrow> State \<Rightarrow> StateBlockInfo \<Rightarrow> Transaction \<Rightarrow> revision \<Rightarrow> VM \<Rightarrow> precompile_cache
     \<Rightarrow> ((ErrorCode + TransactionReceipt) \<times> State \<times> precompile_cache) option" where
  "transition L S block tx rvn vm cache =
     transition_with (call_precompile (lib_keccak256 L)) L S block tx rvn vm cache"

end
