(* ===== verification/Zvm_Transaction_Laws.thy ===== *)
theory Zvm_Transaction_Laws
  imports Zvm_Transaction
begin

text \<open>
  What holds of transactions: the validation is a specification over the integers, \<open>transition\<close>
  returns, the gas it charges is bounded, the sum of all balances changes by the burnt base fee
  only, and the nonce of the sender grows.
\<close>

section \<open>Costs\<close>

lemma fold_plus: "fold (\<lambda>x c. c + f x) xs c = c + sum_list (map f xs :: int list)"
  by (induction xs arbitrary: c) simp_all

lemma tx_data_cost_eq:
  "compute_tx_data_cost rvn data = 4 * int (length data) + 12 * int (length (filter (\<lambda>b. b \<noteq> 0) data))"
proof -
  have "(\<Sum>b\<leftarrow>data. if b = 0 then 4 else 16) =
      4 * int (length data) + 12 * int (length (filter (\<lambda>b. b \<noteq> 0) data))"
    by (induction data) auto
  then show ?thesis by (simp add: compute_tx_data_cost_def fold_plus)
qed

lemma access_list_cost_eq:
  "compute_access_list_cost al = 2400 * int (length al) + 1900 * int (length (concat (map snd al)))"
proof -
  have "(\<Sum>a\<leftarrow>al. 2400 + int (length (snd a)) * 1900) =
      2400 * int (length al) + 1900 * int (length (concat (map snd al)))"
    by (induction al) auto
  then show ?thesis by (simp add: compute_access_list_cost_def fold_plus)
qed

lemma intrinsic_cost_min: "21000 \<le> compute_tx_intrinsic_cost rvn tx"
  by (simp add: compute_tx_intrinsic_cost_def Let_def tx_data_cost_eq access_list_cost_eq tx_num_words_def)

section \<open>Validation\<close>

lemma uint_int64: "0 \<le> x \<Longrightarrow> x < 2 ^ 63 \<Longrightarrow> uint (uint256_of_int64 x) = x"
  by (simp add: uint256_of_int64_def unsigned_ucast_eq take_bit_int_eq_self uint_word_of_int)

text \<open>The computation with 512 bits does not overflow.\<close>

lemma cost_limit_exact:
  fixes a p v b :: uint256
  shows "(ucast b :: 512 word) < ucast a * ucast p + ucast v \<longleftrightarrow> uint b < uint a * uint p + uint v"
proof -
  have b: "uint x \<le> 2 ^ 256 - 1" "0 \<le> uint x" for x :: uint256 using uint_lt2p [of x] by simp_all
  have "uint a * uint p \<le> (2 ^ 256 - 1) * (2 ^ 256 - 1)" using b by (intro mult_mono) auto
  then have lt: "uint a * uint p + uint v < 2 ^ 512" using b(1) [of v] by simp
  have u: "uint (ucast x :: 512 word) = uint x" for x :: uint256
    by (rule uint_up_ucast) (simp add: is_up)
  have "uint (ucast a * ucast p + ucast v :: 512 word) = uint a * uint p + uint v"
    using lt by (simp add: uint_word_ariths u mod_add_left_eq)
  then show ?thesis by (simp add: word_less_def u)
qed

definition valid_transaction :: "Account \<Rightarrow> StateBlockInfo \<Rightarrow> Transaction \<Rightarrow> revision \<Rightarrow> bool" where
  "valid_transaction acc block tx rvn \<longleftrightarrow>
     t_max_priority_gas_price tx \<le> t_max_gas_price tx \<and> t_gas_limit tx \<le> b_gas_limit block \<and>
     uint (b_base_fee block) \<le> uint (t_max_gas_price tx) \<and>
     acc_code acc = [] \<and> nonce acc \<noteq> NonceMax \<and>
     (t_to tx = None \<longrightarrow> length (t_data tx) \<le> 49152) \<and>
     compute_tx_intrinsic_cost rvn tx \<le> t_gas_limit tx \<and>
     t_gas_limit tx * uint (t_max_gas_price tx) + uint (t_value tx) \<le> uint (balance acc)"

lemma base_fee_less: "x < (ucast (b :: uint64) :: uint256) \<longleftrightarrow> uint x < uint b"
  by (simp add: word_less_def unsigned_ucast_eq take_bit_int_eq_self order_less_trans [OF uint_lt2p])

lemma validate_transaction_eq:
  assumes "t_gas_limit tx < 2 ^ 63"
  shows "validate_transaction acc block tx rvn = Inr g \<longleftrightarrow>
    valid_transaction acc block tx rvn \<and> g = t_gas_limit tx - compute_tx_intrinsic_cost rvn tx"
proof (cases "compute_tx_intrinsic_cost rvn tx \<le> t_gas_limit tx")
  case True
  then have "uint (uint256_of_int64 (t_gas_limit tx)) = t_gas_limit tx"
    using intrinsic_cost_min [of rvn tx] assms by (intro uint_int64) auto
  then show ?thesis using True
    by (auto simp: validate_transaction_def valid_transaction_def cost_limit_exact base_fee_less
        max_initcode_size_def max_code_size_def)
next
  case False
  then show ?thesis by (simp add: validate_transaction_def valid_transaction_def Let_def)
qed

lemma validated:
  assumes "validate_transaction acc block tx rvn = Inr g"
  shows "0 \<le> g" "g = t_gas_limit tx - compute_tx_intrinsic_cost rvn tx"
    "ucast (b_base_fee block) \<le> t_max_gas_price tx" "t_max_priority_gas_price tx \<le> t_max_gas_price tx"
    "nonce acc \<noteq> NonceMax"
    "uint (uint256_of_int64 (t_gas_limit tx)) * uint (t_max_gas_price tx) + uint (t_value tx) \<le> uint (balance acc)"
  using assms intrinsic_cost_min [of rvn tx]
  by (auto simp: validate_transaction_def Let_def cost_limit_exact split: if_splits)

section \<open>Prices\<close>

definition tip :: "StateBlockInfo \<Rightarrow> Transaction \<Rightarrow> uint256" where
  "tip block tx = min (t_max_priority_gas_price tx) (t_max_gas_price tx - ucast (b_base_fee block))"

definition price :: "StateBlockInfo \<Rightarrow> Transaction \<Rightarrow> uint256" where
  "price block tx = ucast (b_base_fee block) + tip block tx"

definition max_cost :: "StateBlockInfo \<Rightarrow> Transaction \<Rightarrow> uint256" where
  "max_cost block tx = uint256_of_int64 (t_gas_limit tx) * price block tx"

lemma price_bound:
  assumes "ucast (b_base_fee block) \<le> t_max_gas_price tx"
  shows "price block tx \<le> t_max_gas_price tx"
proof -
  let ?b = "ucast (b_base_fee block) :: uint256"
  have "tip block tx \<le> t_max_gas_price tx - ?b" by (simp add: tip_def)
  then have "uint (tip block tx) \<le> uint (t_max_gas_price tx) - uint ?b"
    using assms by (simp add: word_le_def uint_sub_ge uint_sub_if')
  then have "uint ?b + uint (tip block tx) \<le> uint (t_max_gas_price tx)" by simp
  moreover have "uint (price block tx) \<le> uint ?b + uint (tip block tx)"
    unfolding price_def by (rule uint_add_le)
  ultimately show ?thesis by (simp add: word_le_def)
qed

lemma max_cost_covered:
  assumes "validate_transaction acc block tx rvn = Inr g"
  shows "max_cost block tx \<le> balance acc" "t_value tx \<le> balance acc - max_cost block tx"
proof -
  let ?l = "uint256_of_int64 (t_gas_limit tx)"
  have "uint (price block tx) \<le> uint (t_max_gas_price tx)"
    using price_bound [OF validated(3) [OF assms]] by (simp add: word_le_def)
  then have "uint ?l * uint (price block tx) \<le> uint ?l * uint (t_max_gas_price tx)" by (intro mult_left_mono) auto
  then have le: "uint ?l * uint (price block tx) + uint (t_value tx) \<le> uint (balance acc)"
    using validated(6) [OF assms] by linarith
  have le0: "uint ?l * uint (price block tx) \<le> uint (balance acc)"
    using le unsigned_greater_eq [of "t_value tx", where 'a = int] by linarith
  then have "uint ?l * uint (price block tx) < 2 ^ 256" using uint_lt2p [of "balance acc"] by simp
  then have m: "uint (max_cost block tx) = uint ?l * uint (price block tx)"
    by (simp add: max_cost_def uint_word_ariths)
  then show c: "max_cost block tx \<le> balance acc" using le0 by (simp add: word_le_def)
  then have "uint (balance acc - max_cost block tx) = uint (balance acc) - uint (max_cost block tx)"
    by (simp add: uint_sub_if' word_le_def)
  then show "t_value tx \<le> balance acc - max_cost block tx" using m le by (simp add: word_le_def)
qed

section \<open>The parts of a transition\<close>

definition begin_host ::
  "StateBlockInfo \<Rightarrow> Transaction \<Rightarrow> revision \<Rightarrow> Account \<Rightarrow> State \<Rightarrow> precompile_cache \<Rightarrow> Host" where
  "begin_host block tx rvn acc S cache =
     \<lparr>m_rev = rvn, m_state = S(t_sender tx \<mapsto> acc\<lparr>balance := balance acc - max_cost block tx\<rparr>),
      m_block = block, m_transaction = tx, m_logs = [], m_cache = cache, out_of_depth = False\<rparr>"

lemma transition_invalid:
  "S (t_sender tx) = Some acc \<Longrightarrow> validate_transaction acc block tx rvn = Inl e \<Longrightarrow>
   transition_with precompile L S block tx rvn vm cache = Some (Inl e, S, cache)"
  by (simp add: transition_with_def state_get_def state_find_def)

text \<open>The assertions on the prices hold for a valid transaction.\<close>

lemma transition_valid:
  assumes "S (t_sender tx) = Some acc" and v: "validate_transaction acc block tx rvn = Inr g"
  shows "transition_with precompile L S block tx rvn vm cache = do {
    H \<leftarrow> warm_accounts block tx (begin_host block tx rvn acc S cache);
    (result, H) \<leftarrow> host_calls_with precompile L vm 1025 H (build_message tx g);
    (receipt, S) \<leftarrow> settle (lib_keccak256 L) block tx (price block tx) (tip block tx) result H;
    Some (Inr receipt, S, m_cache H) }"
  using assms validated(3,4) [OF v] price_bound [OF validated(3) [OF v]]
  by (simp add: transition_with_def state_get_def state_find_def begin_host_def max_cost_def
      price_def tip_def Let_def)

lemma warm_keys_same: "same_account acc (fold warm_key ks acc)"
proof (induction ks arbitrary: acc)
  case (Cons k ks)
  have "same_account acc (warm_key k acc)"
    by (simp add: same_account_def warm_key_def slot_set)
  then show ?case using same_account_trans Cons.IH by force
qed simp

lemma quiet_trans: "quiet H H1 \<Longrightarrow> quiet H1 H2 \<Longrightarrow> quiet H H2"
  by (auto simp: quiet_def intro: same_state_trans env_kept_trans)

lemma quiet_refl [simp]: "quiet H H"
  by (simp add: quiet_def)

lemma quiet_upd:
  "same_account (account_or_empty (m_state H) a) acc \<Longrightarrow> quiet H (H\<lparr>m_state := (m_state H)(a \<mapsto> acc)\<rparr>)"
  by (simp add: quiet_def env_kept_def same_state_upd del: fun_upd_apply)

lemma access_account_entry:
  assumes "Host_access_account H a = Some (r, H')"
  shows "m_state H' a \<noteq> None"
  using assms
  by (auto simp: Host_access_account_def state_get_or_insert_eq Let_def split: option.splits if_splits)

lemma access_account_ok: "\<exists>r H'. Host_access_account H a = Some (r, H') \<and> quiet H H' \<and> m_state H' a \<noteq> None"
  using access_account_Some [of H a] access_account_quiet access_account_entry by (metis surj_pair)

lemma warm_access_list_ok: "\<exists>H'. warm_access_list al H = Some H' \<and> quiet H H'"
proof (induction al arbitrary: H)
  case (Cons x al)
  obtain a ks where x: "x = (a, ks)" by (cases x)
  obtain r H1 acc where H1: "Host_access_account H a = Some (r, H1)" "quiet H H1" "m_state H1 a = Some acc"
    using access_account_ok [of H a] by auto
  let ?H = "H1\<lparr>m_state := (m_state H1)(a \<mapsto> fold warm_key ks acc)\<rparr>"
  have "quiet H1 ?H" using quiet_upd [of H1 a] warm_keys_same [of acc ks] H1(3) by simp
  then have "quiet H ?H" by (rule quiet_trans [OF H1(2)])
  moreover obtain H' where "warm_access_list al ?H = Some H'" "quiet ?H H'" using Cons.IH by blast
  ultimately show ?case using H1 x quiet_trans by (auto simp: state_get_def state_find_def)
qed simp

lemma warm_recipient_ok:
  "\<exists>H'. (case dst of None \<Rightarrow> Some H | Some a \<Rightarrow> do { (_, H) \<leftarrow> Host_access_account H a; Some H }) = Some H' \<and> quiet H H'"
proof (cases dst)
  case (Some a)
  obtain r H' where "Host_access_account H a = Some (r, H')" "quiet H H'" using access_account_ok by blast
  then show ?thesis using Some by simp
qed simp

lemma warm_accounts_ok:
  assumes "m_state H (t_sender tx) = Some acc"
  shows "\<exists>H'. warm_accounts block tx H = Some H' \<and> quiet H H'"
proof -
  let ?H = "H\<lparr>m_state := (m_state H)(t_sender tx \<mapsto> acc\<lparr>acc_access_status := ZVMC_ACCESS_WARM\<rparr>)\<rparr>"
  have "same_account acc (acc\<lparr>acc_access_status := ZVMC_ACCESS_WARM\<rparr>)"
    by (simp add: same_account_def slot_def)
  then have q: "quiet H ?H" using quiet_upd [of H "t_sender tx"] assms by simp
  obtain H1 where H1: "(case t_to tx of None \<Rightarrow> Some ?H
      | Some dst \<Rightarrow> do { (_, H) \<leftarrow> Host_access_account ?H dst; Some H }) = Some H1" "quiet ?H H1"
    using warm_recipient_ok [where dst = "t_to tx" and H = ?H] by blast
  obtain H2 where H2: "warm_access_list (t_access_list tx) H1 = Some H2" "quiet H1 H2"
    using warm_access_list_ok by blast
  obtain r H3 where H3: "Host_access_account H2 (b_coinbase block) = Some (r, H3)" "quiet H2 H3"
    using access_account_ok by blast
  have "warm_accounts block tx H = Some H3"
    using assms H1(1) H2(1) H3(1) by (simp add: warm_accounts_def state_get_def state_find_def Let_def)
  then show ?thesis using q H1(2) H2(2) H3(2) quiet_trans by blast
qed

lemma add_balance_eq:
  "add_balance a v S = Some (S(a \<mapsto> (account_or_empty S a)
     \<lparr>erasable := True, balance := balance (account_or_empty S a) + v\<rparr>))"
  by (simp add: add_balance_def state_touch_eq state_get_def state_find_def)

text \<open>The gas that a transaction is charged for: the refund is at most a fifth.\<close>

definition charged_gas :: "int \<Rightarrow> zvmc_result \<Rightarrow> int" where
  "charged_gas gas_limit result =
     (let used = gas_limit - res_gas_left result in used - min (res_gas_refund result) (used div 5))"

definition paid :: "StateBlockInfo \<Rightarrow> Transaction \<Rightarrow> int \<Rightarrow> Account \<Rightarrow> State \<Rightarrow> State" where
  "paid block tx used acc S = S(t_sender tx \<mapsto> acc\<lparr>balance := balance acc +
     (max_cost block tx - uint256_of_int64 used * price block tx)\<rparr>)"

text \<open>The state after the payments, and what it has of the state before them.\<close>

definition settled :: "StateBlockInfo \<Rightarrow> Transaction \<Rightarrow> int \<Rightarrow> Account \<Rightarrow> State \<Rightarrow> State" where
  "settled block tx used acc S =
     (let T = paid block tx used acc S; c = account_or_empty T (b_coinbase block)
      in T(b_coinbase block \<mapsto> c\<lparr>erasable := True, balance := balance c + uint256_of_int64 used * tip block tx\<rparr>))"

lemma sdiv_5: "0 \<le> g \<Longrightarrow> g sdiv 5 = (g :: int) div 5"
  by (simp add: signed_divide_int_def sgn_if)

lemma charged_min:
  assumes "res_gas_left result \<le> g" "g = gas_limit - compute_tx_intrinsic_cost rvn tx"
  shows "4 * compute_tx_intrinsic_cost rvn tx \<le> 5 * charged_gas gas_limit result"
proof -
  define u where "u = gas_limit - res_gas_left result"
  define q where "q = u div 5"
  have "5 * q \<le> u" "compute_tx_intrinsic_cost rvn tx \<le> u"
    using assms by (simp_all add: u_def q_def)
  then have "4 * compute_tx_intrinsic_cost rvn tx \<le> 5 * (u - min (res_gas_refund result) q)"
    by (simp add: min_def)
  then show ?thesis by (simp add: charged_gas_def Let_def u_def q_def)
qed

lemma charged_max:
  assumes "0 \<le> res_gas_left result" "0 \<le> res_gas_refund result" "res_gas_left result \<le> gas_limit"
  shows "charged_gas gas_limit result \<le> gas_limit"
proof -
  have "0 \<le> (gas_limit - res_gas_left result) div 5" using assms by simp
  then have "0 \<le> min (res_gas_refund result) ((gas_limit - res_gas_left result) div 5)" using assms by simp
  then show ?thesis using assms(1) unfolding charged_gas_def Let_def by linarith
qed

lemma settle_eq:
  assumes "m_state H (t_sender tx) = Some acc" "res_gas_left result \<le> g" "g = t_gas_limit tx - compute_tx_intrinsic_cost rvn tx"
  shows "settle k block tx (price block tx) (tip block tx) result H =
    (let used = charged_gas (t_gas_limit tx) result in
     Some (\<lparr>r_kind = t_kind tx, r_status = res_status result, r_gas_used = used, r_logs = m_logs H,
            r_logs_bloom_filter = compute_bloom_filter k (m_logs H)\<rparr>,
       erase_if destructed (settled block tx used acc (m_state H))))"
proof -
  let ?u = "t_gas_limit tx - res_gas_left result"
  have c: "?u - min (res_gas_refund result) (?u sdiv 5) = charged_gas (t_gas_limit tx) result"
    using assms(2,3) intrinsic_cost_min [of rvn tx] by (simp add: charged_gas_def Let_def sdiv_5)
  have "0 < charged_gas (t_gas_limit tx) result" using charged_min [OF assms(2,3)] intrinsic_cost_min [of rvn tx] by simp
  then show ?thesis using assms(1) unfolding settle_def Let_def c
    by (simp add: state_get_def state_find_def add_balance_eq settled_def paid_def max_cost_def Let_def)
qed

section \<open>Transitions\<close>

lemma build_message_simps [simp]:
  "gas (build_message tx g) = g" "depth (build_message tx g) = 0" "sender (build_message tx g) = t_sender tx"
  "\<not> is_static (build_message tx g)" "static_ok (build_message tx g)" "msg_value (build_message tx g) = t_value tx"
  by (simp_all add: build_message_def Let_def is_static_def static_ok_def)

lemma begin_host_simps [simp]:
  "m_state (begin_host block tx rvn acc S cache) =
     S(t_sender tx \<mapsto> acc\<lparr>balance := balance acc - max_cost block tx\<rparr>)"
  "m_logs (begin_host block tx rvn acc S cache) = []"
  by (simp_all add: begin_host_def)

lemma warmed_accepted:
  assumes v: "validate_transaction acc block tx rvn = Inr g"
    and q: "quiet (begin_host block tx rvn acc S cache) H"
  shows "accepted (build_message tx g) (m_state H)"
proof -
  have "m_state H (t_sender tx) \<noteq> None"
    "balance (account_or_empty (m_state H) (t_sender tx)) = balance acc - max_cost block tx"
    using quiet_account [OF q, of "t_sender tx"] by (simp_all add: account_or_empty_def)
  then show ?thesis using max_cost_covered(2) [OF v]
    by (auto simp: accepted_def build_message_def Let_def)
qed

context precompiled_contracts
begin

text \<open>A transition that runs a valid transaction, step by step.\<close>

lemma transition_steps:
  assumes vm: "vm_execute_ptr vm = Baseline_execute" and s: "S (t_sender tx) = Some acc"
    and v: "validate_transaction acc block tx rvn = Inr g"
    and t: "transition_with precompile L S block tx rvn vm cache = Some (r, S', cache')"
  obtains H1 p H2 result H3 acc3 receipt where "quiet (begin_host block tx rvn acc S cache) H1"
    and "prepare_message (lib_keccak256 L) (build_message tx g) H1 = Some (p, H2)"
    and "ledger False H1 0 H2" and "ledger False H2 (res_gas_refund result) H3"
    and "res_status result \<noteq> ZVMC_SUCCESS \<longrightarrow> quiet H2 H3"
    and "0 \<le> res_gas_left result" and "res_gas_left result \<le> g" and "m_state H3 (t_sender tx) = Some acc3"
    and "r = Inr receipt"
    and "settle (lib_keccak256 L) block tx (price block tx) (tip block tx) result H3 = Some (receipt, S')"
proof -
  let ?m = "build_message tx g"
  obtain H1 where w: "warm_accounts block tx (begin_host block tx rvn acc S cache) = Some H1"
      and q: "quiet (begin_host block tx rvn acc S cache) H1"
    using warm_accounts_ok [of "begin_host block tx rvn acc S cache" tx] by auto
  obtain result H3 receipt where c: "host_calls_with precompile L vm 1025 H1 ?m = Some (result, H3)"
    and e: "r = Inr receipt"
      "settle (lib_keccak256 L) block tx (price block tx) (tip block tx) result H3 = Some (receipt, S')"
    using t w unfolding transition_valid [where S = S, OF s v] by (auto split: bind_splits)
  have g: "0 \<le> gas ?m" using validated(1) [OF v] by simp
  obtain p H2 where p: "prepare_message (lib_keccak256 L) ?m H1 = Some (p, H2)"
    and l: "ledger False H2 (res_gas_refund result) H3" and f: "res_status result \<noteq> ZVMC_SUCCESS \<longrightarrow> quiet H2 H3"
    using calls_prepared [OF vm c g] by auto
  have l1: "ledger False H1 0 H2" using prepare_ledger [OF p] by simp
  have "m_state H1 (t_sender tx) \<noteq> None" using quiet_account(1) [OF q] by simp
  then obtain acc3 where "m_state H3 (t_sender tx) = Some acc3"
    using ledger_dom [OF l1] ledger_dom [OF l] by blast
  moreover have "0 \<le> res_gas_left result" "res_gas_left result \<le> g" using calls_gas [OF vm g c] by simp_all
  ultimately show ?thesis using that [OF q p l1 l] f e by blast
qed

theorem transition_ends:
  assumes vm: "vm_execute_ptr vm = Baseline_execute" and s: "S (t_sender tx) \<noteq> None"
    and total: "\<And>r m c. 0 \<le> gas m \<Longrightarrow> precompile r m c \<noteq> None"
  shows "transition_with precompile L S block tx rvn vm cache \<noteq> None"
proof -
  obtain acc where s: "S (t_sender tx) = Some acc" using s by blast
  show ?thesis
  proof (cases "validate_transaction acc block tx rvn")
    case (Inl e)
    then show ?thesis using transition_invalid s by force
  next
    case (Inr g)
    let ?m = "build_message tx g"
    obtain H1 where w: "warm_accounts block tx (begin_host block tx rvn acc S cache) = Some H1"
        and q: "quiet (begin_host block tx rvn acc S cache) H1"
      using warm_accounts_ok [of "begin_host block tx rvn acc S cache" tx] by auto
    have g: "0 \<le> gas ?m" using validated(1) [OF Inr] by simp
    have "host_calls_with precompile L vm 1025 H1 ?m \<noteq> None"
    proof (rule calls_do_return [OF vm _ g])
      show "precompile r m c \<noteq> None" if "0 \<le> gas m" for r m c by (rule total [OF that])
    qed (use warmed_accepted [OF Inr q] in simp_all)
    then obtain result H2 where c: "host_calls_with precompile L vm 1025 H1 ?m = Some (result, H2)" by auto
    have "m_state H1 (t_sender tx) \<noteq> None" using quiet_account(1) [OF q] by simp
    then obtain acc2 where a: "m_state H2 (t_sender tx) = Some acc2"
      using ledger_dom [OF calls_ledger [OF vm c g]] by auto
    have "settle (lib_keccak256 L) block tx (price block tx) (tip block tx) result H2 \<noteq> None"
      using settle_eq [OF a _ validated(2) [OF Inr], of result] calls_gas [OF vm g c] by (simp add: Let_def)
    then show ?thesis using w c transition_valid [where S = S, OF s Inr] by auto
  qed
qed

end

section \<open>The final state\<close>

lemma erase_none: "none_destructed S \<Longrightarrow> erase_if destructed S = S"
  by (rule ext) (auto simp: erase_if_def split: option.split dest: none_destructedE)

lemma settled_destructed:
  assumes "none_destructed S" "S (t_sender tx) = Some acc"
  shows "none_destructed (settled block tx used acc S)"
proof -
  have "\<not> destructed acc" using none_destructedE assms by blast
  then have "none_destructed (paid block tx used acc S)"
    unfolding paid_def using assms(1) by (intro none_destructed_upd) simp_all
  then show ?thesis
    unfolding settled_def Let_def by (intro none_destructed_upd) (simp_all add: none_destructed_def)
qed

lemma settled_account:
  assumes "S (t_sender tx) = Some acc"
  shows "nonce (account_or_empty (settled block tx used acc S) a) = nonce (account_or_empty S a)"
    "acc_code (account_or_empty (settled block tx used acc S) a) = acc_code (account_or_empty S a)"
    "storage (account_or_empty (settled block tx used acc S) a) = storage (account_or_empty S a)"
    "balance (account_or_empty (settled block tx used acc S) a) = balance (account_or_empty S a) +
       (if a = t_sender tx then max_cost block tx - uint256_of_int64 used * price block tx else 0) +
       (if a = b_coinbase block then uint256_of_int64 used * tip block tx else 0)"
  using assms by (auto simp: settled_def paid_def Let_def account_or_empty_def)

lemma settled_funds:
  assumes "finite (dom S)" "S (t_sender tx) = Some acc"
  shows "finite (dom (settled block tx used acc S)) \<and> total_balance (settled block tx used acc S) =
    total_balance S + max_cost block tx - uint256_of_int64 used * ucast (b_base_fee block)"
proof -
  have "finite (dom (paid block tx used acc S))" "total_balance (paid block tx used acc S) =
      total_balance S + (max_cost block tx - uint256_of_int64 used * price block tx)"
    using assms by (simp_all add: paid_def total_balance_upd del: fun_upd_apply)
  then show ?thesis
    by (simp add: settled_def Let_def total_balance_upd price_def algebra_simps del: fun_upd_apply)
qed

text \<open>The preparation of the message of a transaction counts the nonce of the sender.\<close>

lemma prepare_top:
  assumes p: "prepare_message k m H = Some (p, H2)" and d: "depth m = 0"
    and acc: "m_state H (sender m) = Some acc" "nonce acc \<noteq> NonceMax"
  shows "quiet (H\<lparr>m_state := (m_state H)(sender m \<mapsto> acc\<lparr>nonce := nonce acc + 1\<rparr>)\<rparr>) H2"
  using p d acc
  by (auto simp: prepare_message_def state_get_def state_find_def Let_def
      split: bind_splits if_splits dest: access_account_quiet)

context precompiled_contracts
begin

lemma transition_receipt:
  assumes vm: "vm_execute_ptr vm = Baseline_execute" and d: "none_destructed S"
    and t: "transition_with precompile L S block tx rvn vm cache = Some (Inr receipt, S', cache')"
  obtains acc g H1 p H2 result H3 acc3 where "S (t_sender tx) = Some acc"
    and "validate_transaction acc block tx rvn = Inr g"
    and "quiet (begin_host block tx rvn acc S cache) H1"
    and "prepare_message (lib_keccak256 L) (build_message tx g) H1 = Some (p, H2)"
    and "ledger False H1 0 H2" and "ledger False H2 (res_gas_refund result) H3"
    and "res_status result \<noteq> ZVMC_SUCCESS \<longrightarrow> quiet H2 H3"
    and "0 \<le> res_gas_left result" and "res_gas_left result \<le> g" and "m_state H3 (t_sender tx) = Some acc3"
    and "S' = settled block tx (r_gas_used receipt) acc3 (m_state H3)"
    and "r_gas_used receipt = charged_gas (t_gas_limit tx) result" and "r_status receipt = res_status result"
    and "r_logs receipt = m_logs H3" and "none_destructed S'"
    and "r_logs_bloom_filter receipt = compute_bloom_filter (lib_keccak256 L) (r_logs receipt)"
proof -
  obtain acc g where s: "S (t_sender tx) = Some acc" "validate_transaction acc block tx rvn = Inr g"
    using t by (auto simp: transition_with_def state_get_def state_find_def split: bind_splits sum.splits)
  obtain H1 p H2 result H3 acc3 where h: "quiet (begin_host block tx rvn acc S cache) H1"
    "prepare_message (lib_keccak256 L) (build_message tx g) H1 = Some (p, H2)"
    "ledger False H1 0 H2" "ledger False H2 (res_gas_refund result) H3"
    "res_status result \<noteq> ZVMC_SUCCESS \<longrightarrow> quiet H2 H3"
    "0 \<le> res_gas_left result" "res_gas_left result \<le> g" "m_state H3 (t_sender tx) = Some acc3"
    "settle (lib_keccak256 L) block tx (price block tx) (tip block tx) result H3 = Some (receipt, S')"
    using transition_steps [where S = S, OF vm s t] by (metis sum.inject(2))
  have "none_destructed (m_state (begin_host block tx rvn acc S cache))"
    using none_destructed_step [of S "t_sender tx", OF d s(1)] by (simp del: fun_upd_apply)
  then have n: "none_destructed (m_state H3)"
    using none_destructed_quiet h(1) ledger_destructed [OF h(3)] ledger_destructed [OF h(4)] by (auto simp: quiet_def)
  have e: "erase_if destructed (settled block tx u acc3 (m_state H3)) = settled block tx u acc3 (m_state H3)" for u
    using erase_none settled_destructed n h(8) by blast
  show ?thesis
    using that [OF s h(1-8)] h(9) settle_eq [OF h(8,7) validated(2) [OF s(2)]] e
      settled_destructed [of "m_state H3", OF n h(8)]
    by (auto simp: Let_def)
qed

theorem transition_gas:
  assumes vm: "vm_execute_ptr vm = Baseline_execute" and d: "none_destructed S"
    and t: "transition_with precompile L S block tx rvn vm cache = Some (Inr receipt, S', cache')"
  shows "4 * compute_tx_intrinsic_cost rvn tx \<le> 5 * r_gas_used receipt \<and>
    (fresh_slots S \<longrightarrow> r_gas_used receipt \<le> t_gas_limit tx)"
proof (rule transition_receipt [OF vm d t])
  fix acc g H1 p H2 result H3 acc3
  assume h: "S (t_sender tx) = Some acc" "validate_transaction acc block tx rvn = Inr g"
    "quiet (begin_host block tx rvn acc S cache) H1" "ledger False H1 0 H2"
    "ledger False H2 (res_gas_refund result) H3" "0 \<le> res_gas_left result" "res_gas_left result \<le> g"
    "r_gas_used receipt = charged_gas (t_gas_limit tx) result"
  have "r_gas_used receipt \<le> t_gas_limit tx" if f: "fresh_slots S"
  proof -
    have "cleared (m_state H1) = {}"
      using cleared_quiet [of "m_state (begin_host block tx rvn acc S cache)" "m_state H1"] h(3)
        cleared_upd [of S "t_sender tx", OF h(1)] fresh_cleared [OF f] by (simp add: quiet_def del: fun_upd_apply)
    then have "0 \<le> res_gas_refund result"
      using ledger_refund [OF ledger_trans [OF h(5,4)]] by simp
    then show ?thesis
      using charged_max h(6-8) validated(2) [OF h(2)] intrinsic_cost_min [of rvn tx] by simp
  qed
  then show ?thesis using charged_min [OF h(7) validated(2) [OF h(2)]] h(8) by simp
qed

theorem transition_funds:
  assumes vm: "vm_execute_ptr vm = Baseline_execute" and d: "none_destructed S"
    and t: "transition_with precompile L S block tx rvn vm cache = Some (Inr receipt, S', cache')"
  shows "total_balance S' = total_balance S - uint256_of_int64 (r_gas_used receipt) * ucast (b_base_fee block)"
proof (rule transition_receipt [OF vm d t])
  fix acc g H1 p H2 result H3 acc3
  assume h: "S (t_sender tx) = Some acc" "quiet (begin_host block tx rvn acc S cache) H1" "ledger False H1 0 H2"
    "ledger False H2 (res_gas_refund result) H3" "m_state H3 (t_sender tx) = Some acc3"
    "S' = settled block tx (r_gas_used receipt) acc3 (m_state H3)"
  let ?B = "m_state (begin_host block tx rvn acc S cache)"
  have "finite (dom ?B)" "total_balance ?B = total_balance S - max_cost block tx"
    using h(1) by (simp_all add: total_balance_upd del: fun_upd_apply)
  moreover have "funds_kept ?B (m_state H3)"
    using funds_kept_quiet [of ?B "m_state H1"] ledger_funds [OF h(3)] ledger_funds [OF h(4)] h(2)
    unfolding quiet_def by (blast intro: funds_kept_trans)
  ultimately show ?thesis using settled_funds [of "m_state H3", OF _ h(5)] h(6) by (simp add: funds_kept_def)
qed

lemma transition_keeps:
  assumes vm: "vm_execute_ptr vm = Baseline_execute" and d: "none_destructed S"
    and t: "transition_with precompile L S block tx rvn vm cache = Some (Inr receipt, S', cache')"
  shows "none_destructed S'" "dom S \<subseteq> dom S'"
    "r_logs_bloom_filter receipt = compute_bloom_filter (lib_keccak256 L) (r_logs receipt)"
proof -
  show "dom S \<subseteq> dom S'"
  proof (rule transition_receipt [OF vm d t])
    fix acc g H1 p H2 result H3 acc3
    assume h: "quiet (begin_host block tx rvn acc S cache) H1" "ledger False H1 0 H2"
      "ledger False H2 (res_gas_refund result) H3" "S' = settled block tx (r_gas_used receipt) acc3 (m_state H3)"
    have "dom (m_state H1) \<subseteq> dom (m_state H3)"
      using ledger_nonces [OF h(2)] ledger_nonces [OF h(3)] unfolding nonces_grow_def by blast
    moreover have "dom S \<subseteq> dom (m_state H1)" using h(1) by (auto simp: quiet_def same_state_def)
    moreover have "dom (m_state H3) \<subseteq> dom S'" unfolding h(4) by (auto simp: settled_def paid_def Let_def)
    ultimately show ?thesis by blast
  qed
qed (rule transition_receipt [OF vm d t]; assumption)+

theorem transition_nonce:
  assumes vm: "vm_execute_ptr vm = Baseline_execute" and d: "none_destructed S"
    and t: "transition_with precompile L S block tx rvn vm cache = Some (Inr receipt, S', cache')"
  shows "nonce (account_or_empty S (t_sender tx)) < nonce (account_or_empty S' (t_sender tx))"
proof (rule transition_receipt [OF vm d t])
  fix acc g H1 p H2 result H3 acc3
  assume h: "S (t_sender tx) = Some acc" "validate_transaction acc block tx rvn = Inr g"
    "quiet (begin_host block tx rvn acc S cache) H1"
    "prepare_message (lib_keccak256 L) (build_message tx g) H1 = Some (p, H2)"
    "ledger False H2 (res_gas_refund result) H3" "m_state H3 (t_sender tx) = Some acc3"
    "S' = settled block tx (r_gas_used receipt) acc3 (m_state H3)"
  let ?s = "t_sender tx"
  obtain acc1 where a: "m_state H1 ?s = Some acc1" "nonce acc1 = nonce acc"
    using quiet_account [OF h(3), of ?s] by (auto simp: account_or_empty_def)
  have n: "nonce acc \<noteq> NonceMax" by (rule validated(5) [OF h(2)])
  have "nonce (account_or_empty (m_state H2) ?s) = nonce acc + 1"
    using quiet_account(3) [OF prepare_top [OF h(4)], of acc1 ?s] a n by (simp add: account_or_empty_def)
  moreover have "nonce (account_or_empty (m_state H2) ?s) \<le> nonce (account_or_empty S' ?s)"
    using ledger_nonces [OF h(5)] settled_account(1) [of "m_state H3", OF h(6)] h(7) by (simp add: nonces_grow_def)
  moreover have "nonce acc < nonce acc + 1"
    using nonce_increment [OF n] by (metis add_cancel_left_right order_le_less zero_neq_one)
  ultimately show ?thesis using h(1) by (simp add: account_or_empty_def)
qed

theorem transition_failure:
  assumes vm: "vm_execute_ptr vm = Baseline_execute" and d: "none_destructed S"
    and t: "transition_with precompile L S block tx rvn vm cache = Some (Inr receipt, S', cache')"
    and f: "r_status receipt \<noteq> ZVMC_SUCCESS"
  shows "r_logs receipt = [] \<and>
    nonce (account_or_empty S' a) = nonce (account_or_empty S a) + (if a = t_sender tx then 1 else 0) \<and>
    acc_code (account_or_empty S' a) = acc_code (account_or_empty S a) \<and>
    sv_current (slot k (account_or_empty S' a)) = sv_current (slot k (account_or_empty S a)) \<and>
    balance (account_or_empty S' a) = balance (account_or_empty S a)
      - (if a = t_sender tx then uint256_of_int64 (r_gas_used receipt) * price block tx else 0)
      + (if a = b_coinbase block then uint256_of_int64 (r_gas_used receipt) * tip block tx else 0)"
proof (rule transition_receipt [OF vm d t])
  fix acc g H1 p H2 result H3 acc3
  assume h: "S (t_sender tx) = Some acc" "validate_transaction acc block tx rvn = Inr g"
    "quiet (begin_host block tx rvn acc S cache) H1"
    "prepare_message (lib_keccak256 L) (build_message tx g) H1 = Some (p, H2)"
    "res_status result \<noteq> ZVMC_SUCCESS \<longrightarrow> quiet H2 H3" "m_state H3 (t_sender tx) = Some acc3"
    "S' = settled block tx (r_gas_used receipt) acc3 (m_state H3)" "r_status receipt = res_status result"
    "r_logs receipt = m_logs H3"
  let ?s = "t_sender tx"
  obtain acc1 where a: "m_state H1 ?s = Some acc1" "nonce acc1 = nonce acc"
    using quiet_account [OF h(3), of ?s] by (auto simp: account_or_empty_def)
  let ?H = "H1\<lparr>m_state := (m_state H1)(?s \<mapsto> acc1\<lparr>nonce := nonce acc1 + 1\<rparr>)\<rparr>"
  have "quiet ?H H2" using prepare_top [OF h(4)] a validated(5) [OF h(2)] by simp
  then have q: "quiet ?H H3" using h(5,8) f quiet_trans by simp
  have B: "same_account (account_or_empty (m_state (begin_host block tx rvn acc S cache)) a) (account_or_empty (m_state H1) a)"
    and H: "same_account (account_or_empty (m_state ?H) a) (account_or_empty (m_state H3) a)"
    using h(3) q by (simp_all add: quiet_def same_state_def del: fun_upd_apply)
  have "m_logs H3 = []" using q h(3) by (simp add: quiet_def)
  then show ?thesis using B H h(1,7,9) a settled_account [of "m_state H3", OF h(6), of block "r_gas_used receipt" a]
    by (auto simp: same_account_def account_or_empty_def slot_def split: if_splits)
qed

end

section \<open>The end of a block\<close>

lemma get_amount_exact: "uint (get_amount w) = uint (amount_in_gplanck w) * 10 ^ 9"
proof -
  let ?a = "amount_in_gplanck w"
  have u: "uint (ucast ?a :: uint256) = uint ?a" by (rule uint_up_ucast) (simp add: is_up)
  have "uint ?a * 1000000000 < 2 ^ 64 * 1000000000" using uint_lt2p [of ?a] by simp
  then have "uint ?a * 1000000000 mod 2 ^ 256 = uint ?a * 1000000000"
    by (intro mod_pos_pos_trivial) simp_all
  then show ?thesis by (simp add: get_amount_def uint_word_ariths u)
qed

lemma account_erase:
  "account_or_empty (erase_if (\<lambda>acc. erasable acc \<and> is_empty acc) S) a =
     (if erasable (account_or_empty S a) \<and> is_empty (account_or_empty S a) then empty_account else account_or_empty S a)"
  by (auto simp: account_or_empty_def erase_if_def empty_account_def split: option.split)

lemma dom_erase: "dom (erase_if p S) = {a \<in> dom S. \<not> p (the (S a))}"
  by (auto simp: erase_if_def dom_def split: option.splits)

lemma erase_funds:
  assumes "finite (dom S)"
  shows "total_balance (erase_if (\<lambda>acc. erasable acc \<and> is_empty acc) S) = total_balance S"
proof -
  let ?E = "erase_if (\<lambda>acc. erasable acc \<and> is_empty acc) S"
  have "balance (account_or_empty ?E a) = balance (account_or_empty S a)" for a
    unfolding account_erase by (auto simp: is_empty_def empty_account_def)
  then show ?thesis
    using total_balance_eq [OF assms, of ?E] total_balance_eq [OF assms, of S] by (simp add: dom_erase)
qed

text \<open>What a list of withdrawals gives to an account.\<close>

definition withdrawn :: "Withdrawal list \<Rightarrow> address \<Rightarrow> uint256" where
  "withdrawn ws a = sum_list (map get_amount (filter (\<lambda>w. w_recipient w = a) ws))"

lemma apply_withdrawals_spec:
  "\<exists>S'. apply_withdrawals ws S = Some S' \<and> dom S' = dom S \<union> w_recipient ` set ws \<and>
     (\<forall>a. balance (account_or_empty S' a) = balance (account_or_empty S a) + withdrawn ws a \<and>
        nonce (account_or_empty S' a) = nonce (account_or_empty S a) \<and>
        acc_code (account_or_empty S' a) = acc_code (account_or_empty S a) \<and>
        storage (account_or_empty S' a) = storage (account_or_empty S a)) \<and>
     total_balance S' = total_balance S + sum_list (map get_amount ws)"
proof (induction ws arbitrary: S)
  case (Cons w ws)
  let ?a = "w_recipient w"
  let ?S = "S(?a \<mapsto> (account_or_empty S ?a)\<lparr>erasable := True, balance := balance (account_or_empty S ?a) + get_amount w\<rparr>)"
  have e: "apply_withdrawals (w # ws) S = apply_withdrawals ws ?S" by (simp add: add_balance_eq)
  have t: "total_balance ?S = total_balance S + get_amount w"
    by (simp add: total_balance_upd del: fun_upd_apply)
  have a: "balance (account_or_empty ?S a) = balance (account_or_empty S a) + (if a = ?a then get_amount w else 0)"
    "nonce (account_or_empty ?S a) = nonce (account_or_empty S a)"
    "acc_code (account_or_empty ?S a) = acc_code (account_or_empty S a)"
    "storage (account_or_empty ?S a) = storage (account_or_empty S a)" for a
    by (simp_all add: account_or_empty_def)
  have w: "withdrawn (w # ws) a = (if a = ?a then get_amount w else 0) + withdrawn ws a" for a
    by (simp add: withdrawn_def)
  have d: "dom ?S = insert ?a (dom S)" by simp
  show ?case using Cons.IH [of ?S] unfolding e a d w by (auto simp: t add.assoc simp del: fun_upd_apply)
qed (simp add: withdrawn_def)

text \<open>\<open>finalize\<close> removes the touched accounts that are empty and pays the withdrawals.\<close>

theorem finalize_spec:
  "\<exists>S'. finalize S rvn ws = Some S' \<and>
     (\<forall>a. S' a = None \<longleftrightarrow> a \<notin> w_recipient ` set ws \<and>
        (S a = None \<or> erasable (account_or_empty S a) \<and> is_empty (account_or_empty S a))) \<and>
     (\<forall>a. balance (account_or_empty S' a) = balance (account_or_empty S a) + withdrawn ws a \<and>
        nonce (account_or_empty S' a) = nonce (account_or_empty S a) \<and>
        acc_code (account_or_empty S' a) = acc_code (account_or_empty S a)) \<and>
     total_balance S' = total_balance S + sum_list (map get_amount ws)"
proof -
  let ?E = "erase_if (\<lambda>acc. erasable acc \<and> is_empty acc) S"
  obtain S' where S': "apply_withdrawals ws ?E = Some S'" "dom S' = dom ?E \<union> w_recipient ` set ws"
    and acc: "\<And>a. balance (account_or_empty S' a) = balance (account_or_empty ?E a) + withdrawn ws a"
      "\<And>a. nonce (account_or_empty S' a) = nonce (account_or_empty ?E a)"
      "\<And>a. acc_code (account_or_empty S' a) = acc_code (account_or_empty ?E a)"
    and tot: "total_balance S' = total_balance ?E + sum_list (map get_amount ws)"
    using apply_withdrawals_spec [of ws ?E] by (elim exE conjE) simp
  have gone: "S' a = None \<longleftrightarrow> a \<notin> w_recipient ` set ws \<and>
      (S a = None \<or> erasable (account_or_empty S a) \<and> is_empty (account_or_empty S a))" for a
  proof -
    have "a \<notin> dom S' \<longleftrightarrow> a \<notin> dom ?E \<and> a \<notin> w_recipient ` set ws" unfolding S'(2) by blast
    then have "S' a = None \<longleftrightarrow> a \<notin> dom ?E \<and> a \<notin> w_recipient ` set ws" by (simp only: domIff not_not)
    then show ?thesis unfolding dom_erase by (cases "S a") (auto simp: account_or_empty_def)
  qed
  have kept: "balance (account_or_empty S' a) = balance (account_or_empty S a) + withdrawn ws a"
      "nonce (account_or_empty S' a) = nonce (account_or_empty S a)"
      "acc_code (account_or_empty S' a) = acc_code (account_or_empty S a)" for a
    using acc [of a] unfolding account_erase [of S a] by (simp_all add: is_empty_def empty_account_def split: if_splits)
  have total: "total_balance S' = total_balance S + sum_list (map get_amount ws)"
    using tot erase_funds [of S] by (simp add: dom_erase)
  show ?thesis
    unfolding finalize_def by (intro exI [of _ S'] conjI allI) (rule S'(1) gone kept total)+
qed

end
