(* ===== verification/Zvm_Mpt.thy ===== *)
theory Zvm_Mpt
  imports Zvm_Rlp "HOL-Library.Sublist"
begin

text \<open>
  The insert-only Merkle Patricia trie (\<open>test/state/mpt.cpp\<close>).  A violated \<open>assert\<close> and a
  null pointer are \<open>None\<close>.  The specification of a trie is the map from paths to values that
  it represents; a well-formed trie is determined by its map, so that the root hash does not
  depend on the order of the insertions.
\<close>

section \<open>Paths\<close>

text \<open>
  The nibbles of a \<open>Path\<close> up to its length; the rest of the array of 64 nibbles is zero.
\<close>

type_synonym Path = "byte list"

definition nibble :: "Path \<Rightarrow> nat \<Rightarrow> nat" where
  "nibble p i = (if i < length p then unat (p ! i) else 0)"

definition Path_of_key :: "bytes \<Rightarrow> Path option" where
  "Path_of_key key =
     (if \<not> 2 * length key \<le> 64 then None
      else Some (concat (map (\<lambda>b. [drop_bit 4 b, b AND 0x0f]) key)))"

definition Path_tail :: "Path \<Rightarrow> nat \<Rightarrow> Path option" where
  "Path_tail p pos = (if pos > 0 \<and> pos \<le> length p then Some (drop pos p) else None)"

definition Path_head :: "Path \<Rightarrow> nat \<Rightarrow> Path option" where
  "Path_head p n = (if n < length p then Some (take n p) else None)"

text \<open>The loop of \<open>Path::encode\<close>, which takes two nibbles at a time.\<close>

fun encode_nibbles :: "Path \<Rightarrow> bytes option" where
  "encode_nibbles [] = Some []"
| "encode_nibbles [h] = (if h \<le> 0x0f then Some [push_bit 4 h] else None)"
| "encode_nibbles (h # l # ns) =
     (if h \<le> 0x0f \<and> l \<le> 0x0f
      then do { bs \<leftarrow> encode_nibbles ns; Some ((push_bit 4 h OR l) # bs) } else None)"

definition Path_encode :: "Path \<Rightarrow> bool \<Rightarrow> bytes option" where
  "Path_encode p extended = do {
     let is_even = length p mod 2 = 0;
     let b = (if is_even then 0x00 else 0x10 OR (p ! 0));
     bs \<leftarrow> encode_nibbles (drop (if is_even then 0 else 1) p);
     Some ((if \<not> extended then b OR 0x20 else b) # bs) }"

section \<open>Nodes\<close>

datatype Kind = Kind_leaf | Kind_ext | Kind_branch

datatype MPTNode =
  MPTNode (m_kind: Kind) (m_path: Path) (m_value: bytes) (m_children: "MPTNode option list")

definition num_children :: nat where
  "num_children = 16"

definition no_children :: "MPTNode option list" where
  "no_children = replicate num_children None"

definition MPTNode_leaf :: "Path \<Rightarrow> bytes \<Rightarrow> MPTNode" where
  "MPTNode_leaf path v = MPTNode Kind_leaf path v no_children"

definition MPTNode_ext :: "Path \<Rightarrow> MPTNode option \<Rightarrow> MPTNode option" where
  "MPTNode_ext path child = do {
     c \<leftarrow> child;
     if m_kind c \<noteq> Kind_branch then None
     else Some (MPTNode Kind_ext path [] (no_children[0 := Some c])) }"

definition optional_ext :: "Path \<Rightarrow> MPTNode option \<Rightarrow> MPTNode option option" where
  "optional_ext path child =
     (if length path \<noteq> 0 then map_option Some (MPTNode_ext path child) else Some child)"

definition ext_branch ::
  "Path \<Rightarrow> nat \<Rightarrow> MPTNode option \<Rightarrow> nat \<Rightarrow> MPTNode option \<Rightarrow> MPTNode option" where
  "ext_branch path idx1 child1 idx2 child2 =
     (if \<not> (idx1 \<noteq> idx2 \<and> idx1 < num_children \<and> idx2 < num_children) then None
      else
        let br = MPTNode Kind_branch [] [] (no_children[idx1 := child1, idx2 := child2])
        in if length path \<noteq> 0 then MPTNode_ext path (Some br) else Some br)"

definition mismatch :: "Path \<Rightarrow> Path \<Rightarrow> nat option" where
  "mismatch p1 p2 =
     (if \<not> length p1 \<le> length p2 then None
      else Some (length (takeWhile (\<lambda>(x, y). x = y) (zip p1 p2))))"

text \<open>
  The part of an insertion that two cases share: the node is split at the first difference
  of its path and the new path.
\<close>

definition split_node ::
  "Path \<Rightarrow> Path \<Rightarrow> bytes \<Rightarrow> nat \<Rightarrow> (Path \<Rightarrow> MPTNode option option) \<Rightarrow> MPTNode option" where
  "split_node node_path path v mismatch_pos orig = do {
     let orig_idx = nibble node_path mismatch_pos;
     let new_idx = nibble path mismatch_pos;
     orig_tail \<leftarrow> Path_tail node_path (mismatch_pos + 1);
     orig_node \<leftarrow> orig orig_tail;
     new_tail \<leftarrow> Path_tail path (mismatch_pos + 1);
     orig_head \<leftarrow> Path_head node_path mismatch_pos;
     ext_branch orig_head orig_idx orig_node new_idx (Some (MPTNode_leaf new_tail v)) }"

lemma mismatch_le: "mismatch p1 p2 = Some n \<Longrightarrow> n \<le> length p1 \<and> length p1 \<le> length p2"
  using length_takeWhile_le [of "\<lambda>(x, y). x = y" "zip p1 p2"]
  by (auto simp: mismatch_def split: if_splits)

lemma Path_tail_shorter: "Path_tail p n = Some q \<Longrightarrow> length q < length p"
  by (auto simp: Path_tail_def split: if_splits)

function MPTNode_insert :: "MPTNode \<Rightarrow> Path \<Rightarrow> bytes \<Rightarrow> MPTNode option" where
  "MPTNode_insert node path v =
     (case m_kind node of
        Kind_branch \<Rightarrow>
          if length (m_path node) \<noteq> 0 then None
          else do {
            let idx = nibble path 0;
            if \<not> idx < length (m_children node) then None
            else do {
              path' \<leftarrow> Path_tail path 1;
              child \<leftarrow> (case m_children node ! idx of
                  None \<Rightarrow> Some (MPTNode_leaf path' v)
                | Some c \<Rightarrow> MPTNode_insert c path' v);
              Some (MPTNode Kind_branch (m_path node) (m_value node)
                      ((m_children node)[idx := Some child])) } }
      | Kind_ext \<Rightarrow>
          if length (m_path node) = 0 then None
          else do {
            mismatch_pos \<leftarrow> mismatch (m_path node) path;
            if mismatch_pos = length (m_path node)
            then do {
              c \<leftarrow> m_children node ! 0;
              path' \<leftarrow> Path_tail path mismatch_pos;
              child \<leftarrow> MPTNode_insert c path' v;
              Some (MPTNode Kind_ext (m_path node) (m_value node)
                      ((m_children node)[0 := Some child])) }
            else split_node (m_path node) path v mismatch_pos
                   (\<lambda>p. optional_ext p (m_children node ! 0)) }
      | Kind_leaf \<Rightarrow>
          if length (m_path node) = 0 then None
          else do {
            mismatch_pos \<leftarrow> mismatch (m_path node) path;
            if mismatch_pos = length (m_path node) then None
            else split_node (m_path node) path v mismatch_pos
                   (\<lambda>p. Some (Some (MPTNode_leaf p (m_value node)))) })"
  by pat_completeness auto
termination
  by (relation "measure (\<lambda>(node, path, v). length path)")
     (auto dest: Path_tail_shorter)

declare MPTNode_insert.simps [simp del]

text \<open>
  \<open>MPTNode::hash\<close>.  A hash is a 256-bit number; its 32 bytes are the most significant first.
\<close>

primrec MPTNode_hash :: "(bytes \<Rightarrow> uint256) \<Rightarrow> MPTNode \<Rightarrow> uint256 option" where
  "MPTNode_hash keccak256 (MPTNode kind path v children) =
     (let hashes = map (map_option (MPTNode_hash keccak256)) children in
      case kind of
        Kind_leaf \<Rightarrow> do {
          p \<leftarrow> Path_encode path False;
          e \<leftarrow> encode_tuple [encode_bytes p, encode_bytes v];
          Some (keccak256 e) }
      | Kind_branch \<Rightarrow>
          if length path \<noteq> 0 then None
          else do {
            e \<leftarrow> encode_container
              (map (\<lambda>h. case h of None \<Rightarrow> encode_bytes []
                     | Some child_hash \<Rightarrow> child_hash \<bind> (\<lambda>x. encode_bytes (be_store 32 x))) hashes
               @ [encode_bytes []]);
            Some (keccak256 e) }
      | Kind_ext \<Rightarrow> do {
          p \<leftarrow> Path_encode path True;
          h \<leftarrow> (case hashes ! 0 of None \<Rightarrow> None | Some child_hash \<Rightarrow> child_hash);
          e \<leftarrow> encode_tuple [encode_bytes p, encode_bytes (be_store 32 h)];
          Some (keccak256 e) })"

section \<open>Tries\<close>

type_synonym MPT = "MPTNode option"

definition MPT_insert :: "MPT \<Rightarrow> bytes \<Rightarrow> bytes \<Rightarrow> MPT option" where
  "MPT_insert m_root key v = do {
     path \<leftarrow> Path_of_key key;
     (case m_root of
        None \<Rightarrow> Some (Some (MPTNode_leaf path v))
      | Some root \<Rightarrow> map_option Some (MPTNode_insert root path v)) }"

definition emptyMPTHash :: uint256 where
  "emptyMPTHash = 0x56e81f171bcc55a6ff8345e692c0f86e5b48e01b996cadc001622fb5e363b421"

definition MPT_hash :: "(bytes \<Rightarrow> uint256) \<Rightarrow> MPT \<Rightarrow> uint256 option" where
  "MPT_hash keccak256 m_root =
     (case m_root of None \<Rightarrow> Some emptyMPTHash | Some root \<Rightarrow> MPTNode_hash keccak256 root)"

section \<open>The map of a trie\<close>

primrec trie_map :: "MPTNode \<Rightarrow> Path \<Rightarrow> bytes option" where
  "trie_map (MPTNode kind path v children) =
     (let ms = map (map_option trie_map) children in
      case kind of
        Kind_leaf \<Rightarrow> (\<lambda>p. if p = path then Some v else None)
      | Kind_branch \<Rightarrow> (\<lambda>p. case p of [] \<Rightarrow> None
          | x # q \<Rightarrow> if unat x < length ms then (case ms ! unat x of None \<Rightarrow> None | Some m \<Rightarrow> m q) else None)
      | Kind_ext \<Rightarrow> (\<lambda>p. if prefix path p
          then (case ms ! 0 of None \<Rightarrow> None | Some m \<Rightarrow> m (drop (length path) p)) else None))"

text \<open>
  Well-formed tries: a leaf has no children, an extension has a path and a branch below it, a
  branch has two children at least, and all nibbles are below 16.
\<close>

abbreviation nibbles_ok :: "Path \<Rightarrow> bool" where
  "nibbles_ok p \<equiv> \<forall>x \<in> set p. unat x < num_children"

inductive wf_trie :: "MPTNode \<Rightarrow> bool" where
  wf_leaf: "nibbles_ok p \<Longrightarrow> wf_trie (MPTNode_leaf p v)"
| wf_ext: "nibbles_ok p \<Longrightarrow> p \<noteq> [] \<Longrightarrow> wf_trie c \<Longrightarrow> m_kind c = Kind_branch \<Longrightarrow>
    wf_trie (MPTNode Kind_ext p [] (no_children[0 := Some c]))"
| wf_branch: "length cs = num_children \<Longrightarrow> i < j \<Longrightarrow> j < num_children \<Longrightarrow> cs ! i \<noteq> None \<Longrightarrow> cs ! j \<noteq> None \<Longrightarrow>
    (\<And>k c. k < num_children \<Longrightarrow> cs ! k = Some c \<Longrightarrow> wf_trie c) \<Longrightarrow> wf_trie (MPTNode Kind_branch [] [] cs)"

lemma trie_map_leaf [simp]: "trie_map (MPTNode_leaf p v) = [p \<mapsto> v]"
  by (auto simp: MPTNode_leaf_def fun_eq_iff)

lemma m_kind_leaf [simp]: "m_kind (MPTNode_leaf p v) = Kind_leaf"
  by (simp add: MPTNode_leaf_def)

lemma no_children_simps [simp]:
  "length no_children = num_children" "0 < num_children" "i < num_children \<Longrightarrow> no_children ! i = None"
  by (simp_all add: no_children_def num_children_def)

lemma trie_map_ext:
  "trie_map (MPTNode Kind_ext p w (no_children[0 := Some c])) =
     (\<lambda>q. if prefix p q then trie_map c (drop (length p) q) else None)"
  by (simp add: fun_eq_iff)

lemma trie_map_branch_Cons:
  "length cs = num_children \<Longrightarrow> unat x < num_children \<Longrightarrow>
   trie_map (MPTNode Kind_branch p w cs) (x # q) =
     (case cs ! unat x of None \<Rightarrow> None | Some c \<Rightarrow> trie_map c q)"
  by (simp split: option.split)


lemma trie_map_branch_Nil [simp]: "trie_map (MPTNode Kind_branch p w cs) [] = None"
  by simp

declare trie_map.simps [simp del]

lemma unat_nibble: "i < num_children \<Longrightarrow> unat (of_nat i :: byte) = i"
  by (simp add: unat_of_nat num_children_def)

lemma mismatch_spec:
  assumes "mismatch p q = Some n"
  shows "n \<le> length p" "length p \<le> length q" "take n p = take n q" "n < length p \<Longrightarrow> p ! n \<noteq> q ! n"
proof -
  let ?w = "takeWhile (\<lambda>(x, y). x = y) (zip p q)"
  have n: "n = length ?w" and le: "length p \<le> length q"
    using assms by (auto simp: mismatch_def split: if_splits)
  then show "n \<le> length p" "length p \<le> length q" using mismatch_le [OF assms] by simp_all
  have "p ! i = q ! i" if "i < n" for i
    using that n le \<open>n \<le> length p\<close> set_takeWhileD [of "?w ! i" "\<lambda>(x, y). x = y" "zip p q"]
      takeWhile_nth [of i "\<lambda>(x, y). x = y" "zip p q"] nth_mem [of i ?w] by auto
  then show "take n p = take n q"
    using \<open>n \<le> length p\<close> le by (auto intro: nth_equalityI)
  show "p ! n \<noteq> q ! n" if "n < length p"
    using nth_length_takeWhile [of "\<lambda>(x, y). x = y" "zip p q"] that n le by simp
qed

lemma mismatch_same: "mismatch p (p @ r) = Some (length p)"
proof -
  have "length (takeWhile (\<lambda>(x, y). x = y) (map (\<lambda>x. (x, x)) p)) = length p"
    by (induction p) auto
  moreover have "zip p (p @ r) = map (\<lambda>x. (x, x)) p"
    by (simp add: zip_append2 zip_same_conv_map)
  ultimately show ?thesis by (simp add: mismatch_def)
qed

lemma mismatch_Some: "length p \<le> length q \<Longrightarrow> \<exists>n. mismatch p q = Some n"
  by (simp add: mismatch_def)

section \<open>Insertion\<close>

text \<open>The map of a new branch, possibly below an extension.\<close>

definition fork_map ::
  "Path \<Rightarrow> nat \<Rightarrow> (Path \<Rightarrow> bytes option) \<Rightarrow> nat \<Rightarrow> (Path \<Rightarrow> bytes option) \<Rightarrow> Path \<Rightarrow> bytes option" where
  "fork_map p i ma j mb q =
     (if prefix p q
      then (case drop (length p) q of [] \<Rightarrow> None
        | x # r \<Rightarrow> if unat x = i then ma r else if unat x = j then mb r else None) else None)"

lemma ext_branch_spec:
  assumes "i \<noteq> j" "i < num_children" "j < num_children" "wf_trie a" "wf_trie b" "nibbles_ok p"
  shows "\<exists>t. ext_branch p i (Some a) j (Some b) = Some t \<and> wf_trie t \<and>
    trie_map t = fork_map p i (trie_map a) j (trie_map b)"
proof -
  let ?cs = "no_children[i := Some a, j := Some b]"
  let ?br = "MPTNode Kind_branch [] [] ?cs"
  have nth: "?cs ! k = (if k = j then Some b else if k = i then Some a else None)" if "k < num_children" for k
    using that by (simp add: nth_list_update)
  have wf: "wf_trie ?br"
  proof (rule wf_branch [of _ "min i j" "max i j"])
    show "wf_trie c" if "k < num_children" "?cs ! k = Some c" for k c
      using that assms nth [of k] by (auto split: if_splits)
  qed (use assms nth [of i] nth [of j] in \<open>auto simp: min_def max_def\<close>)
  have map: "trie_map ?br = fork_map [] i (trie_map a) j (trie_map b)"
    using assms nth by (auto simp: fun_eq_iff fork_map_def nth_list_update trie_map.simps split: list.split option.split)
  show ?thesis
  proof (cases "p = []")
    case True
    then show ?thesis using assms wf map by (simp add: ext_branch_def)
  next
    case False
    then show ?thesis using assms wf map wf_ext [of p ?br]
      by (auto simp: ext_branch_def MPTNode_ext_def trie_map_ext fun_eq_iff fork_map_def)
  qed
qed

lemma split_node_spec:
  assumes m: "mismatch p path = Some n" "n < length p" and ok: "nibbles_ok p" "nibbles_ok path"
    and orig: "orig (drop (n + 1) p) = Some (Some a)" "wf_trie a"
  shows "\<exists>t. split_node p path v n orig = Some t \<and> wf_trie t \<and>
    trie_map t = (\<lambda>q. if prefix (take (n + 1) p) q then trie_map a (drop (n + 1) q) else None)(path \<mapsto> v)"
proof -
  note ms = mismatch_spec [OF m(1)]
  have n: "n < length path" using ms m(2) by simp
  have idx: "unat (p ! n) \<noteq> unat (path ! n)" "unat (p ! n) < num_children" "unat (path ! n) < num_children"
    using ms(4) m(2) ok n by (auto simp: word_unat_eq_iff)
  obtain t where t: "ext_branch (take n p) (unat (p ! n)) (Some a) (unat (path ! n))
      (Some (MPTNode_leaf (drop (n + 1) path) v)) = Some t" "wf_trie t"
    "trie_map t = fork_map (take n p) (unat (p ! n)) (trie_map a) (unat (path ! n)) [drop (n + 1) path \<mapsto> v]"
    using ext_branch_spec [OF idx orig(2) wf_leaf, of "drop (n + 1) path" "take n p" v] ok
    by (auto dest: in_set_takeD in_set_dropD)
  have path: "path = take n p @ path ! n # drop (n + 1) path"
    using ms(3) n by (simp add: id_take_nth_drop [symmetric])
  have head: "take (n + 1) p = take n p @ [p ! n]"
    using m(2) by (simp add: take_Suc_conv_app_nth)
  have len: "length (take n p) = n" using m(2) by simp
  have "trie_map t q = ((\<lambda>q. if prefix (take (n + 1) p) q then trie_map a (drop (n + 1) q) else None)(path \<mapsto> v)) q" for q
  proof (cases "prefix (take n p) q")
    case False
    then have "q \<noteq> path" "\<not> prefix (take (n + 1) p) q"
      using path head by (metis prefixI, metis prefix_order.trans prefixI)
    then show ?thesis using False t(3) by (simp add: fork_map_def)
  next
    case True
    then obtain r where r: "q = take n p @ r" by (auto simp: prefix_def)
    have rp: "q = path \<longleftrightarrow> r = path ! n # drop (n + 1) path" using path r by (metis same_append_eq)
    show ?thesis
    proof (cases r)
      case Nil
      then show ?thesis using t(3) r rp head len by (auto simp: fork_map_def)
    next
      case (Cons x r')
      have "prefix (take (n + 1) p) q \<longleftrightarrow> x = p ! n" using r Cons head by auto
      moreover have "drop (n + 1) q = r'" using r Cons len by simp
      ultimately show ?thesis using t(3) r rp Cons len idx(1)
        by (auto simp: fork_map_def word_unat_eq_iff)
    qed
  qed
  then show ?thesis using t(1,2) m(2) n ms(2)
    by (auto simp: split_node_def nibble_def Path_tail_def Path_head_def orig [simplified] Let_def fun_eq_iff)
qed


text \<open>Every well-formed trie has an entry; a branch has entries with different first nibbles.\<close>

lemma branch_entries:
  assumes "length cs = num_children" "i < j" "j < num_children"
    and "cs ! i = Some a" "trie_map a p \<noteq> None" "cs ! j = Some b" "trie_map b q \<noteq> None"
  shows "\<exists>x y. x \<noteq> y \<and> trie_map (MPTNode Kind_branch [] [] cs) (x # p) \<noteq> None \<and>
    trie_map (MPTNode Kind_branch [] [] cs) (y # q) \<noteq> None"
proof -
  have "(of_nat i :: byte) \<noteq> of_nat j"
    using assms unat_nibble [of i] unat_nibble [of j] by (metis less_irrefl less_trans)
  moreover have "trie_map (MPTNode Kind_branch [] [] cs) (of_nat i # p) \<noteq> None"
    using assms trie_map_branch_Cons [of cs "of_nat i" "[]" "[]" p] unat_nibble [of i] by simp
  moreover have "trie_map (MPTNode Kind_branch [] [] cs) (of_nat j # q) \<noteq> None"
    using assms trie_map_branch_Cons [of cs "of_nat j" "[]" "[]" q] unat_nibble [of j] by simp
  ultimately show ?thesis by blast
qed

lemma trie_entry: "wf_trie t \<Longrightarrow> \<exists>p. trie_map t p \<noteq> None"
proof (induction rule: wf_trie.induct)
  case (wf_leaf p v)
  then show ?case by auto
next
  case (wf_ext p c)
  then obtain q where "trie_map c q \<noteq> None" by blast
  then have "trie_map (MPTNode Kind_ext p [] (no_children[0 := Some c])) (p @ q) \<noteq> None"
    by (simp only: trie_map_ext) simp
  then show ?case by blast
next
  case (wf_branch cs i j)
  then obtain a b where "cs ! i = Some a" "cs ! j = Some b" by auto
  then show ?case
    using branch_entries [OF wf_branch.hyps(1-3)] wf_branch.IH [of i a] wf_branch.IH [of j b]
      wf_branch.hyps(2,3) by (meson less_trans)
qed

inductive_cases wf_branchE: "wf_trie (MPTNode Kind_branch p v cs)"

lemma branch_heads:
  assumes "wf_trie t" and "m_kind t = Kind_branch"
  shows "\<exists>x y p q. x \<noteq> y \<and> trie_map t (x # p) \<noteq> None \<and> trie_map t (y # q) \<noteq> None"
  using assms
proof (cases rule: wf_trie.cases)
  case (wf_branch cs i j)
  then obtain a b where ab: "cs ! i = Some a" "cs ! j = Some b" by auto
  moreover have "wf_trie a" "wf_trie b"
    using wf_branch ab by (meson less_trans)+
  ultimately show ?thesis
    using branch_entries [OF wf_branch(2-4)] trie_entry [of a] trie_entry [of b] wf_branch(1) by meson
qed (auto simp: MPTNode_leaf_def)

text \<open>
  A path that is longer than the others and extends none of them can be inserted; the new trie
  has the updated map.
\<close>

definition fits :: "MPTNode \<Rightarrow> Path \<Rightarrow> bool" where
  "fits t path \<longleftrightarrow> nibbles_ok path \<and>
     (\<forall>q. trie_map t q \<noteq> None \<longrightarrow> length q \<le> length path \<and> \<not> prefix q path)"

lemma fitsD: "fits t path \<Longrightarrow> trie_map t q \<noteq> None \<Longrightarrow> length q \<le> length path \<and> \<not> prefix q path"
  by (simp add: fits_def)

lemma take_prefix_iff: "k \<le> length p \<Longrightarrow> prefix (take k p) q \<and> drop k q = drop k p \<longleftrightarrow> q = p"
  by (metis append_take_drop_id length_take min.absorb2 prefixE append_eq_conv_conj take_is_prefix)

lemma prefix_split:
  assumes "k \<le> length p"
  shows "prefix (take k p) q \<and> prefix (drop k p) (drop k q) \<longleftrightarrow> prefix p q"
proof
  assume a: "prefix (take k p) q \<and> prefix (drop k p) (drop k q)"
  then have "take k q = take k p" using assms by (auto simp: prefix_def)
  then show "prefix p q" using a by (metis append_take_drop_id same_prefix_prefix)
next
  assume "prefix p q"
  then show "prefix (take k p) q \<and> prefix (drop k p) (drop k q)"
    using assms by (metis append_take_drop_id prefix_order.trans take_is_prefix prefixE drop_append
        diff_is_0_eq drop_0 prefixI)
qed

text \<open>The three cases of an insertion.\<close>

lemma insert_leaf:
  assumes p: "nibbles_ok p" and f: "fits (MPTNode_leaf p w) path"
  shows "\<exists>t'. MPTNode_insert (MPTNode_leaf p w) path v = Some t' \<and> wf_trie t' \<and>
    trie_map t' = [p \<mapsto> w, path \<mapsto> v]"
proof -
  have pp: "length p \<le> length path" "\<not> prefix p path" "nibbles_ok path"
    using f by (auto simp: fits_def split: if_splits)
  then obtain n where n: "mismatch p path = Some n" using mismatch_Some by blast
  then have less: "n < length p"
    using mismatch_spec [OF n] pp by (metis take_all order_refl le_neq_implies_less take_is_prefix)
  obtain t' where "split_node p path v n (\<lambda>q. Some (Some (MPTNode_leaf q w))) = Some t'" "wf_trie t'"
    and map: "trie_map t' = (\<lambda>q. if prefix (take (n + 1) p) q then [drop (n + 1) p \<mapsto> w] (drop (n + 1) q)
      else None)(path \<mapsto> v)"
    using split_node_spec [OF n less p pp(3), of "\<lambda>q. Some (Some (MPTNode_leaf q w))", OF refl wf_leaf, of v] p
    unfolding trie_map_leaf by (meson in_set_dropD)
  moreover have "(\<lambda>q. if prefix (take (n + 1) p) q then [drop (n + 1) p \<mapsto> w] (drop (n + 1) q) else None) = [p \<mapsto> w]"
    using take_prefix_iff [of "n + 1" p] less by (auto simp: fun_eq_iff)
  ultimately show ?thesis
    using less n by (subst MPTNode_insert.simps) (auto simp: MPTNode_leaf_def)
qed

lemma insert_ext_split:
  assumes p: "nibbles_ok p" "nibbles_ok path" and c: "wf_trie c" "m_kind c = Kind_branch"
    and n: "mismatch p path = Some n" "n < length p"
  shows "\<exists>t'. MPTNode_insert (MPTNode Kind_ext p [] (no_children[0 := Some c])) path v = Some t' \<and>
    wf_trie t' \<and> trie_map t' = (trie_map (MPTNode Kind_ext p [] (no_children[0 := Some c])))(path \<mapsto> v)"
proof -
  let ?p = "drop (n + 1) p"
  define a where "a = (if ?p = [] then c else MPTNode Kind_ext ?p [] (no_children[0 := Some c]))"
  have a: "optional_ext ?p (Some c) = Some (Some a)" "wf_trie a"
    "trie_map a = (\<lambda>q. if prefix ?p q then trie_map c (drop (length ?p) q) else None)"
    using c p wf_ext [of ?p c]
    by (auto simp: optional_ext_def MPTNode_ext_def a_def trie_map_ext dest: in_set_dropD)
  obtain t' where t': "split_node p path v n (\<lambda>q. optional_ext q (Some c)) = Some t'" "wf_trie t'"
    and map: "trie_map t' = (\<lambda>q. if prefix (take (n + 1) p) q then trie_map a (drop (n + 1) q)
      else None)(path \<mapsto> v)"
    using split_node_spec [OF n p, of "\<lambda>q. optional_ext q (Some c)", OF a(1,2)] by blast
  have "Suc (length p - Suc 0) = length p" using n(2) by simp
  then have "(\<lambda>q. if prefix (take (n + 1) p) q then trie_map a (drop (n + 1) q) else None) =
      (\<lambda>q. if prefix p q then trie_map c (drop (length p) q) else None)"
    using prefix_split [of "n + 1" p] n(2) by (auto simp: fun_eq_iff a(3))
  then show ?thesis
    using t' map n by (subst MPTNode_insert.simps) (auto simp: trie_map_ext)
qed

lemma insert_branch:
  assumes cs: "length cs = num_children" "unat x < num_children"
    and ch: "(case cs ! unat x of None \<Rightarrow> Some (MPTNode_leaf r v) | Some c \<Rightarrow> MPTNode_insert c r v) = Some c'"
    and map: "trie_map c' = (case cs ! unat x of None \<Rightarrow> Map.empty | Some c \<Rightarrow> trie_map c)(r \<mapsto> v)"
  shows "MPTNode_insert (MPTNode Kind_branch [] [] cs) (x # r) v =
      Some (MPTNode Kind_branch [] [] (cs[unat x := Some c'])) \<and>
    trie_map (MPTNode Kind_branch [] [] (cs[unat x := Some c'])) =
      (trie_map (MPTNode Kind_branch [] [] cs))(x # r \<mapsto> v)"
proof
  show "MPTNode_insert (MPTNode Kind_branch [] [] cs) (x # r) v =
      Some (MPTNode Kind_branch [] [] (cs[unat x := Some c']))"
    using cs ch by (subst MPTNode_insert.simps) (simp add: nibble_def Path_tail_def)
  show "trie_map (MPTNode Kind_branch [] [] (cs[unat x := Some c'])) =
      (trie_map (MPTNode Kind_branch [] [] cs))(x # r \<mapsto> v)"
    using cs map by (auto simp: fun_eq_iff nth_list_update word_unat_eq_iff trie_map.simps
        split: list.split option.splits)
qed

theorem insert_trie:
  "wf_trie t \<Longrightarrow> fits t path \<Longrightarrow>
   \<exists>t'. MPTNode_insert t path v = Some t' \<and> wf_trie t' \<and>
     (m_kind t = Kind_branch \<longrightarrow> m_kind t' = Kind_branch) \<and> trie_map t' = (trie_map t)(path \<mapsto> v)"
proof (induction arbitrary: path rule: wf_trie.induct)
  case (wf_leaf p w)
  then show ?case using insert_leaf [of p w path v] by (auto simp: fun_eq_iff)
next
  case (wf_ext p c)
  let ?t = "MPTNode Kind_ext p [] (no_children[0 := Some c])"
  have entry: "trie_map ?t (p @ q) = trie_map c q" for q by (simp only: trie_map_ext) simp
  obtain q where "trie_map c q \<noteq> None" using trie_entry wf_ext.hyps by blast
  then have len: "length p \<le> length path" using fitsD [OF wf_ext.prems, of "p @ q"] entry by simp
  then obtain n where n: "mismatch p path = Some n" using mismatch_Some by blast
  show ?case
  proof (cases "n < length p")
    case True
    have "nibbles_ok path" using wf_ext.prems by (simp add: fits_def)
    from insert_ext_split [OF wf_ext.hyps(1) this wf_ext.hyps(3,4) n True, of v]
    show ?thesis by fastforce
  next
    case False
    then have np: "n = length p" using mismatch_spec(1) [OF n] by simp
    then obtain r where r: "path = p @ r"
      using mismatch_spec(3) [OF n] by (metis append_take_drop_id take_all order_refl)
    have "fits c r" using wf_ext.prems fitsD [OF wf_ext.prems, of "p @ q" for q] entry r
      by (auto simp: fits_def)
    then obtain c' where c': "MPTNode_insert c r v = Some c'" "wf_trie c'" "m_kind c' = Kind_branch"
      "trie_map c' = (trie_map c)(r \<mapsto> v)"
      using wf_ext.IH wf_ext.hyps(4) by blast
    have "trie_map (MPTNode Kind_ext p [] (no_children[0 := Some c'])) = (trie_map ?t)(path \<mapsto> v)"
      unfolding trie_map_ext c'(4) by (auto simp: fun_eq_iff r prefix_def)
    then show ?thesis
      using c' n np r wf_ext.hyps wf_trie.wf_ext [of p c']
      by (subst MPTNode_insert.simps) (auto simp: Path_tail_def)
  qed
next
  case (wf_branch cs i j)
  let ?t = "MPTNode Kind_branch [] [] cs"
  have wf: "wf_trie ?t" using wf_trie.wf_branch wf_branch.hyps by blast
  then obtain y q where "trie_map ?t (y # q) \<noteq> None" using branch_heads [OF wf] by auto
  then have "path \<noteq> []" using fitsD [OF wf_branch.prems] by fastforce
  then obtain x r where xr: "path = x # r" by (cases path) auto
  then have x: "unat x < num_children" "nibbles_ok r" using wf_branch.prems by (auto simp: fits_def)
  have "\<exists>c'. (case cs ! unat x of None \<Rightarrow> Some (MPTNode_leaf r v) | Some c \<Rightarrow> MPTNode_insert c r v) = Some c' \<and>
      wf_trie c' \<and> trie_map c' = (case cs ! unat x of None \<Rightarrow> Map.empty | Some c \<Rightarrow> trie_map c)(r \<mapsto> v)"
  proof (cases "cs ! unat x")
    case None
    then show ?thesis using x(2) wf_trie.wf_leaf by simp
  next
    case (Some c)
    have "fits c r"
      using fitsD [OF wf_branch.prems, of "x # q" for q] trie_map_branch_Cons [OF wf_branch.hyps(1) x(1)] xr x(2) Some
      by (auto simp: fits_def)
    then show ?thesis using wf_branch.IH [OF x(1) Some] Some by (auto simp: fun_upd_def)
  qed
  then obtain c' where c': "(case cs ! unat x of None \<Rightarrow> Some (MPTNode_leaf r v) | Some c \<Rightarrow> MPTNode_insert c r v) = Some c'"
    "wf_trie c'" "trie_map c' = (case cs ! unat x of None \<Rightarrow> Map.empty | Some c \<Rightarrow> trie_map c)(r \<mapsto> v)" by blast
  have nth: "cs[unat x := Some c'] ! k = (if k = unat x then Some c' else cs ! k)" if "k < num_children" for k
    using that wf_branch.hyps(1) by (simp add: nth_list_update)
  have "wf_trie (MPTNode Kind_branch [] [] (cs[unat x := Some c']))"
  proof (rule wf_trie.wf_branch [of _ i j])
    show "wf_trie c" if "k < num_children" "cs[unat x := Some c'] ! k = Some c" for k c
      using that nth wf_branch.hyps(6) c'(2) by (auto split: if_splits)
  qed (use wf_branch.hyps nth [of i] nth [of j] in auto)
  then show ?case using insert_branch [OF wf_branch.hyps(1) x(1) c'(1,3)] xr by (simp add: fun_upd_def)
qed


text \<open>A path that is in the trie already violates an assertion.\<close>

lemma insert_present: "wf_trie t \<Longrightarrow> trie_map t path \<noteq> None \<Longrightarrow> MPTNode_insert t path v = None"
proof (induction arbitrary: path rule: wf_trie.induct)
  case (wf_leaf p w)
  then have "path = p" by (auto split: if_splits)
  then show ?case by (subst MPTNode_insert.simps) (auto simp: MPTNode_leaf_def mismatch_same [of p "[]", simplified])
next
  case (wf_ext p c)
  then obtain r where r: "path = p @ r" "trie_map c r \<noteq> None"
    unfolding trie_map_ext by (auto simp: prefix_def split: if_splits)
  have "mismatch p path = Some (length p)" using mismatch_same [of p r] r by simp
  then show ?case
    using wf_ext.IH [OF r(2)] wf_ext.hyps(2) r(1) by (subst MPTNode_insert.simps) (auto simp: Path_tail_def)
next
  case (wf_branch cs i j)
  then obtain x r where xr: "path = x # r" by (cases path) auto
  then have x: "unat x < num_children" using wf_branch.prems wf_branch.hyps(1)
    by (auto simp: trie_map.simps split: if_splits)
  then obtain c where c: "cs ! unat x = Some c" "trie_map c r \<noteq> None"
    using wf_branch.prems wf_branch.hyps(1) xr trie_map_branch_Cons [of cs x] by (auto split: option.splits)
  show ?case
    using wf_branch.IH [OF x c] c x xr wf_branch.hyps(1)
    by (subst MPTNode_insert.simps) (simp add: nibble_def Path_tail_def)
qed

section \<open>Canonical tries\<close>

text \<open>The common prefixes of all entries of an extension.\<close>

lemma ext_common_prefix:
  assumes c: "wf_trie c" "m_kind c = Kind_branch"
    and q: "\<And>p. trie_map (MPTNode Kind_ext pe [] (no_children[0 := Some c])) p \<noteq> None \<Longrightarrow> prefix q p"
  shows "prefix q pe"
proof -
  obtain x y p r where xy: "x \<noteq> y" "trie_map c (x # p) \<noteq> None" "trie_map c (y # r) \<noteq> None"
    using branch_heads [OF c] by blast
  have "prefix q (pe @ s)" if "trie_map c s \<noteq> None" for s
    by (rule q) (simp only: trie_map_ext, simp add: that)
  then have "prefix q (pe @ x # p)" "prefix q (pe @ y # r)" using xy by blast+
  then show ?thesis using xy(1) by (auto simp: prefix_append prefix_Cons)
qed

lemma single_entry:
  assumes "wf_trie t" and "trie_map t = [p \<mapsto> v]"
  shows "t = MPTNode_leaf p v"
  using assms(1)
proof (cases rule: wf_trie.cases)
  case (wf_leaf q w)
  then show ?thesis using assms(2) by (metis map_upd_eqD1 fun_upd_same fun_upd_other option.sel option.distinct(1) trie_map_leaf)
next
  case (wf_ext q c)
  then obtain x y a b where "x \<noteq> y" "trie_map c (x # a) \<noteq> None" "trie_map c (y # b) \<noteq> None"
    using branch_heads by blast
  then have "trie_map t (q @ x # a) \<noteq> None" "trie_map t (q @ y # b) \<noteq> None" "x \<noteq> y"
    using wf_ext(1) by (simp_all only: trie_map_ext) simp_all
  then show ?thesis using assms(2) by (auto split: if_splits)
next
  case (wf_branch cs i j)
  then obtain x y a b where "x \<noteq> y" "trie_map t (x # a) \<noteq> None" "trie_map t (y # b) \<noteq> None"
    using branch_heads [OF assms(1)] by fastforce
  then show ?thesis using assms(2) by (auto split: if_splits)
qed

lemma ext_entry: "trie_map (MPTNode Kind_ext p w (no_children[0 := Some c])) (p @ q) = trie_map c q"
  by (simp only: trie_map_ext) simp

lemma ext_entry_prefix: "trie_map (MPTNode Kind_ext p w (no_children[0 := Some c])) q \<noteq> None \<Longrightarrow> prefix p q"
  by (simp only: trie_map_ext) (simp split: if_splits)

lemma ext_not_branch:
  assumes b: "wf_trie t" "m_kind t = Kind_branch" and p: "p \<noteq> []"
  shows "trie_map (MPTNode Kind_ext p w (no_children[0 := Some c])) \<noteq> trie_map t"
proof
  assume eq: "trie_map (MPTNode Kind_ext p w (no_children[0 := Some c])) = trie_map t"
  obtain x y q r where "x \<noteq> y" "trie_map t (x # q) \<noteq> None" "trie_map t (y # r) \<noteq> None"
    using branch_heads [OF b] by blast
  moreover from this have "prefix p (x # q)" "prefix p (y # r)" using ext_entry_prefix eq by metis+
  ultimately show False using p by (cases p) auto
qed

theorem canonical_trie:
  "wf_trie t \<Longrightarrow> wf_trie t' \<Longrightarrow> trie_map t = trie_map t' \<Longrightarrow> t = t'"
proof (induction arbitrary: t' rule: wf_trie.induct)
  case (wf_leaf p v)
  then show ?case using single_entry [OF wf_leaf.prems(1)] by (metis trie_map_leaf)
next
  case (wf_ext p c)
  note eq = wf_ext.prems(2) and h = wf_ext.hyps and IH = wf_ext.IH
  have wf: "wf_trie (MPTNode Kind_ext p [] (no_children[0 := Some c]))" by (rule wf_trie.wf_ext [OF h])
  show ?case using wf_ext.prems(1)
  proof (cases rule: wf_trie.cases)
    case (wf_leaf q w)
    then show ?thesis using single_entry [OF wf] eq by (metis trie_map_leaf)
  next
    case (wf_ext q c')
    then have "prefix q p" "prefix p q"
      using ext_common_prefix [OF h(3,4)] ext_common_prefix [of c'] ext_entry_prefix eq by metis+
    then have pq: "p = q" by (simp add: prefix_order.eq_iff)
    then have "trie_map c = trie_map c'" using eq wf_ext(1) ext_entry by (metis ext)
    then show ?thesis using IH [of c'] wf_ext(1,4) pq by simp
  next
    case (wf_branch cs i j)
    then show ?thesis using ext_not_branch [OF wf_ext.prems(1) _ h(2)] eq by (metis MPTNode.sel(1))
  qed
next
  case (wf_branch cs i j)
  note eq = wf_branch.prems(2) and h = wf_branch.hyps and IH = wf_branch.IH
  have wf: "wf_trie (MPTNode Kind_branch [] [] cs)" by (rule wf_trie.wf_branch [OF h])
  show ?case using wf_branch.prems(1)
  proof (cases rule: wf_trie.cases)
    case (wf_leaf q w)
    then show ?thesis using single_entry [OF wf] eq by (metis trie_map_leaf)
  next
    case (wf_ext q c')
    then show ?thesis using ext_not_branch [OF wf _ wf_ext(3)] eq by (metis MPTNode.sel(1))
  next
    case (wf_branch cs' i' j')
    have "cs ! k = cs' ! k" if k: "k < num_children" for k
    proof -
      have m: "(case cs ! k of None \<Rightarrow> None | Some c \<Rightarrow> trie_map c q) =
          (case cs' ! k of None \<Rightarrow> None | Some c \<Rightarrow> trie_map c q)" for q
        using trie_map_branch_Cons [of cs "of_nat k" "[]" "[]" q] k unat_nibble [OF k] h(1)
          trie_map_branch_Cons [of cs' "of_nat k" "[]" "[]" q] eq wf_branch(1,2) by simp
      show ?thesis
      proof (cases "cs ! k"; cases "cs' ! k")
        show "cs ! k = cs' ! k" if "cs ! k = None" "cs' ! k = Some c'" for c'
          using m that trie_entry [of c'] wf_branch(7) [OF k] by auto
        show "cs ! k = cs' ! k" if "cs ! k = Some c" "cs' ! k = None" for c
          using m that trie_entry [of c] h(6) [OF k] by auto
        show "cs ! k = cs' ! k" if "cs ! k = Some c" "cs' ! k = Some c'" for c c'
        proof -
          have "trie_map c = trie_map c'" using m that by (auto simp: fun_eq_iff)
          then show ?thesis using IH [OF k, of c c'] wf_branch(7) [OF k] that by simp
        qed
      qed simp
    qed
    then show ?thesis using wf_branch(1,2) h(1) by (simp add: list_eq_iff_nth_eq)
  qed
qed

end
