(* ===== verification/Zvm_Mpt_Hash.thy ===== *)
theory Zvm_Mpt_Hash
  imports Zvm_Mpt Zvm_World "HOL-Library.Multiset"
begin

text \<open>
  The root hashes of storages and accounts (\<open>test/state/mpt_hash.cpp\<close>).  The accounts and the
  storage slots are kept in \<open>unordered_map\<close>s; the order in which a loop visits them is a
  parameter.  The insertions refine the update of a map, and canonical tries make the root
  hash independent of the order.
\<close>

section \<open>Definitions\<close>

text \<open>The loop around \<open>trie.insert\<close>: the keys and the results of the RLP encodings.\<close>

fun insert_all :: "(bytes \<times> bytes option) list \<Rightarrow> MPT \<Rightarrow> MPT option" where
  "insert_all [] trie = Some trie"
| "insert_all ((key, encoding) # entries) trie = do {
     v \<leftarrow> encoding; trie \<leftarrow> MPT_insert trie key v; insert_all entries trie }"

definition hash_bytes :: "uint256 \<Rightarrow> bytes" where
  "hash_bytes h = be_store 32 h"

definition mpt_hash_storage :: "(bytes \<Rightarrow> uint256) \<Rightarrow> (uint256 \<times> StorageValue) list \<Rightarrow> uint256 option" where
  "mpt_hash_storage keccak256 stor = do {
     trie \<leftarrow> insert_all
       (map (\<lambda>(key, v). (hash_bytes (keccak256 (be_store 32 key)),
                          encode_bytes (trim (be_store 32 (sv_current v)))))
          (filter (\<lambda>(key, v). sv_current v \<noteq> 0) stor)) None;
     MPT_hash keccak256 trie }"

definition account_entry ::
  "(bytes \<Rightarrow> uint256) \<Rightarrow> ((uint256 \<rightharpoonup> StorageValue) \<Rightarrow> (uint256 \<times> StorageValue) list)
     \<Rightarrow> address \<times> Account \<Rightarrow> bytes \<times> bytes option" where
  "account_entry keccak256 slots a =
     (let (addr, acc) = a in
      (hash_bytes (keccak256 (be_store 20 addr)),
       do { storage_hash \<leftarrow> mpt_hash_storage keccak256 (slots (storage acc));
            encode_tuple [encode_uint64 (nonce acc), encode_uint256 (balance acc),
              encode_bytes (hash_bytes storage_hash), encode_bytes (hash_bytes (keccak256 (acc_code acc)))] }))"

definition mpt_hash_accounts ::
  "(bytes \<Rightarrow> uint256) \<Rightarrow> ((uint256 \<rightharpoonup> StorageValue) \<Rightarrow> (uint256 \<times> StorageValue) list)
     \<Rightarrow> (address \<times> Account) list \<Rightarrow> uint256 option" where
  "mpt_hash_accounts keccak256 slots accounts = do {
     trie \<leftarrow> insert_all (map (account_entry keccak256 slots) accounts) None;
     MPT_hash keccak256 trie }"

text \<open>The loops over transactions and receipts: the keys are the encoded indices.\<close>

fun insert_indexed :: "nat \<Rightarrow> bytes option list \<Rightarrow> MPT \<Rightarrow> MPT option" where
  "insert_indexed i [] trie = Some trie"
| "insert_indexed i (encoding # encodings) trie = do {
     key \<leftarrow> encode_uint64 (of_nat i);
     v \<leftarrow> encoding;
     trie \<leftarrow> MPT_insert trie key v;
     insert_indexed (i + 1) encodings trie }"

definition mpt_hash_list :: "(bytes \<Rightarrow> uint256) \<Rightarrow> bytes option list \<Rightarrow> uint256 option" where
  "mpt_hash_list keccak256 encodings = do {
     trie \<leftarrow> insert_indexed 0 encodings None; MPT_hash keccak256 trie }"

section \<open>Paths of keys\<close>

definition key_path :: "bytes \<Rightarrow> Path" where
  "key_path key = concat (map (\<lambda>b. [drop_bit 4 b, b AND 0x0f]) key)"

lemma Path_of_key_eq: "length key \<le> 32 \<Longrightarrow> Path_of_key key = Some (key_path key)"
  by (simp add: Path_of_key_def key_path_def)

lemma length_key_path [simp]: "length (key_path key) = 2 * length key"
  by (induction key) (simp_all add: key_path_def)

lemma key_path_simps [simp]:
  "key_path [] = []" "key_path (b # bs) = drop_bit 4 b # (b AND 0x0f) # key_path bs"
  by (simp_all add: key_path_def)

lemma nibbles_of_byte: "unat (drop_bit 4 b :: byte) < num_children" "unat (b AND 0x0f :: byte) < num_children"
proof -
  have "unat b < 256" using unsigned_less [of b, where 'a = nat] by simp
  then have "drop_bit 4 (unat b) < 16" by (simp add: drop_bit_eq_div less_mult_imp_div_less)
  then show "unat (drop_bit 4 b) < num_children"
    by (simp only: unat_drop_bit_eq num_children_def)
  have "b AND 0x0f = take_bit 4 b"
    using take_bit_eq_mask [of 4 b] by (simp add: mask_eq_exp_minus_1)
  then show "unat (b AND 0x0f) < num_children"
    by (simp only: unsigned_take_bit_eq num_children_def) (simp add: take_bit_eq_mod)
qed

lemma key_path_ok: "nibbles_ok (key_path key)"
  using nibbles_of_byte by (induction key) auto

lemma byte_eq_nibbles:
  fixes a b :: byte
  assumes "drop_bit 4 a = drop_bit 4 b" "a AND 0x0f = b AND 0x0f"
  shows "a = b"
proof -
  have m: "x AND 0x0f = take_bit 4 x" for x :: byte
    using take_bit_eq_mask [of 4 x] by (simp add: mask_eq_exp_minus_1)
  have "a = push_bit 4 (drop_bit 4 a) + take_bit 4 a" by (rule bits_ident [symmetric])
  also have "\<dots> = push_bit 4 (drop_bit 4 b) + take_bit 4 b" using assms by (simp only: m)
  also have "\<dots> = b" by (rule bits_ident)
  finally show ?thesis .
qed

lemma prefix_key_path: "prefix (key_path a) (key_path b) \<longleftrightarrow> prefix a b"
proof (induction a arbitrary: b)
  case (Cons x a)
  then show ?case by (cases b) (auto dest: byte_eq_nibbles)
qed simp

lemma key_path_inject [simp]: "key_path a = key_path b \<longleftrightarrow> a = b"
  using prefix_key_path by (metis prefix_order.eq_iff)

section \<open>Insertions refine map updates\<close>

definition represents :: "MPT \<Rightarrow> (Path \<rightharpoonup> bytes) \<Rightarrow> bool" where
  "represents trie M \<longleftrightarrow>
     (case trie of None \<Rightarrow> M = Map.empty | Some t \<Rightarrow> wf_trie t \<and> trie_map t = M)"

lemma represents_unique: "represents t M \<Longrightarrow> represents t' M \<Longrightarrow> t = t'"
  using trie_entry canonical_trie
  by (fastforce simp: represents_def split: option.splits)

lemma MPT_insert_new:
  assumes "represents trie M" and "length key \<le> 32"
    and "\<And>q. M q \<noteq> None \<Longrightarrow> length q \<le> 2 * length key \<and> \<not> prefix q (key_path key)"
  shows "\<exists>trie'. MPT_insert trie key v = Some trie' \<and> represents trie' (M(key_path key \<mapsto> v))"
proof (cases trie)
  case None
  then show ?thesis
    using assms wf_leaf [OF key_path_ok [of key]]
    by (auto simp: MPT_insert_def Path_of_key_eq represents_def)
next
  case (Some t)
  then have "fits t (key_path key)" using assms key_path_ok by (auto simp: fits_def represents_def)
  then show ?thesis
    using insert_trie [of t "key_path key" v] assms Some
    by (auto simp: MPT_insert_def Path_of_key_eq represents_def)
qed

lemma MPT_insert_present:
  assumes "represents trie M" and "length key \<le> 32" and "M (key_path key) \<noteq> None"
  shows "MPT_insert trie key v = None"
  using assms insert_present by (auto simp: MPT_insert_def Path_of_key_eq represents_def split: option.splits)

text \<open>The specification of the loop on maps: it fails when a key occurs twice.\<close>

fun update_all :: "(bytes \<times> bytes option) list \<Rightarrow> (Path \<rightharpoonup> bytes) \<Rightarrow> (Path \<rightharpoonup> bytes) option" where
  "update_all [] M = Some M"
| "update_all ((key, encoding) # entries) M = do {
     v \<leftarrow> encoding;
     if M (key_path key) = None then update_all entries (M(key_path key \<mapsto> v)) else None }"

theorem insert_all_refines:
  assumes "represents trie M" and "\<And>e. e \<in> set entries \<Longrightarrow> length (fst e) = n" and "n \<le> 32"
    and "\<And>q. M q \<noteq> None \<Longrightarrow> length q = 2 * n"
  shows "rel_option represents (insert_all entries trie) (update_all entries M)"
  using assms
proof (induction entries arbitrary: trie M)
  case (Cons e entries)
  obtain key v where e: "e = (key, v)" by (cases e)
  then have len: "length key = n" using Cons.prems(2) by force
  show ?case
  proof (cases v)
    case (Some w)
    show ?thesis
    proof (cases "M (key_path key)")
      case None
      have "\<not> prefix q (key_path key)" if "M q \<noteq> None" for q
        using that Cons.prems(4) [of q] None len length_key_path [of key]
        by (metis append_eq_append_conv append_Nil2 prefix_def)
      then obtain trie' where t: "MPT_insert trie key w = Some trie'" "represents trie' (M(key_path key \<mapsto> w))"
        using MPT_insert_new [OF Cons.prems(1), of key w] Cons.prems(3,4) len by auto
      have "rel_option represents (insert_all entries trie') (update_all entries (M(key_path key \<mapsto> w)))"
        by (rule Cons.IH [OF t(2)]) (use Cons.prems len in \<open>auto split: if_splits\<close>)
      then show ?thesis using e t(1) Some None by simp
    next
      case (Some x)
      then show ?thesis using MPT_insert_present [OF Cons.prems(1), of key w] Cons.prems(3) len e \<open>v = Some w\<close> by simp
    qed
  qed (simp add: e)
qed simp


section \<open>The order of the insertions\<close>

lemma update_all_eq:
  "update_all entries M =
     (if (\<forall>e \<in> set entries. snd e \<noteq> None \<and> M (key_path (fst e)) = None) \<and> distinct (map fst entries)
      then Some (M ++ map_of (map (\<lambda>e. (key_path (fst e), the (snd e))) entries)) else None)"
proof (induction entries arbitrary: M)
  case (Cons e entries)
  obtain key v where e: "e = (key, v)" by (cases e)
  show ?case
  proof (cases "v = None \<or> M (key_path key) \<noteq> None")
    case False
    then obtain w where w: "v = Some w" by auto
    have "(M(key_path key \<mapsto> w)) (key_path (fst x)) = None \<longleftrightarrow> fst x \<noteq> key \<and> M (key_path (fst x)) = None" for x
      by simp
    then have c: "(\<forall>x \<in> set entries. snd x \<noteq> None \<and> (M(key_path key \<mapsto> w)) (key_path (fst x)) = None) \<longleftrightarrow>
        key \<notin> fst ` set entries \<and> (\<forall>x \<in> set entries. snd x \<noteq> None \<and> M (key_path (fst x)) = None)"
      by force
    have "M(key_path key \<mapsto> w) ++ N = M ++ N(key_path key \<mapsto> w)" if "N (key_path key) = None" for N
      using that by (auto simp: fun_eq_iff map_add_def split: option.split)
    moreover have "map_of (map (\<lambda>e. (key_path (fst e), the (snd e))) entries) (key_path key) = None"
      if "key \<notin> fst ` set entries"
      using that by (force simp: map_of_eq_None_iff)
    ultimately show ?thesis
      using False Cons.IH [of "M(key_path key \<mapsto> w)"] unfolding c
      by (auto simp: e w simp del: fun_upd_apply)
  qed (auto simp: e)
qed simp

lemma update_all_perm:
  assumes "mset xs = mset ys"
  shows "update_all xs M = update_all ys M"
proof -
  let ?f = "\<lambda>e. (key_path (fst e), the (snd e))"
  have set: "set xs = set ys" using assms by (metis set_mset_mset)
  have dist: "distinct (map fst xs) \<longleftrightarrow> distinct (map fst ys)"
    using assms by (metis mset_map mset_eq_imp_distinct_iff)
  have "map_of (map ?f xs) = map_of (map ?f ys)" if "distinct (map fst xs)"
  proof (rule map_of_inject_set [THEN iffD2])
    have "distinct (map key_path (map fst zs))" if "distinct (map fst zs)" for zs :: "(bytes \<times> bytes option) list"
      using that by (subst distinct_map) (auto simp: inj_on_def)
    then show "distinct (map fst (map ?f xs))" "distinct (map fst (map ?f ys))"
      using that dist by (simp_all add: comp_def)
  qed (simp add: set)
  then show ?thesis unfolding update_all_eq set dist by auto
qed

theorem insert_all_perm:
  assumes "mset xs = mset ys" and "\<And>e. e \<in> set xs \<Longrightarrow> length (fst e) = n" and "n \<le> 32"
  shows "insert_all xs None = insert_all ys None"
proof -
  have e: "represents None Map.empty" by (simp add: represents_def)
  have "\<And>e. e \<in> set ys \<Longrightarrow> length (fst e) = n" using assms(1,2) by (metis set_mset_mset)
  then have "rel_option represents (insert_all xs None) (update_all xs Map.empty)"
    "rel_option represents (insert_all ys None) (update_all ys Map.empty)"
    using assms(2,3) by (intro insert_all_refines [OF e, of _ n]; simp)+
  then show ?thesis using represents_unique update_all_perm [OF assms(1), of Map.empty]
    by (auto simp: option_rel_Some2 elim!: option.rel_cases)
qed

lemma length_hash_bytes [simp]: "length (hash_bytes h) = 32"
  by (simp add: hash_bytes_def)

lemma mpt_hash_storage_perm:
  assumes "mset xs = mset ys"
  shows "mpt_hash_storage keccak256 xs = mpt_hash_storage keccak256 ys"
proof -
  let ?g = "\<lambda>(key, v). (hash_bytes (keccak256 (be_store 32 key)), encode_bytes (trim (be_store 32 (sv_current v))))"
  let ?xs = "\<lambda>zs. map ?g (filter (\<lambda>(key, v). sv_current v \<noteq> 0) zs)"
  have "insert_all (?xs xs) None = insert_all (?xs ys) None"
    by (rule insert_all_perm [of _ _ 32]) (use assms in \<open>auto simp: mset_map mset_filter\<close>)
  then show ?thesis by (simp add: mpt_hash_storage_def)
qed

text \<open>What an iteration over an \<open>unordered_map\<close> visits: every entry once.\<close>

definition visits :: "('k \<times> 'v) list \<Rightarrow> ('k \<rightharpoonup> 'v) \<Rightarrow> bool" where
  "visits xs m \<longleftrightarrow> distinct (map fst xs) \<and> map_of xs = m"

lemma visits_perm:
  assumes "visits xs m" "visits ys m"
  shows "mset xs = mset ys"
proof -
  have "set xs = set ys" using assms map_of_inject_set unfolding visits_def by metis
  moreover have "distinct xs" "distinct ys" using assms distinct_map unfolding visits_def by blast+
  ultimately show ?thesis by (simp add: set_eq_iff_mset_eq_distinct)
qed

theorem mpt_hash_accounts_order:
  assumes "visits xs S" "visits ys S"
    and "\<And>addr acc. S addr = Some acc \<Longrightarrow> visits (slots (storage acc)) (storage acc) \<and> visits (slots' (storage acc)) (storage acc)"
  shows "mpt_hash_accounts keccak256 slots xs = mpt_hash_accounts keccak256 slots' ys"
proof -
  have e: "account_entry keccak256 slots a = account_entry keccak256 slots' a" if "a \<in> set xs" for a
  proof -
    obtain addr acc where a: "a = (addr, acc)" by (cases a)
    then have "S addr = Some acc" using that assms(1) by (auto simp: visits_def)
    then have "mpt_hash_storage keccak256 (slots (storage acc)) = mpt_hash_storage keccak256 (slots' (storage acc))"
      using mpt_hash_storage_perm visits_perm assms(3) by metis
    then show ?thesis by (simp add: a account_entry_def)
  qed
  have "insert_all (map (account_entry keccak256 slots) xs) None = insert_all (map (account_entry keccak256 slots') ys) None"
  proof (rule insert_all_perm [of _ _ 32])
    have "map (account_entry keccak256 slots) xs = map (account_entry keccak256 slots') xs" using e by simp
    then show "mset (map (account_entry keccak256 slots) xs) = mset (map (account_entry keccak256 slots') ys)"
      using visits_perm [OF assms(1,2)] by (metis mset_map)
  qed (auto simp: account_entry_def split: prod.splits)
  then show ?thesis by (simp add: mpt_hash_accounts_def)
qed


section \<open>Indexed tries\<close>

text \<open>RLP strings are prefix-free.\<close>

lemma encode_bytes_prefix:
  assumes "encode_bytes a = Some x" "encode_bytes b = Some y" "prefix x y"
  shows "a = b"
proof -
  obtain r where "y = x @ r" using assms(3) by (auto simp: prefix_def)
  then have "Some (Str a, r) = Some (Str b, [])"
    using decode_bytes [OF assms(1), of 0 r] decode_bytes [OF assms(2), of 0 "[]"]
    by (simp del: decode_item.simps)
  then show ?thesis by simp
qed

definition index_bytes :: "nat \<Rightarrow> bytes" where
  "index_bytes i = trim (be_store 8 (of_nat i :: uint64))"

lemma trim_le_iff:
  assumes "m \<le> length bs"
  shows "length (trim bs) \<le> m \<longleftrightarrow> (\<forall>i < length bs - m. bs ! i = 0)"
proof
  assume "length (trim bs) \<le> m"
  moreover have "length (takeWhile (\<lambda>x. x = 0) bs) + length (trim bs) = length bs"
    unfolding trim_def by (metis length_append takeWhile_dropWhile_id)
  ultimately show "\<forall>i < length bs - m. bs ! i = 0"
    using set_takeWhileD [of _ "\<lambda>x. x = 0" bs] takeWhile_nth nth_mem
    by (metis (no_types, lifting) add_le_imp_le_diff diff_le_mono2 diff_add_inverse2 order_less_le_trans)
next
  assume z: "\<forall>i < length bs - m. bs ! i = 0"
  then have "\<forall>x \<in> set (take (length bs - m) bs). x = 0" by (auto simp: in_set_conv_nth)
  then have "dropWhile (\<lambda>x. x = 0) bs = dropWhile (\<lambda>x. x = 0) (drop (length bs - m) bs)"
    using dropWhile_append2 [of "take (length bs - m) bs" "\<lambda>x. x = 0" "drop (length bs - m) bs"] by simp
  then show "length (trim bs) \<le> m"
    using length_dropWhile_le [of "\<lambda>x. x = 0" "drop (length bs - m) bs"] assms by (simp add: trim_def)
qed

lemma be_store_zeros:
  fixes x :: uint64
  assumes "m \<le> 8"
  shows "(\<forall>i < 8 - m. be_store 8 x ! i = 0) \<longleftrightarrow> unat x < 2 ^ (8 * m)"
proof -
  have "(\<forall>i < 8 - m. be_store 8 x ! i = 0) \<longleftrightarrow> (\<forall>k \<ge> 8 * m. \<not> bit x k)"
  proof (intro iffI allI impI)
    fix k assume a: "\<forall>i < 8 - m. be_store 8 x ! i = 0" "8 * m \<le> k"
    show "\<not> bit x k"
    proof
      assume b: "bit x k"
      then have k: "k < 64" by (auto dest: bit_imp_le_length)
      let ?i = "7 - k div 8"
      have "k div 8 \<le> 7" "m \<le> k div 8" using k a(2) by auto
      then have i: "?i < 8 - m" "8 * (7 - ?i) + k mod 8 = k" using assms by auto
      then have "bit (be_store 8 x ! ?i) (k mod 8)" using b bit_be_store_nth [of ?i 8 x "k mod 8"] by simp
      then show False using a(1) i by simp
    qed
  next
    fix i assume a: "\<forall>k \<ge> 8 * m. \<not> bit x k" "i < 8 - m"
    then have "8 * m \<le> 8 * (7 - i) + n" for n by linarith
    then have "\<not> bit (be_store 8 x ! i) n" for n using a by (simp add: bit_be_store_nth)
    then show "be_store 8 x ! i = 0" by (simp add: bit_eq_iff)
  qed
  also have "\<dots> \<longleftrightarrow> take_bit (8 * m) x = x"
  proof (intro iffI allI impI notI)
    assume "\<forall>k \<ge> 8 * m. \<not> bit x k"
    then show "take_bit (8 * m) x = x" by (auto simp: bit_eq_iff bit_simps not_le [symmetric])
  next
    fix k assume "take_bit (8 * m) x = x" "8 * m \<le> k" "bit x k"
    then show False by (metis bit_take_bit_iff not_le)
  qed
  also have "\<dots> \<longleftrightarrow> unat x < 2 ^ (8 * m)"
    by (metis take_bit_nat_eq_self_iff unsigned_take_bit_eq word_unat_eq_iff)
  finally show ?thesis .
qed

lemma index_bytes_le:
  "i < 2 ^ 64 \<Longrightarrow> m \<le> 8 \<Longrightarrow> length (index_bytes i) \<le> m \<longleftrightarrow> i < 2 ^ (8 * m)"
  using trim_le_iff [of m "be_store 8 (of_nat i :: uint64)"] be_store_zeros [of m "of_nat i"]
  by (simp add: index_bytes_def unat_of_nat)


lemma index_bytes_mono:
  assumes "i \<le> j" "j < 2 ^ 64"
  shows "length (index_bytes i) \<le> length (index_bytes j)"
proof -
  let ?m = "length (index_bytes j)"
  have m: "?m \<le> 8" using index_bytes_le [of j 8] assms by simp
  then have "j < 2 ^ (8 * ?m)" using index_bytes_le [of j ?m] assms(2) by blast
  then show ?thesis using index_bytes_le [of i ?m] m assms by simp
qed

lemma trim_split: "bs = replicate (length bs - length (trim bs)) 0 @ trim bs"
proof -
  have "replicate (length (takeWhile (\<lambda>x. x = 0) bs)) 0 = takeWhile (\<lambda>x. x = 0) bs"
    by (rule replicate_length_same) (auto dest: set_takeWhileD)
  moreover have "length (takeWhile (\<lambda>x. x = 0) bs) = length bs - length (trim bs)"
    unfolding trim_def by (metis add_diff_cancel_right' length_append takeWhile_dropWhile_id)
  ultimately show ?thesis unfolding trim_def by (metis takeWhile_dropWhile_id)
qed

lemma index_split: "be_store 8 (of_nat i :: uint64) = replicate (8 - length (index_bytes i)) 0 @ index_bytes i"
  using trim_split [of "be_store 8 (of_nat i :: uint64)"] unfolding index_bytes_def length_be_store .

lemma index_bytes_inject:
  assumes "index_bytes i = index_bytes j" "i < 2 ^ 64" "j < 2 ^ 64"
  shows "i = j"
proof -
  have load: "be_load (be_store 8 x) = x" for x :: uint64 by (rule be_load_be_store) simp
  have "(of_nat i :: uint64) = of_nat j"
    by (subst (1 2) load [symmetric]) (simp only: index_split assms(1))
  then have "unat (of_nat i :: uint64) = unat (of_nat j :: uint64)" by (rule arg_cong)
  then show ?thesis using assms(2,3) by (simp add: unat_of_nat)
qed

lemma index_byte:
  assumes "length (index_bytes i) = 1"
  shows "index_bytes i = [of_nat i]"
proof -
  have "index_bytes i = drop 7 (be_store 8 (of_nat i :: uint64))"
    unfolding index_split using assms by simp
  also have "\<dots> = [ucast (of_nat i :: uint64)]" by (simp add: be_store_def upt_rec)
  also have "\<dots> = [of_nat i]" by (simp add: unsigned_of_nat word_of_nat_eq_iff)
  finally show ?thesis .
qed

lemma index_key:
  assumes "i < 2 ^ 64"
  shows "\<exists>k. encode_uint64 (of_nat i) = Some k \<and>
    length k = (if i < 128 then 1 else 1 + length (index_bytes i))"
proof -
  have m: "length (index_bytes i) \<le> 8" using index_bytes_le [of i 8] assms by simp
  have l0: "length (index_bytes i) = 0 \<longleftrightarrow> i = 0" using index_bytes_le [of i 0] assms by simp
  have l1: "length (index_bytes i) \<le> 1 \<longleftrightarrow> i < 256" using index_bytes_le [of i 1] assms by simp
  have one: "unat (index_bytes i ! 0) = i" if "length (index_bytes i) = 1"
    using index_byte [OF that] l1 that by (simp add: unat_of_nat)
  have "length (index_bytes i) = 1" if "i \<noteq> 0" "i < 256" using that l0 l1 by linarith
  then show ?thesis
    using m l0 l1 one
    by (auto simp: encode_uint64_def index_bytes_def [symmetric] encode_bytes_def encode_length_def)
qed


lemma index_keys:
  assumes "encode_uint64 (of_nat i) = Some k" "encode_uint64 (of_nat j) = Some l" "i < j" "j < 2 ^ 64"
  shows "length k \<le> length l" and "\<not> prefix k l"
proof -
  show "length k \<le> length l"
    using index_key [of i] index_key [of j] index_bytes_mono [of i j] assms by (auto split: if_splits)
  show "\<not> prefix k l"
  proof
    assume "prefix k l"
    then have "index_bytes i = index_bytes j"
      using encode_bytes_prefix [of "index_bytes i" k "index_bytes j" l] assms(1,2)
      by (simp add: encode_uint64_def index_bytes_def)
    then show False using index_bytes_inject [of i j] assms(3,4) by simp
  qed
qed

text \<open>
  The assertions of the trie hold for the keys of transactions and receipts, and the trie
  holds the encodings under their indices.
\<close>

theorem insert_indexed_returns:
  assumes "represents trie M" and "\<And>q. M q \<noteq> None \<Longrightarrow> \<exists>j k. j < i \<and> encode_uint64 (of_nat j) = Some k \<and> q = key_path k"
    and "list_all (\<lambda>e. e \<noteq> None) encodings" and "i + length encodings \<le> 2 ^ 64"
  shows "\<exists>trie' M'. insert_indexed i encodings trie = Some trie' \<and> represents trie' M' \<and>
    (\<forall>n < length encodings. \<exists>k. encode_uint64 (of_nat (i + n)) = Some k \<and> M' (key_path k) = encodings ! n) \<and>
    (\<forall>q. M q \<noteq> None \<longrightarrow> M' q = M q) \<and>
    (\<forall>q. M' q \<noteq> None \<longrightarrow> M q \<noteq> None \<or>
      (\<exists>n < length encodings. \<exists>k. encode_uint64 (of_nat (i + n)) = Some k \<and> q = key_path k))"
  using assms
proof (induction encodings arbitrary: trie M i)
  case (Cons e encodings)
  obtain v where v: "e = Some v" using Cons.prems(3) by auto
  have i: "i < 2 ^ 64" using Cons.prems(4) by simp
  obtain k where k: "encode_uint64 (of_nat i) = Some k" "length k \<le> 32"
    using index_key [OF i] index_bytes_le [OF i, of 8] i by (auto split: if_splits)
  have new: "length q \<le> 2 * length k \<and> \<not> prefix q (key_path k)" if "M q \<noteq> None" for q
    using Cons.prems(2) [OF that] index_keys [OF _ k(1) _ i] by (auto simp: prefix_key_path)
  obtain trie1 where t1: "MPT_insert trie k v = Some trie1" "represents trie1 (M(key_path k \<mapsto> v))"
    using MPT_insert_new [OF Cons.prems(1) k(2) new] by blast
  have "\<exists>j l. j < i + 1 \<and> encode_uint64 (of_nat j) = Some l \<and> q = key_path l"
    if "(M(key_path k \<mapsto> v)) q \<noteq> None" for q
  proof (cases "q = key_path k")
    case True
    then show ?thesis using k(1) less_add_one by blast
  next
    case False
    then show ?thesis using that Cons.prems(2) [of q] by (metis fun_upd_other less_add_one less_trans)
  qed
  moreover have "list_all (\<lambda>e. e \<noteq> None) encodings" "i + 1 + length encodings \<le> 2 ^ 64"
    using Cons.prems(3,4) by simp_all
  ultimately obtain trie' M' where
    t': "insert_indexed (i + 1) encodings trie1 = Some trie'" "represents trie' M'"
    and new': "\<And>n. n < length encodings \<Longrightarrow> \<exists>l. encode_uint64 (of_nat (i + 1 + n)) = Some l \<and> M' (key_path l) = encodings ! n"
    and old: "\<And>q. (M(key_path k \<mapsto> v)) q \<noteq> None \<Longrightarrow> M' q = (M(key_path k \<mapsto> v)) q"
    and only: "\<And>q. M' q \<noteq> None \<Longrightarrow> (M(key_path k \<mapsto> v)) q \<noteq> None \<or>
      (\<exists>n < length encodings. \<exists>l. encode_uint64 (of_nat (i + 1 + n)) = Some l \<and> q = key_path l)"
    using Cons.IH [OF t1(2), of "i + 1"] by blast
  have each: "\<forall>n < length (e # encodings). \<exists>l. encode_uint64 (of_nat (i + n)) = Some l \<and> M' (key_path l) = (e # encodings) ! n"
  proof (intro allI impI)
    fix n assume n: "n < length (e # encodings)"
    show "\<exists>l. encode_uint64 (of_nat (i + n)) = Some l \<and> M' (key_path l) = (e # encodings) ! n"
    proof (cases n)
      case 0
      then show ?thesis using k(1) v old [of "key_path k"] by simp
    next
      case (Suc n')
      then show ?thesis using new' [of n'] n by (simp add: ac_simps)
    qed
  qed
  have kept: "\<forall>q. M q \<noteq> None \<longrightarrow> M' q = M q"
  proof (intro allI impI)
    fix q assume q: "M q \<noteq> None"
    then have "q \<noteq> key_path k" using new [of q] by auto
    then show "M' q = M q" using old [of q] q by simp
  qed
  have only': "\<forall>q. M' q \<noteq> None \<longrightarrow> M q \<noteq> None \<or>
      (\<exists>n < length (e # encodings). \<exists>l. encode_uint64 (of_nat (i + n)) = Some l \<and> q = key_path l)"
  proof (intro allI impI)
    fix q assume q: "M' q \<noteq> None"
    consider "q = key_path k" | "M q \<noteq> None"
      | n l where "n < length encodings" "encode_uint64 (of_nat (i + 1 + n)) = Some l" "q = key_path l"
      using only [OF q] by (auto split: if_splits)
    then show "M q \<noteq> None \<or>
        (\<exists>n < length (e # encodings). \<exists>l. encode_uint64 (of_nat (i + n)) = Some l \<and> q = key_path l)"
    proof cases
      case 1
      then show ?thesis using k(1) by (intro disjI2 exI [of _ 0]) simp
    next
      case 3
      then show ?thesis by (intro disjI2 exI [of _ "Suc n"]) simp
    qed simp
  qed
  have ins: "insert_indexed i (e # encodings) trie = Some trie'" using t'(1) t1(1) k(1) v by simp
  show ?case
    by (intro exI [of _ trie'] exI [of _ M'] conjI) (rule ins t'(2) each kept only')+
qed auto

end
