(* ===== verification/Zvm_Mpt_Binding.thy ===== *)
theory Zvm_Mpt_Binding
  imports Zvm_Mpt_Hash
begin

text \<open>
  The root hash of a trie commits to its contents: two tries with different contents have the
  same root hash only if the hash function has a collision between encoded nodes of the two
  tries.  Paths and nodes are encoded injectively, and every node of a well-formed trie with
  entries of bounded size has an encoding.
\<close>

section \<open>The encoding of paths\<close>

lemma nibble_le: "unat (x :: byte) < num_children \<longleftrightarrow> x \<le> 0x0f"
  by (auto simp: num_children_def word_le_nat_alt)

lemma take_nibble: "(x :: byte) \<le> 0x0f \<Longrightarrow> take_bit 4 x = x"
  by (simp only: word_unat_eq_iff unsigned_take_bit_eq) (simp add: word_le_nat_alt take_bit_nat_eq_self_iff)

lemma bit_nibble: "(x :: byte) \<le> 0x0f \<Longrightarrow> bit x n \<Longrightarrow> n < 4"
  by (metis bit_take_bit_iff take_nibble)

lemma pair_of_nibbles:
  fixes x y :: byte
  assumes "x \<le> 0x0f" "y \<le> 0x0f"
  shows "drop_bit 4 (push_bit 4 x OR y) = x" and "take_bit 4 (push_bit 4 x OR y) = y"
proof -
  have "\<not> bit y (4 + n)" for n using bit_nibble [OF assms(2), of "4 + n"] by auto
  then show "drop_bit 4 (push_bit 4 x OR y) = x" "take_bit 4 (push_bit 4 x OR y) = y"
    using bit_nibble [OF assms(1)] bit_nibble [OF assms(2)] by (auto intro!: bit_word_eqI simp: bit_simps)
qed

lemma encode_nibbles_Some:
  "nibbles_ok p \<Longrightarrow> \<exists>bs. encode_nibbles p = Some bs \<and> 2 * length bs \<le> length p + 1"
  by (induction p rule: encode_nibbles.induct) (auto simp: nibble_le)

lemma encode_nibbles_inject:
  "even (length p) \<Longrightarrow> even (length q) \<Longrightarrow> encode_nibbles p = Some bs \<Longrightarrow> encode_nibbles q = Some bs \<Longrightarrow> p = q"
proof (induction p arbitrary: q bs rule: encode_nibbles.induct)
  case 1
  then show ?case by (cases q rule: encode_nibbles.cases) (auto simp: bind_Some_iff split: if_splits)
next
  case (3 h l ns)
  obtain cs where p: "h \<le> 0x0f" "l \<le> 0x0f" "encode_nibbles ns = Some cs" "bs = (push_bit 4 h OR l) # cs"
    using "3.prems"(3) by (auto simp: bind_Some_iff split: if_splits)
  then obtain h' l' ns' where q: "q = h' # l' # ns'" "h' \<le> 0x0f" "l' \<le> 0x0f" "encode_nibbles ns' = Some cs"
    "push_bit 4 h' OR l' = push_bit 4 h OR l"
    using "3.prems"(2,4) by (cases q rule: encode_nibbles.cases) (auto simp: bind_Some_iff split: if_splits)
  have "h = h'" "l = l'" using pair_of_nibbles [OF p(1,2)] pair_of_nibbles [OF q(2,3)] q(5) by simp_all
  moreover have "ns = ns'" using "3.IH" [of ns' cs] "3.prems"(1,2) p q by simp
  ultimately show ?case using q(1) by simp
qed simp

lemma Path_encode_Some:
  "nibbles_ok p \<Longrightarrow> \<exists>bs. Path_encode p extended = Some bs \<and> 2 * length bs \<le> length p + 3"
proof -
  assume p: "nibbles_ok p"
  let ?k = "if length p mod 2 = 0 then 0 else 1 :: nat"
  have "nibbles_ok (drop ?k p)" using p by (meson in_set_dropD)
  then obtain bs where "encode_nibbles (drop ?k p) = Some bs" "2 * length bs \<le> length (drop ?k p) + 1"
    using encode_nibbles_Some by blast
  then show ?thesis by (auto simp: Path_encode_def Let_def)
qed

lemma flags_of_byte:
  fixes x :: byte
  assumes "x \<le> 0x0f" and "\<not> odd_len \<longrightarrow> x = 0"
    and "b = (if odd_len then 0x10 OR x else 0x00)" and "c = (if leaf then b OR 0x20 else b)"
  shows "bit c 4 = odd_len" and "bit c 5 = leaf" and "take_bit 4 c = x"
proof -
  have f: "bit (0x10 :: byte) n \<longleftrightarrow> n = 4" "bit (0x20 :: byte) n \<longleftrightarrow> n = 5" for n
    using bit_exp_iff [of 4 n, where 'a = "8 word"] bit_exp_iff [of 5 n, where 'a = "8 word"]
    by (auto simp: bit_simps)
  show "bit c 4 = odd_len" "bit c 5 = leaf"
    using assms bit_nibble [OF assms(1), of 4] bit_nibble [OF assms(1), of 5] f by (auto simp: bit_or_iff)
  show "take_bit 4 c = x"
    using assms bit_nibble [OF assms(1)] f by (auto intro!: bit_word_eqI simp: bit_simps split: if_splits)
qed

lemma Path_encode_inject:
  assumes "nibbles_ok p" "nibbles_ok q" "Path_encode p e = Some bs" "Path_encode q e' = Some bs"
  shows "p = q \<and> e = e'"
proof -
  define first where "first r = (if odd (length r) then r ! 0 else 0)" for r :: Path
  have ok: "first r \<le> 0x0f" "\<not> odd (length r) \<longrightarrow> first r = 0" if "nibbles_ok r" for r
    using that by (auto simp: first_def nibble_le intro: nth_mem elim: oddE)
  have split: "\<exists>c cs. bs = c # cs \<and> c = (if \<not> x then (if odd (length r) then 0x10 OR first r else 0) OR 0x20
        else (if odd (length r) then 0x10 OR first r else 0)) \<and>
      encode_nibbles (drop (if odd (length r) then 1 else 0) r) = Some cs"
    if "Path_encode r x = Some bs" for r x
    using that by (auto simp: Path_encode_def Let_def first_def bind_Some_iff even_iff_mod_2_eq_zero split: if_splits)
  obtain c cs where c: "bs = c # cs" by (meson split assms(3))
  note fp = flags_of_byte [OF ok [OF assms(1)] refl, of c "\<not> e"]
  note fq = flags_of_byte [OF ok [OF assms(2)] refl, of c "\<not> e'"]
  have eq: "e = e'" "odd (length p) = odd (length q)" "first p = first q"
    using fp fq split [OF assms(3)] split [OF assms(4)] c by auto
  let ?k = "if odd (length p) then 1 else 0 :: nat"
  have d: "drop ?k p = drop ?k q"
    by (rule encode_nibbles_inject [of _ _ cs])
       (use split [OF assms(3)] split [OF assms(4)] c eq(2) in \<open>auto split: if_splits\<close>)
  have "take ?k p = take ?k q"
    using eq(2,3) by (cases p; cases q) (auto simp: first_def split: if_splits)
  then show ?thesis using d eq(1) by (metis append_take_drop_id)
qed


section \<open>The encoding of nodes\<close>

lemma encode_item_inject:
  assumes "encode_item x = Some bs" "encode_item y = Some bs"
  shows "x = y"
  using decode_encode [OF assms(1), of "max (need x) (need y)" "[]"]
    decode_encode [OF assms(2), of "max (need x) (need y)" "[]"] by simp

text \<open>What \<open>MPTNode::hash\<close> gives to the hash function.\<close>

definition child_bytes :: "(bytes \<Rightarrow> uint256) \<Rightarrow> MPTNode option \<Rightarrow> bytes option" where
  "child_bytes keccak256 child =
     (case child of None \<Rightarrow> Some [] | Some c \<Rightarrow> map_option (be_store 32) (MPTNode_hash keccak256 c))"

definition node_item :: "(bytes \<Rightarrow> uint256) \<Rightarrow> MPTNode \<Rightarrow> rlp_item option" where
  "node_item keccak256 node =
     (case m_kind node of
        Kind_leaf \<Rightarrow> do { p \<leftarrow> Path_encode (m_path node) False; Some (Lst [Str p, Str (m_value node)]) }
      | Kind_branch \<Rightarrow> do {
          hs \<leftarrow> those (map (child_bytes keccak256) (m_children node)); Some (Lst (map Str hs @ [Str []])) }
      | Kind_ext \<Rightarrow> do {
          p \<leftarrow> Path_encode (m_path node) True;
          c \<leftarrow> m_children node ! 0;
          h \<leftarrow> MPTNode_hash keccak256 c;
          Some (Lst [Str p, Str (be_store 32 h)]) })"

definition node_encoding :: "(bytes \<Rightarrow> uint256) \<Rightarrow> MPTNode \<Rightarrow> bytes option" where
  "node_encoding keccak256 node = node_item keccak256 node \<bind> encode_item"

lemma those_append_encodings:
  "append_encodings (map (\<lambda>c. child_bytes k c \<bind> encode_bytes) cs @ es) [] = Some bs \<longleftrightarrow>
   (\<exists>hs. those (map (child_bytes k) cs) = Some hs \<and>
      append_encodings (map encode_bytes hs @ es) [] = Some bs)"
proof (induction cs arbitrary: bs)
  case (Cons c cs)
  show ?case
    unfolding list.map append_Cons append_encodings_Cons Cons.IH
    by (cases "child_bytes k c") (auto simp: append_encodings_Cons bind_Some_iff simp del: append_encodings.simps)
qed simp

lemma option_ext: "(\<And>z. x = Some z \<longleftrightarrow> y = Some z) \<Longrightarrow> x = y"
  by (metis option.exhaust)

lemma hash_node_encoding:
  assumes "wf_trie t"
  shows "MPTNode_hash k t = map_option k (node_encoding k t)"
  using assms
proof (cases rule: wf_trie.cases)
  case (wf_leaf p v)
  then show ?thesis
    by (simp add: MPTNode_leaf_def node_encoding_def node_item_def encode_tuple_def encode_container_def
        map_option_bind comp_def map_conv_bind_option)
next
  case (wf_ext p c)
  then show ?thesis
    by (simp add: node_encoding_def node_item_def encode_tuple_def encode_container_def
        map_conv_bind_option comp_def)
next
  case (wf_branch cs i j)
  have c: "(case x \<bind> (\<lambda>x. Some (MPTNode_hash k x)) of None \<Rightarrow> encode_bytes []
      | Some h \<Rightarrow> h \<bind> (\<lambda>x. encode_bytes (be_store 32 x))) = child_bytes k x \<bind> encode_bytes" for x
    by (cases x) (simp_all add: child_bytes_def map_conv_bind_option comp_def)
  have "append_encodings (map (\<lambda>c. child_bytes k c \<bind> encode_bytes) cs @ [encode_bytes []]) [] =
      those (map (child_bytes k) cs) \<bind> (\<lambda>hs. append_encodings (map encode_bytes hs @ [encode_bytes []]) [])"
    by (rule option_ext) (simp only: those_append_encodings bind_Some_iff)
  then show ?thesis using wf_branch(1)
    by (simp add: node_encoding_def node_item_def encode_container_def
        c comp_def map_conv_bind_option
        del: append_encodings.simps)
qed


section \<open>Binding\<close>

inductive subnode :: "MPTNode \<Rightarrow> MPTNode \<Rightarrow> bool" where
  self [simp, intro]: "subnode t t"
| child: "subnode s c \<Longrightarrow> Some c \<in> set (m_children t) \<Longrightarrow> subnode s t"

text \<open>Two encoded nodes of the tries that have the same hash.\<close>

definition collision :: "(bytes \<Rightarrow> uint256) \<Rightarrow> MPTNode \<Rightarrow> MPTNode \<Rightarrow> bool" where
  "collision k t t' \<longleftrightarrow> (\<exists>s s' e e'. subnode s t \<and> subnode s' t' \<and> node_encoding k s = Some e \<and>
     node_encoding k s' = Some e' \<and> e \<noteq> e' \<and> k e = k e')"

lemma collision_child:
  "collision k c c' \<Longrightarrow> Some c \<in> set (m_children t) \<Longrightarrow> Some c' \<in> set (m_children t') \<Longrightarrow> collision k t t'"
  unfolding collision_def by (meson child)

lemma be_store_hash_inject [simp]: "be_store 32 (x :: uint256) = be_store 32 y \<longleftrightarrow> x = y"
proof -
  have "be_load (be_store 32 z) = z" for z :: uint256 by (rule be_load_be_store) simp
  then show ?thesis by metis
qed

lemma those_nth: "those xs = Some ys \<Longrightarrow> length ys = length xs \<and> (\<forall>i < length xs. xs ! i = Some (ys ! i))"
proof (induction xs arbitrary: ys)
  case (Cons x xs)
  then obtain z zs where "x = Some z" "those xs = Some zs" "ys = z # zs"
    by (auto split: option.splits)
  then show ?case using Cons.IH by (auto simp: nth_Cons split: nat.split)
qed simp

text \<open>
  The parts of a node that its encoding determines: nodes with the same encoding are of the
  same kind, have the same path and value, and their children have the same hashes.
\<close>

lemma leaf_item:
  "node_item k (MPTNode_leaf p v) = Some x \<longleftrightarrow> (\<exists>b. Path_encode p False = Some b \<and> x = Lst [Str b, Str v])"
  by (auto simp: node_item_def MPTNode_leaf_def bind_Some_iff)

lemma ext_item:
  "node_item k (MPTNode Kind_ext p w (no_children[0 := Some c])) = Some x \<longleftrightarrow>
     (\<exists>b h. Path_encode p True = Some b \<and> MPTNode_hash k c = Some h \<and> x = Lst [Str b, Str (be_store 32 h)])"
  by (auto simp: node_item_def bind_Some_iff)

lemma branch_item:
  assumes "node_item k (MPTNode Kind_branch p w cs) = Some x"
  shows "\<exists>hs. x = Lst (map Str hs @ [Str []]) \<and> length hs = length cs \<and>
    (\<forall>i < length cs. child_bytes k (cs ! i) = Some (hs ! i))"
  using assms those_nth [of "map (child_bytes k) cs"] by (auto simp: node_item_def bind_Some_iff)

inductive same_node :: "(bytes \<Rightarrow> uint256) \<Rightarrow> MPTNode \<Rightarrow> MPTNode \<Rightarrow> bool" for k where
  same_leaf: "same_node k (MPTNode_leaf p v) (MPTNode_leaf p v)"
| same_ext: "MPTNode_hash k c = Some h \<Longrightarrow> MPTNode_hash k c' = Some h \<Longrightarrow>
    same_node k (MPTNode Kind_ext p [] (no_children[0 := Some c])) (MPTNode Kind_ext p [] (no_children[0 := Some c']))"
| same_branch: "(\<And>i. i < num_children \<Longrightarrow> child_bytes k (cs ! i) \<noteq> None \<and> child_bytes k (cs ! i) = child_bytes k (cs' ! i)) \<Longrightarrow>
    same_node k (MPTNode Kind_branch [] [] cs) (MPTNode Kind_branch [] [] cs')"

lemma same_item:
  assumes "wf_trie t" "wf_trie t'" and x: "node_item k t = Some x" "node_item k t' = Some x"
  shows "same_node k t t'"
  using assms(1)
proof (cases rule: wf_trie.cases)
  case (wf_leaf p v)
  note t = wf_leaf
  from assms(2) show ?thesis
  proof (cases rule: wf_trie.cases)
    case (wf_leaf q w)
    then have "p = q \<and> v = w"
      using t x Path_encode_inject [of p q False _ False] by (auto simp: leaf_item)
    then show ?thesis using t(1) wf_leaf(1) by (simp add: same_leaf)
  next
    case (wf_ext q c)
    then show ?thesis using t x Path_encode_inject [of p q False _ True] by (auto simp: leaf_item ext_item)
  next
    case (wf_branch cs i j)
    then show ?thesis using t x branch_item by (fastforce simp: leaf_item num_children_def)
  qed
next
  case (wf_ext p c)
  note t = wf_ext
  from assms(2) show ?thesis
  proof (cases rule: wf_trie.cases)
    case (wf_leaf q w)
    then show ?thesis using t x Path_encode_inject [of p q True _ False] by (auto simp: leaf_item ext_item)
  next
    case (wf_ext q c')
    then obtain h where "p = q" "MPTNode_hash k c = Some h" "MPTNode_hash k c' = Some h"
      using t x Path_encode_inject [of p q True _ True] by (auto simp: ext_item)
    then show ?thesis using t(1) wf_ext(1) by (simp add: same_ext)
  next
    case (wf_branch cs i j)
    then show ?thesis using t x branch_item by (fastforce simp: ext_item num_children_def)
  qed
next
  case (wf_branch cs i j)
  then obtain hs where hs: "x = Lst (map Str hs @ [Str []])" "length hs = num_children"
    "\<And>i. i < num_children \<Longrightarrow> child_bytes k (cs ! i) = Some (hs ! i)"
    using branch_item [of k "[]" "[]" cs x] x(1) by auto
  note t = wf_branch
  from assms(2) show ?thesis
  proof (cases rule: wf_trie.cases)
    case (wf_leaf q w)
    then show ?thesis using x hs by (auto simp: leaf_item num_children_def)
  next
    case (wf_ext q c')
    then show ?thesis using x hs by (auto simp: ext_item num_children_def)
  next
    case (wf_branch cs' i' j')
    then obtain hs' where hs': "x = Lst (map Str hs' @ [Str []])" "length hs' = num_children"
      "\<And>i. i < num_children \<Longrightarrow> child_bytes k (cs' ! i) = Some (hs' ! i)"
      using branch_item [of k "[]" "[]" cs' x] x(2) by auto
    have "hs = hs'" using hs(1) hs'(1) by (simp add: inj_map_eq_map inj_def)
    then show ?thesis unfolding t(1) wf_branch(1) using hs(3) hs'(3) by (intro same_branch) simp
  qed
qed


lemma child_bytes_same:
  assumes "child_bytes k a = Some x" "child_bytes k b = Some x" "a \<noteq> b"
  shows "\<exists>c c' h. a = Some c \<and> b = Some c' \<and> MPTNode_hash k c = Some h \<and> MPTNode_hash k c' = Some h"
proof -
  have "be_store 32 (h :: uint256) \<noteq> []" for h by (metis length_be_store list.size(3) zero_neq_numeral)
  then show ?thesis using assms by (cases a; cases b) (auto simp: child_bytes_def)
qed

lemma hash_cases:
  assumes "wf_trie t" "wf_trie t'" "MPTNode_hash k t = Some h" "MPTNode_hash k t' = Some h"
  shows "collision k t t' \<or> same_node k t t'"
proof -
  obtain e e' where e: "node_encoding k t = Some e" "node_encoding k t' = Some e'" "k e = k e'"
    using hash_node_encoding [OF assms(1), of k] hash_node_encoding [OF assms(2), of k] assms(3,4)
    by (cases "node_encoding k t"; cases "node_encoding k t'") auto
  show ?thesis
  proof (cases "e = e'")
    case True
    then obtain x x' where "node_item k t = Some x" "node_item k t' = Some x'" "encode_item x = Some e"
      "encode_item x' = Some e"
      using e by (auto simp: node_encoding_def bind_Some_iff)
    then show ?thesis using same_item [OF assms(1,2)] encode_item_inject by blast
  next
    case False
    then show ?thesis using e by (auto simp: collision_def)
  qed
qed

inductive_cases same_leafE: "same_node k (MPTNode_leaf p v) t'"
inductive_cases same_extE: "same_node k (MPTNode Kind_ext p w cs) t'"
inductive_cases same_branchE: "same_node k (MPTNode Kind_branch p w cs) t'"

lemma no_children_inject: "no_children[0 := Some c] = no_children[0 := Some d] \<Longrightarrow> d = c"
  by (metis no_children_simps(1,2) nth_list_update_eq option.inject)

lemma wf_ext_child: "wf_trie (MPTNode Kind_ext p w (no_children[0 := Some c])) \<Longrightarrow> wf_trie c"
  by (erule wf_trie.cases) (auto simp: MPTNode_leaf_def dest: no_children_inject)

theorem root_hash_binds:
  "wf_trie t \<Longrightarrow> wf_trie t' \<Longrightarrow> MPTNode_hash k t = Some h \<Longrightarrow> MPTNode_hash k t' = Some h \<Longrightarrow>
   t = t' \<or> collision k t t'"
proof (induction arbitrary: t' h rule: wf_trie.induct)
  case (wf_leaf p v)
  from hash_cases [OF wf_trie.wf_leaf [OF wf_leaf.hyps] wf_leaf.prems]
  show ?case by (elim disjE same_leafE) (auto simp: MPTNode_leaf_def)
next
  case (wf_ext p c)
  let ?t = "MPTNode Kind_ext p [] (no_children[0 := Some c])"
  have "same_node k ?t t' \<Longrightarrow> ?t = t' \<or> collision k ?t t'"
  proof (erule same_extE)
    fix d h' d' assume n: "no_children[0 := Some c] = no_children[0 := Some d]"
      and t': "t' = MPTNode Kind_ext p [] (no_children[0 := Some d'])"
      and h: "MPTNode_hash k d = Some h'" "MPTNode_hash k d' = Some h'"
    have d: "d = c" using n no_children_inject by blast
    have "wf_trie d'" using wf_ext.prems(1) t' wf_ext_child by blast
    from wf_ext.IH [OF this] have "c = d' \<or> collision k c d'" using h d by blast
    moreover have "Some c \<in> set (m_children ?t)" "Some d' \<in> set (m_children t')"
      using t' by (simp_all add: set_update_memI)
    ultimately show ?thesis using t' collision_child by blast
  qed (simp_all add: MPTNode_leaf_def)
  then show ?case using hash_cases [OF wf_trie.wf_ext [OF wf_ext.hyps] wf_ext.prems] by blast
next
  case (wf_branch cs i j)
  let ?t = "MPTNode Kind_branch [] [] cs"
  have "same_node k ?t t' \<Longrightarrow> ?t = t' \<or> collision k ?t t'"
  proof (erule same_branchE)
    fix cs' assume t': "t' = MPTNode Kind_branch [] [] cs'"
      and h: "\<And>i. i < num_children \<Longrightarrow> (\<exists>y. child_bytes k (cs ! i) = Some y) \<and> child_bytes k (cs ! i) = child_bytes k (cs' ! i)"
    have cs': "length cs' = num_children" "\<And>i c. i < num_children \<Longrightarrow> cs' ! i = Some c \<Longrightarrow> wf_trie c"
      using wf_branch.prems(1) t' by (auto elim!: wf_trie.cases simp: MPTNode_leaf_def)
    have "collision k ?t t'" if n: "n < num_children" "cs ! n \<noteq> cs' ! n" for n
    proof -
      obtain c c' x where c: "cs ! n = Some c" "cs' ! n = Some c'" "MPTNode_hash k c = Some x" "MPTNode_hash k c' = Some x"
        using h [OF n(1)] n(2) child_bytes_same [of k "cs ! n" _ "cs' ! n"] by (metis not_None_eq)
      have "c = c' \<or> collision k c c'"
        using wf_branch.IH [OF n(1) c(1) cs'(2) [OF n(1) c(2)]] c(3,4) by blast
      moreover have "Some c \<in> set cs" "Some c' \<in> set cs'"
        using c(1,2) n(1) wf_branch.hyps(1) cs'(1) by (metis nth_mem)+
      ultimately show ?thesis using c n(2) t' collision_child [of k c c' ?t t'] by auto
    qed
    then show ?thesis using t' cs'(1) wf_branch.hyps(1) by (metis nth_equalityI)
  qed (simp_all add: MPTNode_leaf_def)
  moreover have "wf_trie ?t" using wf_trie.wf_branch wf_branch.hyps by blast
  ultimately show ?case using hash_cases [OF _ wf_branch.prems] by blast
qed


section \<open>Every node has a hash\<close>

lemma encode_hash: "\<exists>e. encode_bytes (be_store 32 (h :: uint256)) = Some e \<and> length e = 33"
  by (simp add: encode_bytes_def encode_length_def)

lemma path_item_Some:
  assumes "nibbles_ok p" "length p \<le> 64" "length v \<le> 2 ^ 22"
  shows "\<exists>b e. Path_encode p x = Some b \<and> encode_tuple [encode_bytes b, encode_bytes v] = Some e"
proof -
  obtain b where b: "Path_encode p x = Some b" "2 * length b \<le> length p + 3"
    using Path_encode_Some [OF assms(1)] by blast
  obtain e1 e2 where e: "encode_bytes b = Some e1" "length e1 \<le> length b + 4"
    "encode_bytes v = Some e2" "length e2 \<le> length v + 4"
    using encode_bytes_Some [of b] encode_bytes_Some [of v] b(2) assms(2,3) by auto
  then have "list_all (\<lambda>e. \<exists>c. e = Some c \<and> length c \<le> 2 ^ 22 + 4) [encode_bytes b, encode_bytes v]"
    using b(2) assms(2,3) by auto
  from list_item_Some [OF this] show ?thesis using b(1)
    by (auto simp: encode_tuple_def encode_container_def simp del: append_encodings.simps)
qed

lemma leaf_hash_returns:
  assumes "nibbles_ok p" "length p \<le> 64" "length v \<le> 2 ^ 22"
  shows "\<exists>h. MPTNode_hash k (MPTNode_leaf p v) = Some h"
  using path_item_Some [OF assms, of False] by (auto simp only: MPTNode_leaf_def MPTNode_hash.simps
      Let_def Kind.case Option.bind.bind_lunit option.inject ex_simps simp_thms)

lemma ext_hash_returns:
  assumes "nibbles_ok p" "length p \<le> 64" "MPTNode_hash k c = Some h"
  shows "\<exists>h. MPTNode_hash k (MPTNode Kind_ext p w (no_children[0 := Some c])) = Some h"
  using path_item_Some [OF assms(1,2), of "be_store 32 h" True] assms(3) by auto

lemma branch_hash_returns:
  assumes "length cs = num_children" "\<And>c. Some c \<in> set cs \<Longrightarrow> \<exists>h. MPTNode_hash k c = Some h"
  shows "\<exists>h. MPTNode_hash k (MPTNode Kind_branch [] w cs) = Some h"
proof -
  let ?g = "\<lambda>h. case h of None \<Rightarrow> encode_bytes []
      | Some child_hash \<Rightarrow> child_hash \<bind> (\<lambda>x. encode_bytes (be_store 32 x))"
  define f where "f x = ?g (map_option (MPTNode_hash k) x)" for x
  have maps: "map ?g (map (map_option (MPTNode_hash k)) cs) = map f cs" by (simp add: f_def)
  have child: "\<exists>b. f x = Some b \<and> length b \<le> 33" if "x \<in> set cs" for x
  proof (cases x)
    case None
    then show ?thesis by (simp add: f_def encode_bytes_def encode_length_def)
  next
    case (Some c)
    then obtain h where "MPTNode_hash k c = Some h" using assms(2) \<open>x \<in> set cs\<close> by blast
    then show ?thesis using Some encode_hash [of h] by (auto simp: f_def)
  qed
  have "\<exists>e. encode_container (map f cs @ [encode_bytes []]) = Some e"
  proof (rule list_item_Some [of 33])
    show "list_all (\<lambda>e. \<exists>b. e = Some b \<and> length b \<le> 33) (map f cs @ [encode_bytes []])"
      using child by (simp add: list_all_iff encode_bytes_def [of "[]"] encode_length_def)
  qed (simp add: assms(1) num_children_def)
  then show ?thesis
    unfolding MPTNode_hash.simps Let_def maps by auto
qed

theorem hash_returns:
  "wf_trie t \<Longrightarrow> (\<And>q v. trie_map t q = Some v \<Longrightarrow> length q \<le> 64 \<and> length v \<le> 2 ^ 22) \<Longrightarrow>
   \<exists>h. MPTNode_hash k t = Some h"
proof (induction rule: wf_trie.induct)
  case (wf_leaf p v)
  then show ?case using leaf_hash_returns [of p v k] by simp
next
  case (wf_ext p c)
  have "length q \<le> 64 \<and> length v \<le> 2 ^ 22" if "trie_map c q = Some v" for q v
    using wf_ext.prems [of "p @ q" v] that by (simp add: ext_entry)
  then obtain h where h: "MPTNode_hash k c = Some h" using wf_ext.IH by blast
  obtain q where q: "trie_map c q \<noteq> None" using trie_entry wf_ext.hyps(3) by blast
  then have "length p \<le> 64" using wf_ext.prems [of "p @ q"] by (auto simp: ext_entry)
  then show ?case using ext_hash_returns [OF wf_ext.hyps(1) _ h] by blast
next
  case (wf_branch cs i j)
  show ?case
  proof (rule branch_hash_returns [OF wf_branch.hyps(1)])
    fix c assume "Some c \<in> set cs"
    then obtain n where n: "n < num_children" "cs ! n = Some c"
      using wf_branch.hyps(1) by (metis in_set_conv_nth)
    have "length q \<le> 64 \<and> length v \<le> 2 ^ 22" if "trie_map c q = Some v" for q v
      using wf_branch.prems [of "of_nat n # q" v] that n unat_nibble [OF n(1)]
        trie_map_branch_Cons [OF wf_branch.hyps(1), of "of_nat n" "[]" "[]" q] by simp
    then show "\<exists>h. MPTNode_hash k c = Some h" using wf_branch.IH [OF n] by blast
  qed
qed

end
