(* ===== verification/Zvm_Block.thy ===== *)
theory Zvm_Block
  imports Zvm_Transaction_Laws Zvm_Mpt_Binding
begin

text \<open>
  Encodings of transactions, receipts and logs (\<open>rlp_encode\<close> of \<open>test/state/state.cpp\<close>), the
  roots of their tries (\<open>test/state/mpt_hash.cpp\<close>), and the processing of a block by the
  program \<open>zvmone-t8n\<close> (\<open>test/t8n/t8n.cpp\<close>) without its reading and writing of JSON.
\<close>

section \<open>Encodings\<close>

definition encode_address :: "address \<Rightarrow> bytes option" where
  "encode_address a = encode_bytes (be_store 20 a)"

definition encode_hash256 :: "uint256 \<Rightarrow> bytes option" where
  "encode_hash256 h = encode_bytes (be_store 32 h)"

definition rlp_encode_log :: "Log \<Rightarrow> bytes option" where
  "rlp_encode_log log = encode_tuple [encode_address (log_addr log),
     encode_container (map encode_hash256 (log_topics log)), encode_bytes (log_data log)]"

definition encode_access_list :: "(address \<times> uint256 list) list \<Rightarrow> bytes option" where
  "encode_access_list al = encode_container
     (map (\<lambda>(a, keys). encode_tuple [encode_address a, encode_container (map encode_hash256 keys)]) al)"

definition rlp_encode_transaction :: "Transaction \<Rightarrow> bytes option" where
  "rlp_encode_transaction tx = do {
     e \<leftarrow> encode_tuple [encode_uint64 (t_chain_id tx), encode_uint64 (t_nonce tx),
       encode_uint256 (t_max_priority_gas_price tx), encode_uint256 (t_max_gas_price tx),
       encode_uint64 (word_of_int (t_gas_limit tx)),
       encode_bytes (case t_to tx of Some a \<Rightarrow> be_store 20 a | None \<Rightarrow> []),
       encode_uint256 (t_value tx), encode_bytes (t_data tx), encode_access_list (t_access_list tx),
       encode_bytes (t_public_key tx), encode_bytes (t_signature tx)];
     Some (0x02 # e) }"

definition rlp_encode_receipt :: "TransactionReceipt \<Rightarrow> bytes option" where
  "rlp_encode_receipt receipt = do {
     let prefix = (case r_kind receipt of eip1559 \<Rightarrow> [0x02]);
     e \<leftarrow> encode_tuple [encode_uint64 (if r_status receipt = ZVMC_SUCCESS then 1 else 0),
       encode_uint64 (word_of_int (r_gas_used receipt)), encode_bytes (r_logs_bloom_filter receipt),
       encode_container (map rlp_encode_log (r_logs receipt))];
     Some (prefix @ e) }"

definition mpt_hash_transactions :: "(bytes \<Rightarrow> uint256) \<Rightarrow> Transaction list \<Rightarrow> uint256 option" where
  "mpt_hash_transactions keccak256 txs = mpt_hash_list keccak256 (map rlp_encode_transaction txs)"

definition mpt_hash_receipts :: "(bytes \<Rightarrow> uint256) \<Rightarrow> TransactionReceipt list \<Rightarrow> uint256 option" where
  "mpt_hash_receipts keccak256 receipts = mpt_hash_list keccak256 (map rlp_encode_receipt receipts)"

definition logs_hash :: "(bytes \<Rightarrow> uint256) \<Rightarrow> Log list \<Rightarrow> uint256 option" where
  "logs_hash keccak256 logs = do { e \<leftarrow> encode_container (map rlp_encode_log logs); Some (keccak256 e) }"

section \<open>The processing of a block\<close>

text \<open>
  The variables of the loop over the transactions.  An entry of \<open>rejected\<close> has the hash of the
  transaction, its index and the message of the error.
\<close>

record t8n =
  t8n_state :: State
  t8n_cache :: precompile_cache
  transactions :: "Transaction list"
  receipts :: "TransactionReceipt list"
  rejected :: "(uint256 \<times> nat \<times> string) list"
  txs_logs :: "Log list"
  cumulative_gas_used :: int

text \<open>The exceptions of the loop: the mismatch, and \<open>value()\<close> of a hash that is not readable.\<close>

datatype t8n_exception = transaction_hash_mismatched uint256 uint256 | bad_optional_access

definition check_hash :: "uint256 \<Rightarrow> uint256 option option \<Rightarrow> t8n_exception option" where
  "check_hash computed loaded =
     (case loaded of
        None \<Rightarrow> None
      | Some None \<Rightarrow> Some bad_optional_access
      | Some (Some h) \<Rightarrow> if h \<noteq> computed then Some (transaction_hash_mismatched computed h) else None)"

definition apply_transaction ::
  "precompiles \<Rightarrow> library \<Rightarrow> StateBlockInfo \<Rightarrow> revision \<Rightarrow> VM \<Rightarrow> uint64 \<Rightarrow> nat
     \<Rightarrow> Transaction \<times> uint256 option option \<Rightarrow> t8n \<Rightarrow> (t8n_exception + t8n) option" where
  "apply_transaction precompile L block rvn vm chain i entry b = do {
     let (tx, loaded_tx_hash) = entry;
     let tx = tx\<lparr>t_chain_id := chain\<rparr>;
     (res, S, cache) \<leftarrow> transition_with precompile L (t8n_state b) block tx rvn vm (t8n_cache b);
     encoding \<leftarrow> rlp_encode_transaction tx;
     let computed_tx_hash = lib_keccak256 L encoding;
     let b = b\<lparr>t8n_state := S, t8n_cache := cache\<rparr>;
     (case check_hash computed_tx_hash loaded_tx_hash of
        Some e \<Rightarrow> Some (Inl e)
      | None \<Rightarrow>
         (case res of
            Inl ec \<Rightarrow> Some (Inr (b\<lparr>rejected := rejected b @ [(computed_tx_hash, i, error_message ec)]\<rparr>))
          | Inr receipt \<Rightarrow> Some (Inr (b\<lparr>txs_logs := txs_logs b @ r_logs receipt,
              cumulative_gas_used := cumulative_gas_used b + r_gas_used receipt,
              transactions := transactions b @ [tx], receipts := receipts b @ [receipt]\<rparr>)))) }"

fun apply_transactions ::
  "precompiles \<Rightarrow> library \<Rightarrow> StateBlockInfo \<Rightarrow> revision \<Rightarrow> VM \<Rightarrow> uint64 \<Rightarrow> nat
     \<Rightarrow> (Transaction \<times> uint256 option option) list \<Rightarrow> t8n \<Rightarrow> (t8n_exception + t8n) option" where
  "apply_transactions precompile L block rvn vm chain i [] b = Some (Inr b)"
| "apply_transactions precompile L block rvn vm chain i (e # es) b = do {
     r \<leftarrow> apply_transaction precompile L block rvn vm chain i e b;
     (case r of
        Inl ex \<Rightarrow> Some (Inl ex)
      | Inr b \<Rightarrow> apply_transactions precompile L block rvn vm chain (i + 1) es b) }"

text \<open>The block: the loop over the transactions and \<open>finalize\<close>.\<close>

definition run_block ::
  "precompiles \<Rightarrow> library \<Rightarrow> State \<Rightarrow> StateBlockInfo \<Rightarrow> revision \<Rightarrow> VM \<Rightarrow> uint64
     \<Rightarrow> (Transaction \<times> uint256 option option) list \<Rightarrow> precompile_cache \<Rightarrow> (t8n_exception + t8n) option" where
  "run_block precompile L S block rvn vm chain txs cache = do {
     r \<leftarrow> apply_transactions precompile L block rvn vm chain 0 txs
            \<lparr>t8n_state = S, t8n_cache = cache, transactions = [], receipts = [], rejected = [],
             txs_logs = [], cumulative_gas_used = 0\<rparr>;
     (case r of
        Inl ex \<Rightarrow> Some (Inl ex)
      | Inr b \<Rightarrow> do {
          S \<leftarrow> finalize (t8n_state b) rvn (b_withdrawals block);
          Some (Inr (b\<lparr>t8n_state := S\<rparr>)) }) }"

definition t8n_logs_bloom :: "t8n \<Rightarrow> BloomFilter" where
  "t8n_logs_bloom b = combine_filters (map r_logs_bloom_filter (receipts b))"

section \<open>Accounting\<close>

text \<open>What holds after every round of the loop, for the state \<open>S\<close> before the block.\<close>

definition block_inv :: "(bytes \<Rightarrow> uint256) \<Rightarrow> State \<Rightarrow> StateBlockInfo \<Rightarrow> nat \<Rightarrow> t8n \<Rightarrow> bool" where
  "block_inv keccak256 S block i b \<longleftrightarrow>
     none_destructed (t8n_state b) \<and> dom S \<subseteq> dom (t8n_state b) \<and>
     total_balance (t8n_state b) = total_balance S -
       sum_list (map (\<lambda>r. uint256_of_int64 (r_gas_used r)) (receipts b)) * ucast (b_base_fee block) \<and>
     cumulative_gas_used b = sum_list (map r_gas_used (receipts b)) \<and>
     txs_logs b = concat (map r_logs (receipts b)) \<and>
     map r_logs_bloom_filter (receipts b) = map (compute_bloom_filter keccak256) (map r_logs (receipts b)) \<and>
     length (transactions b) = length (receipts b) \<and> length (receipts b) + length (rejected b) = i"

context precompiled_contracts
begin

lemma apply_transaction_inv:
  assumes vm: "vm_execute_ptr vm = Baseline_execute" and inv: "block_inv (lib_keccak256 L) S block i b"
    and a: "apply_transaction precompile L block rvn vm chain i e b = Some (Inr b')"
  shows "block_inv (lib_keccak256 L) S block (i + 1) b'"
proof -
  obtain tx h where e: "e = (tx, h)" by (cases e)
  let ?tx = "tx\<lparr>t_chain_id := chain\<rparr>"
  obtain res S' cache k where t: "transition_with precompile L (t8n_state b) block ?tx rvn vm (t8n_cache b) = Some (res, S', cache)"
    and r: "case res of
        Inl ec \<Rightarrow> b' = b\<lparr>t8n_state := S', t8n_cache := cache, rejected := rejected b @ [(k, i, error_message ec)]\<rparr>
      | Inr receipt \<Rightarrow> b' = b\<lparr>t8n_state := S', t8n_cache := cache, txs_logs := txs_logs b @ r_logs receipt,
          cumulative_gas_used := cumulative_gas_used b + r_gas_used receipt,
          transactions := transactions b @ [?tx], receipts := receipts b @ [receipt]\<rparr>"
    using a e by (auto simp: apply_transaction_def Let_def split: bind_splits option.splits sum.splits)
  show ?thesis
  proof (cases res)
    case (Inl ec)
    then have "S' = t8n_state b"
      using t by (auto simp: transition_with_def Let_def split: bind_splits sum.splits if_splits)
    then show ?thesis using inv r Inl by (auto simp: block_inv_def)
  next
    case (Inr receipt)
    have s: "none_destructed (t8n_state b)" using inv by (simp add: block_inv_def)
    have "dom S \<subseteq> dom S'" using transition_keeps(2) [OF vm s t [unfolded Inr]] inv unfolding block_inv_def by blast
    then show ?thesis
      using inv r Inr transition_funds [OF vm s t [unfolded Inr]] transition_keeps(1,3) [OF vm s t [unfolded Inr]]
      by (simp add: block_inv_def distrib_right)
  qed
qed

lemma apply_transactions_inv:
  assumes vm: "vm_execute_ptr vm = Baseline_execute"
  shows "apply_transactions precompile L block rvn vm chain i es b = Some (Inr b') \<Longrightarrow>
    block_inv (lib_keccak256 L) S block i b \<Longrightarrow> block_inv (lib_keccak256 L) S block (i + length es) b'"
proof (induction es arbitrary: i b)
  case (Cons e es)
  then obtain b1 where b1: "apply_transaction precompile L block rvn vm chain i e b = Some (Inr b1)"
    "apply_transactions precompile L block rvn vm chain (i + 1) es b1 = Some (Inr b')"
    by (auto split: bind_splits sum.splits)
  show ?case using Cons.IH [OF b1(2) apply_transaction_inv [OF vm Cons.prems(2) b1(1)]] by simp
qed simp

theorem run_block_accounts:
  assumes vm: "vm_execute_ptr vm = Baseline_execute" and S: "none_destructed S"
    and b: "run_block precompile L S block rvn vm chain txs cache = Some (Inr b)"
  shows "total_balance (t8n_state b) + sum_list (map (\<lambda>r. uint256_of_int64 (r_gas_used r)) (receipts b)) * ucast (b_base_fee block)
      = total_balance S + sum_list (map get_amount (b_withdrawals block)) \<and>
    cumulative_gas_used b = sum_list (map r_gas_used (receipts b)) \<and>
    t8n_logs_bloom b = compute_bloom_filter (lib_keccak256 L) (txs_logs b) \<and>
    length (transactions b) = length (receipts b) \<and> length (receipts b) + length (rejected b) = length txs"
proof -
  let ?b = "\<lparr>t8n_state = S, t8n_cache = cache, transactions = [], receipts = [], rejected = [],
    txs_logs = [], cumulative_gas_used = 0\<rparr>"
  obtain b1 S' where b1: "apply_transactions precompile L block rvn vm chain 0 txs ?b = Some (Inr b1)"
    and f: "finalize (t8n_state b1) rvn (b_withdrawals block) = Some S'" and b': "b = b1\<lparr>t8n_state := S'\<rparr>"
    using b by (auto simp: run_block_def split: bind_splits sum.splits)
  have "block_inv (lib_keccak256 L) S block 0 ?b" using S by (simp add: block_inv_def)
  from apply_transactions_inv [OF vm b1 this]
  have inv: "block_inv (lib_keccak256 L) S block (length txs) b1" by simp
  then have "total_balance S' = total_balance (t8n_state b1) + sum_list (map get_amount (b_withdrawals block))"
    using finalize_spec [of "t8n_state b1" rvn "b_withdrawals block"] f by (auto simp: block_inv_def)
  moreover have "t8n_logs_bloom b = compute_bloom_filter (lib_keccak256 L) (txs_logs b)"
  proof -
    have "map r_logs_bloom_filter (receipts b) = map (compute_bloom_filter (lib_keccak256 L)) (map r_logs (receipts b))"
      "txs_logs b = concat (map r_logs (receipts b))" using inv unfolding b' block_inv_def by simp_all
    then show ?thesis by (simp only: t8n_logs_bloom_def block_filter)
  qed
  ultimately show ?thesis using inv by (simp add: b' block_inv_def)
qed

end

end
