(* ===== verification/Zvm_Block_Roots.thy ===== *)
theory Zvm_Block_Roots
  imports Zvm_Block
begin

text \<open>
  What the roots of a block are evidence of: the encoding of a transaction determines all of
  its fields but the sender (which is recovered from the signature), and the root of a list of
  transactions or receipts determines the list, unless two different nodes of the two tries
  have the same hash.
\<close>

section \<open>The encoding of a transaction\<close>

lemma trim_inject: "length a = length b \<Longrightarrow> trim a = trim b \<Longrightarrow> a = b"
  using trim_split [of a] trim_split [of b] by metis

lemma be_store_inject:
  "be_store 20 (a :: address) = be_store 20 b \<longleftrightarrow> a = b"
  "trim (be_store 8 (x :: uint64)) = trim (be_store 8 y) \<longleftrightarrow> x = y"
  "trim (be_store 32 (v :: uint256)) = trim (be_store 32 w) \<longleftrightarrow> v = w"
proof -
  have "be_load (be_store 20 c) = c" for c :: address by (rule be_load_be_store) simp
  then show "be_store 20 a = be_store 20 b \<longleftrightarrow> a = b" by metis
  have "be_load (be_store 8 c) = c" for c :: uint64 by (rule be_load_be_store) simp
  then show "trim (be_store 8 x) = trim (be_store 8 y) \<longleftrightarrow> x = y" by (metis trim_inject length_be_store)
  show "trim (be_store 32 v) = trim (be_store 32 w) \<longleftrightarrow> v = w" by (metis trim_inject length_be_store be_store_hash_inject)
qed

definition access_item :: "address \<times> uint256 list \<Rightarrow> rlp_item" where
  "access_item e = Lst [Str (be_store 20 (fst e)), Lst (map (\<lambda>k. Str (be_store 32 k)) (snd e))]"

definition tx_item :: "Transaction \<Rightarrow> rlp_item" where
  "tx_item tx = Lst [Str (trim (be_store 8 (t_chain_id tx))), Str (trim (be_store 8 (t_nonce tx))),
     Str (trim (be_store 32 (t_max_priority_gas_price tx))), Str (trim (be_store 32 (t_max_gas_price tx))),
     Str (trim (be_store 8 (word_of_int (t_gas_limit tx) :: uint64))),
     Str (case t_to tx of Some a \<Rightarrow> be_store 20 a | None \<Rightarrow> []), Str (trim (be_store 32 (t_value tx))),
     Str (t_data tx), Lst (map access_item (t_access_list tx)), Str (t_public_key tx), Str (t_signature tx)]"

lemma rlp_encode_transaction_item:
  "rlp_encode_transaction tx = map_option ((#) 0x02) (encode_item (tx_item tx))"
proof -
  have h: "encode_item \<circ> (\<lambda>k. Str (be_store 32 k)) = encode_hash256"
    by (rule ext) (simp add: encode_hash256_def)
  have a: "encode_item (access_item e) = (case e of (a, keys) \<Rightarrow>
      encode_tuple [encode_address a, encode_container (map encode_hash256 keys)])" for e
    by (cases e) (simp add: access_item_def encode_tuple_def encode_container_def encode_address_def h)
  show ?thesis
    by (simp add: rlp_encode_transaction_def tx_item_def encode_tuple_def encode_container_def
        encode_uint64_def encode_uint256_def encode_access_list_def a map_conv_bind_option comp_def)
qed

lemma access_item_inject: "access_item e = access_item e' \<longleftrightarrow> e = e'"
proof -
  have "map (\<lambda>k. Str (be_store 32 (k :: uint256))) ks = map (\<lambda>k. Str (be_store 32 k)) ks' \<longleftrightarrow> ks = ks'" for ks ks'
    by (rule inj_map_eq_map) (simp add: inj_def)
  then show ?thesis by (auto simp: access_item_def be_store_inject prod_eq_iff)
qed

lemma recipient_inject:
  "(case x of Some a \<Rightarrow> be_store 20 (a :: address) | None \<Rightarrow> []) = (case y of Some a \<Rightarrow> be_store 20 a | None \<Rightarrow> [])
    \<longleftrightarrow> x = y"
proof -
  have "be_store 20 (a :: address) \<noteq> []" for a
  proof -
    have "length (be_store 20 a) = 20" by simp
    then show ?thesis by (metis list.size(3) zero_neq_numeral)
  qed
  from this this [symmetric] show ?thesis by (auto simp: be_store_inject split: option.split)
qed

lemma gas_limit_inject:
  assumes "word_of_int x = (word_of_int y :: uint64)" "- (2 ^ 63) \<le> x" "x < 2 ^ 63" "- (2 ^ 63) \<le> y" "y < 2 ^ 63"
  shows "x = y"
proof -
  have "sint (word_of_int z :: uint64) = z" if "- (2 ^ 63) \<le> z" "z < 2 ^ 63" for z
    using that by (simp add: sint_sbintrunc' signed_take_bit_int_eq_self)
  then show ?thesis using assms by metis
qed

theorem transaction_encoding_inject:
  assumes "rlp_encode_transaction tx = Some e" "rlp_encode_transaction tx' = Some e"
    and "- (2 ^ 63) \<le> t_gas_limit tx" "t_gas_limit tx < 2 ^ 63"
    and "- (2 ^ 63) \<le> t_gas_limit tx'" "t_gas_limit tx' < 2 ^ 63"
  shows "tx' = tx\<lparr>t_sender := t_sender tx'\<rparr>"
proof -
  have "tx_item tx = tx_item tx'"
    using assms(1,2) encode_item_inject by (auto simp: rlp_encode_transaction_item)
  moreover have "map access_item xs = map access_item ys \<longleftrightarrow> xs = ys" for xs ys
    by (rule inj_map_eq_map) (simp add: inj_def access_item_inject)
  moreover have "t_kind tx = t_kind tx'" by (cases "t_kind tx"; cases "t_kind tx'") simp
  ultimately show ?thesis
    using gas_limit_inject [OF _ assms(3-6)]
    by (intro Transaction.equality) (simp_all add: tx_item_def be_store_inject recipient_inject)
qed

section \<open>The root of a list\<close>

lemma insert_indexed_Some:
  "insert_indexed i es trie = Some trie' \<Longrightarrow> list_all (\<lambda>e. e \<noteq> None) es"
  by (induction es arbitrary: i trie) (auto split: bind_splits)

definition holds_list :: "MPT \<Rightarrow> (Path \<rightharpoonup> bytes) \<Rightarrow> bytes option list \<Rightarrow> bool" where
  "holds_list trie M es \<longleftrightarrow> represents trie M \<and>
     (\<forall>n < length es. \<exists>k. encode_uint64 (of_nat n) = Some k \<and> M (key_path k) = es ! n) \<and>
     (\<forall>q. M q \<noteq> None \<longrightarrow> (\<exists>n < length es. \<exists>k. encode_uint64 (of_nat n) = Some k \<and> q = key_path k))"

lemma list_trie:
  assumes "insert_indexed 0 es None = Some trie" and "length es \<le> 2 ^ 64"
  shows "\<exists>M. holds_list trie M es"
proof -
  have e: "represents None Map.empty" by (simp add: represents_def)
  show ?thesis
    using insert_indexed_returns [OF e _ insert_indexed_Some [OF assms(1)], of 0] assms
    by (auto simp: holds_list_def)
qed

lemma list_trie_inject:
  assumes t: "insert_indexed 0 es None = Some trie" "insert_indexed 0 es' None = Some trie"
    and l: "length es \<le> length es'" "length es' \<le> 2 ^ 64"
  shows "es = es'"
proof -
  have l': "length es \<le> 2 ^ 64" using l by simp
  obtain M M' where M: "holds_list trie M es" and M': "holds_list trie M' es'"
    using list_trie [OF t(1) l'] list_trie [OF t(2) l(2)] by blast
  have eq: "M' = M" using M M' by (auto simp: holds_list_def represents_def split: option.splits)
  have "length es = length es'"
  proof (rule ccontr)
    assume "length es \<noteq> length es'"
    then have n: "length es < length es'" using l(1) by simp
    then obtain k where k: "encode_uint64 (of_nat (length es)) = Some k" "M (key_path k) = es' ! length es"
      using M' eq unfolding holds_list_def by blast
    have "es' ! length es \<noteq> None" using insert_indexed_Some [OF t(2)] n by (simp add: list_all_length)
    then have "M (key_path k) \<noteq> None" using k(2) by simp
    then obtain m j where m: "m < length es" "encode_uint64 (of_nat m) = Some j" "key_path k = key_path j"
      using M unfolding holds_list_def by blast
    have "length es < 2 ^ 64" using n l(2) by simp
    then show False using index_keys(2) [OF m(2) k(1) m(1)] m(3) by simp
  qed
  moreover have "es ! n = es' ! n" if n: "n < length es" for n
  proof -
    obtain k where k: "encode_uint64 (of_nat n) = Some k" "M (key_path k) = es ! n" using M n unfolding holds_list_def by blast
    obtain k' where "encode_uint64 (of_nat n) = Some k'" "M (key_path k') = es' ! n"
      using M' less_le_trans [OF n l(1)] eq unfolding holds_list_def by blast
    then show ?thesis using k by simp
  qed
  ultimately show ?thesis by (rule nth_equalityI)
qed

theorem list_root_binds:
  assumes "mpt_hash_list keccak256 es = Some h" "mpt_hash_list keccak256 es' = Some h"
    and ne: "es \<noteq> []" "es' \<noteq> []" and l: "length es \<le> 2 ^ 64" "length es' \<le> 2 ^ 64"
  shows "es = es' \<or> (\<exists>t t'. insert_indexed 0 es None = Some (Some t) \<and> insert_indexed 0 es' None = Some (Some t') \<and>
    collision keccak256 t t')"
proof -
  have trie: "\<exists>t. insert_indexed 0 xs None = Some (Some t) \<and> wf_trie t \<and> MPTNode_hash keccak256 t = Some h"
    if r: "mpt_hash_list keccak256 xs = Some h" and x: "xs \<noteq> []" "length xs \<le> 2 ^ 64" for xs
  proof -
    obtain trie where i: "insert_indexed 0 xs None = Some trie" and h: "MPT_hash keccak256 trie = Some h"
      using r by (auto simp: mpt_hash_list_def split: bind_splits)
    obtain M where m: "holds_list trie M xs" using list_trie [OF i x(2)] by blast
    have "xs ! 0 \<noteq> None" using insert_indexed_Some [OF i] x(1) by (simp add: list_all_length)
    then have "represents trie M" "M \<noteq> Map.empty" using m x(1) by (auto simp: holds_list_def)
    then obtain t where "trie = Some t" "wf_trie t" by (cases trie) (auto simp: represents_def)
    then show ?thesis using i h by (simp add: MPT_hash_def)
  qed
  obtain t t' where t: "insert_indexed 0 es None = Some (Some t)" "wf_trie t" "MPTNode_hash keccak256 t = Some h"
    and t': "insert_indexed 0 es' None = Some (Some t')" "wf_trie t'" "MPTNode_hash keccak256 t' = Some h"
    using trie [OF assms(1) ne(1) l(1)] trie [OF assms(2) ne(2) l(2)] by blast
  from root_hash_binds [OF t(2) t'(2) t(3) t'(3)] show ?thesis
  proof
    assume "t = t'"
    then have "es = es'"
      using list_trie_inject [OF t(1) _ _ l(2)] list_trie_inject [OF t'(1) _ _ l(1)] t(1) t'(1) nat_le_linear by metis
    then show ?thesis ..
  qed (use t(1) t'(1) in blast)
qed

text \<open>The root exists: the assertions of the trie and of the encoder hold for entries of up to 4 MB.\<close>

lemma list_root_returns:
  assumes "list_all (\<lambda>e. \<exists>b. e = Some b \<and> length b \<le> 2 ^ 22) es" and "length es \<le> 2 ^ 64"
  shows "\<exists>h. mpt_hash_list keccak256 es = Some h"
proof -
  have e: "represents None Map.empty" by (simp add: represents_def)
  have s: "list_all (\<lambda>e. e \<noteq> None) es" using assms(1) by (auto simp: list_all_iff)
  obtain trie where i: "insert_indexed 0 es None = Some trie"
    using insert_indexed_returns [OF e _ s, of 0] assms(2) by auto
  obtain M where M: "holds_list trie M es" using list_trie [OF i assms(2)] by blast
  have entry: "length q \<le> 64 \<and> length v \<le> 2 ^ 22" if q: "M q = Some v" for q v
  proof -
    obtain n k where n: "n < length es" "encode_uint64 (of_nat n) = Some k" "q = key_path k"
      using M q unfolding holds_list_def by blast
    have n64: "n < 2 ^ 64" using n(1) assms(2) by simp
    have "length k \<le> 32" using index_key [OF n64] index_bytes_le [OF n64, of 8] n(2) n64 by (auto split: if_splits)
    moreover have "es ! n = Some v" using M n q unfolding holds_list_def by (metis option.inject)
    ultimately show ?thesis using assms(1) n(1,3) by (auto simp: list_all_length)
  qed
  have "\<exists>h. MPT_hash keccak256 trie = Some h"
  proof (cases trie)
    case (Some t)
    then have "wf_trie t" "trie_map t = M" using M by (auto simp: holds_list_def represents_def)
    then show ?thesis using hash_returns [of t keccak256] entry Some by (simp add: MPT_hash_def)
  qed (simp add: MPT_hash_def)
  then show ?thesis using i by (auto simp: mpt_hash_list_def)
qed

lemma encode_integer_Some:
  "\<exists>e. encode_uint64 x = Some e \<and> length e \<le> 2 ^ 18 + 4" "\<exists>e. encode_uint256 v = Some e \<and> length e \<le> 2 ^ 18 + 4"
proof -
  have "length (trim (be_store 8 x)) \<le> 8" "length (trim (be_store 32 v)) \<le> 32"
    using length_dropWhile_le by (metis length_be_store trim_def)+
  then show "\<exists>e. encode_uint64 x = Some e \<and> length e \<le> 2 ^ 18 + 4" "\<exists>e. encode_uint256 v = Some e \<and> length e \<le> 2 ^ 18 + 4"
    using encode_bytes_Some [of "trim (be_store 8 x)"] encode_bytes_Some [of "trim (be_store 32 v)"]
    by (force simp: encode_uint64_def encode_uint256_def)+
qed

lemma transaction_encodes:
  assumes "length (t_data tx) \<le> 2 ^ 18" "length (t_public_key tx) \<le> 2 ^ 18" "length (t_signature tx) \<le> 2 ^ 18"
    and "encode_access_list (t_access_list tx) = Some al" "length al \<le> 2 ^ 18"
  shows "\<exists>e. rlp_encode_transaction tx = Some e \<and> length e \<le> 2 ^ 22"
proof -
  have bytes: "\<exists>e. encode_bytes b = Some e \<and> length e \<le> 2 ^ 18 + 4" if "length b \<le> 2 ^ 18" for b
    using encode_bytes_Some [of b] that by force
  have dst: "length (case t_to tx of Some a \<Rightarrow> be_store 20 a | None \<Rightarrow> []) \<le> 2 ^ 18"
    by (simp split: option.split)
  let ?es = "[encode_uint64 (t_chain_id tx), encode_uint64 (t_nonce tx),
       encode_uint256 (t_max_priority_gas_price tx), encode_uint256 (t_max_gas_price tx),
       encode_uint64 (word_of_int (t_gas_limit tx)),
       encode_bytes (case t_to tx of Some a \<Rightarrow> be_store 20 a | None \<Rightarrow> []),
       encode_uint256 (t_value tx), encode_bytes (t_data tx), encode_access_list (t_access_list tx),
       encode_bytes (t_public_key tx), encode_bytes (t_signature tx)]"
  have "list_all (\<lambda>e. \<exists>b. e = Some b \<and> length b \<le> 2 ^ 18 + 4) ?es"
    using encode_integer_Some bytes [OF assms(1)] bytes [OF assms(2)] bytes [OF assms(3)] bytes [OF dst] assms(4,5)
    by simp
  then obtain c where c: "append_encodings ?es [] = Some c" "length c \<le> (2 ^ 18 + 4) * 11"
    using append_encodings_Some [of "2 ^ 18 + 4" ?es] by auto
  then have "\<exists>e. wrap_list c = Some e \<and> length e \<le> length c + 4"
    by (auto simp: wrap_list_def encode_length_def)
  then show ?thesis using c by (auto simp: rlp_encode_transaction_def encode_tuple_def)
qed

section \<open>The root of the accounts\<close>

text \<open>
  The root exists exactly when the keys are distinct and the values have encodings: the trie
  asserts that a key is not present.
\<close>

lemma insert_all_root:
  assumes "\<And>e. e \<in> set entries \<Longrightarrow> length (fst e) = 32 \<and> (\<forall>v. snd e = Some v \<longrightarrow> length v \<le> 2 ^ 22)"
  shows "insert_all entries None \<bind> MPT_hash keccak256 \<noteq> None \<longleftrightarrow>
    distinct (map fst entries) \<and> (\<forall>e \<in> set entries. snd e \<noteq> None)"
proof -
  let ?M = "map_of (map (\<lambda>e. (key_path (fst e), the (snd e))) entries)"
  have "represents None Map.empty" by (simp add: represents_def)
  then have r: "rel_option represents (insert_all entries None) (update_all entries Map.empty)"
    by (rule insert_all_refines [of _ _ _ 32]) (use assms in auto)
  show ?thesis
  proof (cases "distinct (map fst entries) \<and> (\<forall>e \<in> set entries. snd e \<noteq> None)")
    case True
    then obtain trie where t: "insert_all entries None = Some trie" "represents trie ?M"
      using r by (auto simp: update_all_eq option_rel_Some2)
    have entry: "length q \<le> 64 \<and> length v \<le> 2 ^ 22" if q: "?M q = Some v" for q v
    proof -
      obtain e where e: "e \<in> set entries" "q = key_path (fst e)" "v = the (snd e)"
        using map_of_SomeD [OF q] by auto
      then show ?thesis using assms [OF e(1)] True by auto
    qed
    have "MPT_hash keccak256 trie \<noteq> None"
    proof (cases trie)
      case (Some n)
      then have "wf_trie n" "trie_map n = ?M" using t(2) by (simp_all add: represents_def)
      then show ?thesis using hash_returns [of n keccak256] entry Some by (auto simp: MPT_hash_def)
    qed (simp add: MPT_hash_def)
    then show ?thesis using t(1) True by simp
  next
    case False
    then have "insert_all entries None = None" using r by (auto simp: update_all_eq split: if_splits)
    then show ?thesis using False by simp
  qed
qed

lemma hash_bytes_inject [simp]: "hash_bytes x = hash_bytes y \<longleftrightarrow> x = y"
  by (simp add: hash_bytes_def)

text \<open>The keys of the storage of an account that are in its trie.\<close>

definition stored_keys :: "Account \<Rightarrow> uint256 set" where
  "stored_keys acc = {key. \<exists>v. storage acc key = Some v \<and> sv_current v \<noteq> 0}"

lemma mpt_hash_storage_returns:
  assumes "visits stor (storage acc)"
  shows "mpt_hash_storage keccak256 stor \<noteq> None \<longleftrightarrow> inj_on (\<lambda>key. keccak256 (be_store 32 key)) (stored_keys acc)"
proof -
  let ?stor = "filter (\<lambda>(key, v). sv_current v \<noteq> 0) stor"
  let ?entry = "\<lambda>(key :: uint256, v :: StorageValue). (hash_bytes (keccak256 (be_store 32 key)), encode_bytes (trim (be_store 32 (sv_current v))))"
  have enc: "\<exists>b. encode_bytes (trim (be_store 32 (w :: uint256))) = Some b \<and> length b \<le> 2 ^ 22" for w
  proof -
    have "length (trim (be_store 32 w)) \<le> 32" using length_dropWhile_le by (metis length_be_store trim_def)
    then show ?thesis using encode_bytes_Some [of "trim (be_store 32 w)"] by force
  qed
  have mem: "(key, v) \<in> set stor \<longleftrightarrow> storage acc key = Some v" for key v
    using assms map_of_eq_Some_iff unfolding visits_def by metis
  have d: "distinct (map fst ?stor)" using assms by (simp add: visits_def distinct_map_filter)
  have s: "set (map fst ?stor) = stored_keys acc" by (force simp: mem stored_keys_def)
  have e: "length (fst (?entry x)) = 32 \<and> snd (?entry x) \<noteq> None \<and> (\<forall>v. snd (?entry x) = Some v \<longrightarrow> length v \<le> 2 ^ 22)" for x
    using enc [of "sv_current (snd x)"] by (cases x) auto
  have "mpt_hash_storage keccak256 stor \<noteq> None \<longleftrightarrow>
      distinct (map fst (map ?entry ?stor)) \<and> (\<forall>y \<in> set (map ?entry ?stor). snd y \<noteq> None)"
    unfolding mpt_hash_storage_def
  proof (rule insert_all_root)
    fix y assume "y \<in> set (map ?entry ?stor)"
    then obtain x where "y = ?entry x" unfolding set_map by (rule imageE)
    then show "length (fst y) = 32 \<and> (\<forall>v. snd y = Some v \<longrightarrow> length v \<le> 2 ^ 22)" using e [of x] by blast
  qed
  also have "\<dots> \<longleftrightarrow> distinct (map fst (map ?entry ?stor))"
    using e unfolding set_map ball_simps by (simp only: simp_thms) simp
  also have "map fst (map ?entry ?stor) = map (\<lambda>key. hash_bytes (keccak256 (be_store 32 key))) (map fst ?stor)"
    by (simp add: split_def)
  also have "distinct \<dots> \<longleftrightarrow> inj_on (\<lambda>key. keccak256 (be_store 32 key)) (stored_keys acc)"
    unfolding distinct_map [of _ "map fst ?stor"] s using d by (simp add: inj_on_def)
  finally show ?thesis .
qed

theorem mpt_hash_accounts_returns:
  assumes xs: "visits xs S" and slots: "\<And>addr acc. S addr = Some acc \<Longrightarrow> visits (slots (storage acc)) (storage acc)"
  shows "mpt_hash_accounts keccak256 slots xs \<noteq> None \<longleftrightarrow>
    inj_on (\<lambda>addr. keccak256 (be_store 20 addr)) (dom S) \<and>
    (\<forall>addr acc. S addr = Some acc \<longrightarrow> inj_on (\<lambda>key. keccak256 (be_store 32 key)) (stored_keys acc))"
proof -
  let ?entries = "map (account_entry keccak256 slots) xs"
  have mem: "(addr, acc) \<in> set xs \<longleftrightarrow> S addr = Some acc" for addr acc
    using xs by (auto simp: visits_def)
  have e: "length (fst (account_entry keccak256 slots (addr, acc))) = 32 \<and>
      (\<forall>v. snd (account_entry keccak256 slots (addr, acc)) = Some v \<longrightarrow> length v \<le> 2 ^ 22) \<and>
      (snd (account_entry keccak256 slots (addr, acc)) = None \<longleftrightarrow>
         \<not> inj_on (\<lambda>key. keccak256 (be_store 32 key)) (stored_keys acc))"
    if "(addr, acc) \<in> set xs" for addr acc
  proof (cases "mpt_hash_storage keccak256 (slots (storage acc))")
    case None
    have "\<not> inj_on (\<lambda>key. keccak256 (be_store 32 key)) (stored_keys acc)"
      using mpt_hash_storage_returns [OF slots [OF that [unfolded mem]], of keccak256] None by simp
    then show ?thesis using None by (simp add: account_entry_def)
  next
    case (Some h)
    let ?es = "[encode_uint64 (nonce acc), encode_uint256 (balance acc),
      encode_bytes (hash_bytes h), encode_bytes (hash_bytes (keccak256 (acc_code acc)))]"
    have "\<exists>b. encode_bytes (hash_bytes x) = Some b \<and> length b \<le> 2 ^ 18 + 4" for x
      using encode_bytes_Some [of "hash_bytes x"] by force
    then have "list_all (\<lambda>e. \<exists>b. e = Some b \<and> length b \<le> 2 ^ 18 + 4) ?es" using encode_integer_Some by simp
    then obtain c where c: "append_encodings ?es [] = Some c" "length c \<le> (2 ^ 18 + 4) * 4"
      using append_encodings_Some [of "2 ^ 18 + 4" ?es] by auto
    then have "\<exists>b. wrap_list c = Some b \<and> length b \<le> length c + 4" by (auto simp: wrap_list_def encode_length_def)
    then obtain b where "wrap_list c = Some b" "length b \<le> length c + 4" by blast
    then have "encode_tuple ?es = Some b" "length b \<le> 2 ^ 22" using c by (simp_all add: encode_tuple_def)
    moreover have "inj_on (\<lambda>key. keccak256 (be_store 32 key)) (stored_keys acc)"
      using mpt_hash_storage_returns [OF slots [OF that [unfolded mem]], of keccak256] Some by simp
    ultimately show ?thesis using Some by (simp add: account_entry_def)
  qed
  have d: "distinct (map fst xs)" and s: "set (map fst xs) = dom S" using xs dom_map_of_conv_image_fst [of xs] by (simp_all add: visits_def)
  have "mpt_hash_accounts keccak256 slots xs \<noteq> None \<longleftrightarrow>
      distinct (map fst ?entries) \<and> (\<forall>x \<in> set ?entries. snd x \<noteq> None)"
    unfolding mpt_hash_accounts_def
  proof (rule insert_all_root)
    fix x assume "x \<in> set ?entries"
    then obtain addr acc where "(addr, acc) \<in> set xs" "x = account_entry keccak256 slots (addr, acc)" by auto
    then show "length (fst x) = 32 \<and> (\<forall>v. snd x = Some v \<longrightarrow> length v \<le> 2 ^ 22)" using e by blast
  qed
  also have "map fst ?entries = map (\<lambda>addr. hash_bytes (keccak256 (be_store 20 addr))) (map fst xs)"
    by (simp add: account_entry_def split_def Let_def)
  also have "distinct \<dots> \<longleftrightarrow> inj_on (\<lambda>addr. keccak256 (be_store 20 addr)) (dom S)"
    unfolding distinct_map [of _ "map fst xs"] s using d by (simp add: inj_on_def)
  also have "(\<forall>x \<in> set ?entries. snd x \<noteq> None) \<longleftrightarrow>
      (\<forall>addr acc. S addr = Some acc \<longrightarrow> inj_on (\<lambda>key. keccak256 (be_store 32 key)) (stored_keys acc))"
  proof -
    have "(\<forall>x \<in> set ?entries. snd x \<noteq> None) \<longleftrightarrow>
        (\<forall>addr acc. (addr, acc) \<in> set xs \<longrightarrow> snd (account_entry keccak256 slots (addr, acc)) \<noteq> None)"
      by (auto simp del: not_None_eq)
    then show ?thesis using e mem by (simp only:) blast
  qed
  finally show ?thesis .
qed

end
