(* ===== verification/Zvm_Divergence.thy ===== *)
theory Zvm_Divergence
  imports Zvm_Baseline
begin

text \<open>
  The Baseline interpreter on two hosts that differ in \<open>call\<close> only.  As long as the calls that
  the code makes have the same outcome on both, the two executions are the same; after a call
  with different outcomes, the two hosts stay in the conditions \<open>D\<close> and \<open>E\<close> that the call has
  left them in, when these are stable under the effects of an execution.
\<close>

section \<open>Divergence\<close>

definition dvg :: "('h \<Rightarrow> bool) \<Rightarrow> ('h \<Rightarrow> bool) \<Rightarrow> ('r \<Rightarrow> 'h) \<Rightarrow> 'r option \<Rightarrow> 'r option \<Rightarrow> bool" where
  "dvg D E s x y \<longleftrightarrow> x = y \<or> (\<forall>r. x = Some r \<longrightarrow> D (s r)) \<and> (\<forall>r. y = Some r \<longrightarrow> E (s r))"

named_theorems dvg_intros \<open>backward rules for dvg, one per program construct\<close>

lemma dvg_same [simp, intro]: "dvg D E s x x"
  by (simp add: dvg_def)

lemma dvg_bindI [dvg_intros]: "(\<And>r. m = Some r \<Longrightarrow> dvg D E s (f r) (g r)) \<Longrightarrow> dvg D E s (m \<bind> f) (m \<bind> g)"
  by (cases m) simp_all

lemma dvg_ifI [dvg_intros]:
  "(b \<Longrightarrow> dvg D E s x y) \<Longrightarrow> (\<not> b \<Longrightarrow> dvg D E s x' y') \<Longrightarrow> dvg D E s (if b then x else x') (if b then y else y')"
  by simp

lemma dvg_letI [dvg_intros]: "(\<And>x. dvg D E s (f x) (g x)) \<Longrightarrow> dvg D E s (Let v f) (Let v g)"
  by simp

lemma dvg_prodI [dvg_intros]:
  "(\<And>a b. p = (a, b) \<Longrightarrow> dvg D E s (f a b) (g a b)) \<Longrightarrow>
   dvg D E s (case p of (a, b) \<Rightarrow> f a b) (case p of (a, b) \<Rightarrow> g a b)"
  by (cases p) simp

lemma dvg_optionI [dvg_intros]:
  "(p = None \<Longrightarrow> dvg D E s x y) \<Longrightarrow> (\<And>a. p = Some a \<Longrightarrow> dvg D E s (f a) (g a)) \<Longrightarrow>
   dvg D E s (case p of None \<Rightarrow> x | Some a \<Rightarrow> f a) (case p of None \<Rightarrow> y | Some a \<Rightarrow> g a)"
  by (cases p) simp_all

lemma dvg_apart:
  "(\<And>r. x = Some r \<Longrightarrow> D (s r)) \<Longrightarrow> (\<And>r. y = Some r \<Longrightarrow> E (s r)) \<Longrightarrow> dvg D E s x y"
  by (simp add: dvg_def)

text \<open>A computation that goes on the same way on both sides and keeps the conditions.\<close>

lemma dvg_bind:
  assumes "dvg D E s x y"
    and "\<And>r r'. f r = Some r' \<Longrightarrow> D (s r) \<Longrightarrow> D' (s' r')" and "\<And>r r'. f r = Some r' \<Longrightarrow> E (s r) \<Longrightarrow> E' (s' r')"
  shows "dvg D' E' s' (x \<bind> f) (y \<bind> f)"
proof (cases "x = y")
  case False
  then have "D (s r)" if "x = Some r" for r using assms(1) that by (simp add: dvg_def)
  moreover have "E (s r)" if "y = Some r" for r using assms(1) False that by (simp add: dvg_def)
  ultimately show ?thesis using assms(2,3) by (fastforce simp: dvg_def split: bind_splits)
qed simp

lemma dvg_map:
  assumes "dvg D E s x y" and "\<And>r r'. f r = Some r' \<Longrightarrow> s' r' = s r"
  shows "dvg D E s' (x \<bind> f) (y \<bind> f)"
  using assms(1) by (rule dvg_bind) (simp_all add: assms(2))

definition diverging :: "'h platform \<Rightarrow> 'h platform \<Rightarrow> ('h \<Rightarrow> bool) \<Rightarrow> ('h \<Rightarrow> bool) \<Rightarrow> bool" where
  "diverging P Q D E \<longleftrightarrow> Q = P\<lparr>host_call := host_call Q\<rparr> \<and>
     (\<forall>h m. 0 \<le> gas m \<longrightarrow> host_call P h m = host_call Q h m \<or> D (snd (host_call P h m)) \<and> E (snd (host_call Q h m)))"

section \<open>Instructions without calls\<close>

text \<open>Everything but \<open>call\<close> is the same.\<close>

lemma other_methods:
  "host_account_exists (P\<lparr>host_call := f\<rparr>) = host_account_exists P"
  "host_get_storage (P\<lparr>host_call := f\<rparr>) = host_get_storage P"
  "host_set_storage (P\<lparr>host_call := f\<rparr>) = host_set_storage P"
  "host_get_balance (P\<lparr>host_call := f\<rparr>) = host_get_balance P"
  "host_get_code_size (P\<lparr>host_call := f\<rparr>) = host_get_code_size P"
  "host_get_code_hash (P\<lparr>host_call := f\<rparr>) = host_get_code_hash P"
  "host_copy_code (P\<lparr>host_call := f\<rparr>) = host_copy_code P"
  "host_get_tx_context (P\<lparr>host_call := f\<rparr>) = host_get_tx_context P"
  "host_get_block_hash (P\<lparr>host_call := f\<rparr>) = host_get_block_hash P"
  "host_emit_log (P\<lparr>host_call := f\<rparr>) = host_emit_log P"
  "host_access_account (P\<lparr>host_call := f\<rparr>) = host_access_account P"
  "host_access_storage (P\<lparr>host_call := f\<rparr>) = host_access_storage P"
  "ethash_keccak256 (P\<lparr>host_call := f\<rparr>) = ethash_keccak256 P"
  "intx_sdivrem (P\<lparr>host_call := f\<rparr>) = intx_sdivrem P"
  "intx_addmod (P\<lparr>host_call := f\<rparr>) = intx_addmod P"
  "intx_mulmod (P\<lparr>host_call := f\<rparr>) = intx_mulmod P"
  "intx_exp (P\<lparr>host_call := f\<rparr>) = intx_exp P"
  "intx_count_significant_bytes (P\<lparr>host_call := f\<rparr>) = intx_count_significant_bytes P"
  "intx_slt (P\<lparr>host_call := f\<rparr>) = intx_slt P"
  by simp_all

lemma new_call: "host_call (P\<lparr>host_call := f\<rparr>) = f"
  by simp

lemma get_tx_context_call: "get_tx_context (P\<lparr>host_call := f\<rparr>) st = get_tx_context P st"
  by (simp add: get_tx_context_def)

lemma access_account_cost_call: "access_account_cost (P\<lparr>host_call := f\<rparr>) = access_account_cost P"
  by (intro ext) (simp add: access_account_cost_def)

lemmas same_methods = other_methods get_tx_context_call access_account_cost_call

lemma stack_impl_call: "stack_impl (P\<lparr>host_call := f\<rparr>) i = stack_impl P i"
proof -
  note defs = core_sdiv_def core_smod_def core_addmod_def core_mulmod_def core_slt_def core_sgt_def
  have "core_sdiv (P\<lparr>host_call := f\<rparr>) = core_sdiv P" "core_smod (P\<lparr>host_call := f\<rparr>) = core_smod P"
    "core_addmod (P\<lparr>host_call := f\<rparr>) = core_addmod P" "core_mulmod (P\<lparr>host_call := f\<rparr>) = core_mulmod P"
    "core_slt (P\<lparr>host_call := f\<rparr>) = core_slt P" "core_sgt (P\<lparr>host_call := f\<rparr>) = core_sgt P"
    unfolding defs same_methods by (rule refl)+
  then show ?thesis by (cases i) (simp_all add: fun_eq_iff)
qed

lemma state_impl_call: "state_impl i (P\<lparr>host_call := f\<rparr>) = state_impl i P"
proof -
  have "push_tx x (P\<lparr>host_call := f\<rparr>) = push_tx x P" for x
    by (intro ext) (simp add: push_tx_def get_tx_context_call)
  moreover have "core_blockhash (P\<lparr>host_call := f\<rparr>) = core_blockhash P"
    "core_selfbalance (P\<lparr>host_call := f\<rparr>) = core_selfbalance P"
    unfolding core_blockhash_def core_selfbalance_def same_methods by (rule refl)+
  ultimately show ?thesis
    by (cases i) (simp_all add: fun_eq_iff core_address_def core_origin_def core_caller_def core_callvalue_def
      core_calldataload_def core_calldatasize_def core_codesize_def core_gasprice_def core_basefee_def
      core_returndatasize_def core_coinbase_def core_timestamp_def core_number_def
      core_prevrandao_def core_gaslimit_def core_chainid_def core_msize_def)
qed

lemma term_impl_call: "term_impl i (P\<lparr>host_call := f\<rparr>) = term_impl i P"
  by (intro ext, cases i) (simp_all add: core_stop_impl_def core_return_impl_def)

definition makes_calls :: "result_op \<Rightarrow> bool" where
  "makes_calls i \<longleftrightarrow> i \<in> {Id_call, Id_delegatecall, Id_staticcall, Id_create, Id_create2}"

lemma result_impl_call: "\<not> makes_calls i \<Longrightarrow> result_impl i (P\<lparr>host_call := f\<rparr>) = result_impl i P"
proof -
  note defs = core_exp_def core_keccak256_def core_balance_def core_calldatacopy_def core_codecopy_def
    buffer_copy_def core_extcodesize_def core_extcodecopy_def core_returndatacopy_def core_extcodehash_def
    core_mload_def core_mstore_def core_mstore8_def core_sload_def core_sstore_def core_gas_def
    core_log_def account_query_def
  assume "\<not> makes_calls i"
  then show ?thesis
    by (intro ext, cases i) (auto simp: makes_calls_def, unfold defs same_methods, (rule refl)+)
qed

section \<open>Instructions with calls\<close>

lemma st_write_host: "st_write st off bs = Some st' \<Longrightarrow> host st' = host st"
  by (auto simp: st_write_def split: bind_splits)

lemma st_set_host: "st_set st t i v = Some st' \<Longrightarrow> host st' = host st"
  by (auto simp: st_set_def split: bind_splits)

lemma call_host_diverges:
  assumes d: "diverging P Q D E" and g: "0 \<le> g"
  shows "dvg D E (host \<circ> snd) (call_host gas256 v m oo os P t g st) (call_host gas256 v m oo os Q t g st)"
proof -
  obtain f where Q: "Q = P\<lparr>host_call := f\<rparr>" using d by (auto simp: diverging_def)
  let ?r = "host_call P (host st) (m\<lparr>gas := call_gas gas256 v g\<rparr>)"
  let ?r' = "f (host st) (m\<lparr>gas := call_gas gas256 v g\<rparr>)"
  have "?r = ?r' \<or> D (snd ?r) \<and> E (snd ?r')"
    using d call_gas_bounds [OF g, of gas256 v] by (auto simp: diverging_def Q)
  then show ?thesis
  proof
    assume "?r = ?r'"
    then show ?thesis unfolding Q call_host_eq [OF g] by (simp only: other_methods new_call dvg_same)
  next
    assume "D (snd ?r) \<and> E (snd ?r')"
    moreover obtain x h x' h' where "?r = (x, h)" "?r' = (x', h')" by fastforce
    ultimately show ?thesis unfolding Q call_host_eq [OF g] Let_def other_methods new_call
      by (simp only: prod.case snd_conv)
         (intro dvg_ifI dvg_same dvg_apart; auto split: bind_splits if_splits dest!: st_write_host st_set_host)
  qed
qed

lemma call_impl_diverges:
  assumes d: "diverging P Q D E"
  shows "dvg D E (host \<circ> snd) (call_impl Op P t g st) (call_impl Op Q t g st)"
proof -
  obtain f where Q: "Q = P\<lparr>host_call := f\<rparr>" using d by (auto simp: diverging_def)
  show ?thesis
    unfolding call_impl_def Q same_methods
    by (intro dvg_intros dvg_same call_host_diverges [OF d [unfolded Q]]) simp_all
qed

lemma create_host_diverges:
  assumes d: "diverging P Q D E" and g: "0 \<le> g"
  shows "dvg D E (host \<circ> snd) (create_host Op v salt off n P t g st) (create_host Op v salt off n Q t g st)"
proof -
  have diff: "0 \<le> g - g sdiv 64" using g by (simp add: sdiv_64)
  define c where "c input = empty_message
      \<lparr>gas := g - g sdiv 64, kind := (if Op = OP_CREATE then ZVMC_CREATE else ZVMC_CREATE2),
       input_data := input, sender := recipient (msg st), depth := depth (msg st) + 1,
       create2_salt := salt, msg_value := v\<rparr>" for input
  have eq: "host_call P (host st) (c input) = host_call Q (host st) (c input) \<or>
      D (snd (host_call P (host st) (c input))) \<and> E (snd (host_call Q (host st) (c input)))" for input
    using d diff by (simp add: diverging_def c_def)
  show ?thesis unfolding create_host_def Let_def c_def [symmetric]
  proof (rule dvg_bindI)
    fix input
    show "dvg D E (host \<circ> snd)
      (case host_call P (host st) (c input) of (result, h) \<Rightarrow>
        (if res_status result = ZVMC_SUCCESS
         then st_set (st\<lparr>host := h, gas_refund := gas_refund (st\<lparr>host := h\<rparr>) + res_gas_refund result,
           return_data := output_data result\<rparr>) t 0 (ucast (create_address result))
         else Some (st\<lparr>host := h, gas_refund := gas_refund (st\<lparr>host := h\<rparr>) + res_gas_refund result,
           return_data := output_data result\<rparr>)) \<bind>
        (\<lambda>st. Some ((ZVMC_SUCCESS, g - (g - g sdiv 64 - res_gas_left result)), st)))
      (case host_call Q (host st) (c input) of (result, h) \<Rightarrow>
        (if res_status result = ZVMC_SUCCESS
         then st_set (st\<lparr>host := h, gas_refund := gas_refund (st\<lparr>host := h\<rparr>) + res_gas_refund result,
           return_data := output_data result\<rparr>) t 0 (ucast (create_address result))
         else Some (st\<lparr>host := h, gas_refund := gas_refund (st\<lparr>host := h\<rparr>) + res_gas_refund result,
           return_data := output_data result\<rparr>)) \<bind>
        (\<lambda>st. Some ((ZVMC_SUCCESS, g - (g - g sdiv 64 - res_gas_left result)), st)))"
      using eq [of input]
    proof
      assume "D (snd (host_call P (host st) (c input))) \<and> E (snd (host_call Q (host st) (c input)))"
      then show ?thesis
        by (cases "host_call P (host st) (c input)"; cases "host_call Q (host st) (c input)")
           (auto split: bind_splits if_splits dest!: st_set_host intro!: dvg_apart)
    qed (simp only: dvg_same)
  qed
qed

lemma create_impl_diverges:
  assumes d: "diverging P Q D E"
  shows "dvg D E (host \<circ> snd) (create_impl Op P t g st) (create_impl Op Q t g st)"
proof -
  obtain f where Q: "Q = P\<lparr>host_call := f\<rparr>" using d by (auto simp: diverging_def)
  show ?thesis
    unfolding create_impl_def Q same_methods
    by (intro dvg_intros dvg_same create_host_diverges [OF d [unfolded Q]]) simp_all
qed

lemma result_impl_diverges:
  assumes d: "diverging P Q D E"
  shows "dvg D E (host \<circ> snd) (result_impl i P t g st) (result_impl i Q t g st)"
proof (cases "makes_calls i")
  case True
  then show ?thesis using call_impl_diverges [OF d] create_impl_diverges [OF d]
    by (auto simp: makes_calls_def)
next
  case False
  then have "result_impl i (P\<lparr>host_call := f\<rparr>) = result_impl i P" for f by (rule result_impl_call)
  then show ?thesis using d unfolding diverging_def by (metis dvg_same)
qed

section \<open>The loop\<close>

lemma invoke_impl_diverges:
  assumes d: "diverging P Q D E"
  shows "dvg D E (host \<circ> snd \<circ> snd) (invoke_impl P i pos t g st) (invoke_impl Q i pos t g st)"
proof -
  obtain f where Q: "Q = P\<lparr>host_call := f\<rparr>" using d by (auto simp: diverging_def)
  show ?thesis
  proof (cases i)
    case (Result_op j)
    show ?thesis unfolding Result_op invoke_impl.simps
    proof (rule dvg_map [OF result_impl_diverges [OF d]])
      fix r r'
      assume "(case r of (x, st) \<Rightarrow> (case x of (s, g) \<Rightarrow> \<lambda>st. if s \<noteq> ZVMC_SUCCESS then Some (None, g, st\<lparr>status := s\<rparr>)
        else Some (Some (pos + 1), g, st)) st) = Some r'"
      then show "(host \<circ> snd \<circ> snd) r' = (host \<circ> snd) r" by (auto split: prod.splits if_splits)
    qed
  next
    case (Stack_op j)
    show ?thesis unfolding Stack_op Q invoke_impl.simps stack_impl_call by (rule dvg_same)
  next
    case (State_op j)
    show ?thesis unfolding State_op Q invoke_impl.simps state_impl_call by (rule dvg_same)
  next
    case (Iter_op j)
    show ?thesis unfolding Iter_op invoke_impl.simps by (rule dvg_same)
  next
    case (Term_op j)
    show ?thesis unfolding Term_op Q invoke_impl.simps term_impl_call by (rule dvg_same)
  qed
qed

text \<open>The host after a step of the loop.\<close>

definition step_host :: "'h config + int \<times> 'h exec_state \<Rightarrow> 'h" where
  "step_host r = (case r of Inl (pos, t, g, st) \<Rightarrow> host st | Inr (g, st) \<Rightarrow> host st)"

lemma dispatch_op_diverges:
  assumes d: "diverging P Q D E"
  shows "dvg D E step_host (dispatch_op P ct op target c) (dispatch_op Q ct op target c)"
proof (cases c)
  case (fields pos t g st)
  show ?thesis
  proof (cases target)
    case (Some i)
    have "dvg D E (host \<circ> snd \<circ> snd) (invoke P op i ct pos t g st) (invoke Q op i ct pos t g st)"
      unfolding invoke_def
      by (intro dvg_intros dvg_same) (auto intro!: dvg_map [OF invoke_impl_diverges [OF d]])
    then show ?thesis
      by (auto simp: dispatch_op_def fields Some step_host_def split: option.splits intro!: dvg_map)
  qed (simp add: dispatch_op_def fields)
qed

lemma switch_step_diverges:
  assumes d: "diverging P Q D E"
  shows "dvg D E step_host (switch_step P ct c) (switch_step Q ct c)"
  unfolding switch_step_def by (intro dvg_bindI dispatch_op_diverges [OF d])

text \<open>A condition on hosts that an execution of the message keeps.\<close>

definition stable_under :: "'h platform \<Rightarrow> message \<Rightarrow> ('h \<Rightarrow> bool) \<Rightarrow> bool" where
  "stable_under P m D \<longleftrightarrow> (\<forall>h n h'. vm_effects P m h n h' \<longrightarrow> D h \<longrightarrow> D h')"

lemma stable_earns: "stable_under P m D \<Longrightarrow> earns P b m h r h' r' \<Longrightarrow> D h \<Longrightarrow> D h'"
  unfolding stable_under_def earns_def by blast

context zvmc_host
begin

text \<open>What happens on one of the hosts after the divergence.\<close>

lemma diverged_dispatch:
  assumes s: "stable_under P (msg st) D" and cfg: "cfg_ok code (pos, t, g, st)"
    and r: "switch_step P ct (pos, t, g, st) = Some r" and D: "D (step_host r)"
    and e: "dispatch P ct (pos, t, g, st) = Some out"
  shows "D (host (snd out))"
proof (cases r)
  case (Inr out')
  then have "out = out'" using e r by (subst (asm) dispatch.simps) simp
  then show ?thesis using D Inr by (cases out') (simp add: step_host_def)
next
  case (Inl c)
  obtain p t' g' st' where c: "c = (p, t', g', st')" by (metis prod_cases4)
  have ok: "cfg_ok code (p, t', g', st')" "framed st st'"
    using switch_step_ok [OF cfg, of ct] r Inl c by (auto simp: returns_def step_ok_def)
  have "dispatch P ct (p, t', g', st') = Some out"
    using e r Inl c by (subst (asm) dispatch.simps) simp
  then have "effects_ok P (status (snd out) = ZVMC_SUCCESS) st' (snd out)"
    using dispatch_returns [OF ok(1), of ct] by (cases out) (auto simp: returns_def end_ok_def)
  then show ?thesis
    using stable_earns [OF s] framed_msg [OF ok(2)] D Inl c by (auto simp: step_host_def)
qed

end

lemma dispatch_diverges:
  assumes P: "zvmc_host P" and Q: "zvmc_host Q" and d: "diverging P Q D E"
    and s: "stable_under P m D" "stable_under Q m E"
  shows "cfg_ok code (pos, t, g, st) \<Longrightarrow> msg st = m \<Longrightarrow>
    dvg D E (host \<circ> snd) (dispatch P ct (pos, t, g, st)) (dispatch Q ct (pos, t, g, st))"
proof (induction "nat g" arbitrary: pos t g st rule: less_induct)
  case less
  let ?c = "(pos, t, g, st)"
  obtain r r' where r: "switch_step P ct ?c = Some r" "step_ok P code g st r"
    and r': "switch_step Q ct ?c = Some r'" "step_ok Q code g st r'"
    using zvmc_host.switch_step_ok [OF P less.prems(1), of ct] zvmc_host.switch_step_ok [OF Q less.prems(1), of ct]
    by (auto simp: returns_def)
  show ?case
  proof (cases "r = r'")
    case False
    then have "D (step_host r)" "E (step_host r')"
      using switch_step_diverges [OF d, of ct ?c] r r' by (auto simp: dvg_def)
    then have "D (host (snd out))" if "dispatch P ct ?c = Some out" for out
      using zvmc_host.diverged_dispatch [OF P _ less.prems(1) r(1) _ that] s(1) less.prems(2) by blast
    moreover have "E (host (snd out))" if "dispatch Q ct ?c = Some out" for out
      using zvmc_host.diverged_dispatch [OF Q _ less.prems(1) r'(1) _ that] s(2) less.prems(2) \<open>E (step_host r')\<close> by blast
    ultimately show ?thesis by (simp add: dvg_apart)
  next
    case True
    show ?thesis
    proof (cases r)
      case (Inr out)
      then show ?thesis using True r r' by (simp add: dispatch.simps [of _ ct ?c])
    next
      case (Inl c)
      obtain p t' g' st' where c: "c = (p, t', g', st')" by (metis prod_cases4)
      then have ok: "cfg_ok code (p, t', g', st')" "g' < g" "framed st st'"
        using r Inl by (auto simp: step_ok_def)
      have "nat g' < nat g" using ok(1,2) by (auto simp: cfg_ok_def)
      from less.hyps [OF this ok(1)] have "dvg D E (host \<circ> snd) (dispatch P ct c) (dispatch Q ct c)"
        using framed_msg [OF ok(3)] less.prems(2) c by simp
      then show ?thesis using r(1) r'(1) unfolding dispatch.simps [of _ ct ?c] True [symmetric] Inl by simp
    qed
  qed
qed

theorem execute_diverges:
  assumes P: "zvmc_host P" and Q: "zvmc_host Q" and d: "diverging P Q D E"
    and s: "stable_under P m D" "stable_under Q m E" and g: "0 \<le> gas m"
  shows "dvg D E snd (execute P cgoto h r m code) (execute Q cgoto h r m code)"
proof -
  let ?st = "(ExecutionState P m r h code)\<lparr>analysis := analyze r code\<rparr>"
  let ?ct = "get_baseline_cost_table r"
  have st: "ExecutionState Q m r h code = ExecutionState P m r h code"
  proof -
    obtain f where "Q = P\<lparr>host_call := f\<rparr>" using d by (auto simp: diverging_def)
    then show ?thesis by (simp add: ExecutionState_def)
  qed
  have "dvg D E (host \<circ> snd) (dispatch P ?ct (0, 0, gas m, ?st)) (dispatch Q ?ct (0, 0, gas m, ?st))"
    by (rule dispatch_diverges [OF P Q d s zvmc_host.initial_cfg [OF P g]]) (simp add: ExecutionState_def)
  moreover have rev: "st_rev ?st = r" by (simp add: ExecutionState_def)
  ultimately have "dvg D E (host \<circ> snd) (execute_state P cgoto (gas m) (ExecutionState P m r h code) (analyze r code))
      (execute_state Q cgoto (gas m) (ExecutionState P m r h code) (analyze r code))"
    unfolding execute_state_def Let_def dispatch_cgoto_eq if_cancel rev
    by (elim dvg_map) (auto split: if_splits bind_splits)
  then show ?thesis unfolding execute_def st by (rule dvg_map) auto
qed

end
