(* ===== verification/Zvm_Undefined.thy ===== *)
theory Zvm_Undefined
  imports Zvm_Block Zvm_Divergence
begin

text \<open>
  The precompiled contracts of the repository are not defined for every request
  (\<open>undefined_request\<close>), so that a run of the host may have undefined behaviour.  This theory
  shows that there is no other reason for that: it compares the host with a host that has a
  trap in place of the undefined requests.  The host with the trap always returns; when it
  returns without having stepped into the trap, the host of the repository returns the same,
  and otherwise the host of the repository has undefined behaviour.
\<close>

section \<open>The trap\<close>

text \<open>
  The trap leaves its mark in the map of the cache for the contract 0, which does not exist: the
  program uses only the maps of the contracts that it calls.
\<close>

definition trapped :: "precompile_cache \<Rightarrow> bool" where
  "trapped cache \<longleftrightarrow> cache 0 0 \<noteq> None"

definition with_trap :: "(bytes \<Rightarrow> uint256) \<Rightarrow> precompiles" where
  "with_trap keccak256 r m cache =
     (if undefined_request keccak256 r m cache then Some (None, cache(0 := [0 \<mapsto> None]))
      else call_precompile keccak256 r m cache)"

lemma with_trap_returns: "0 \<le> gas m \<Longrightarrow> with_trap k r m cache \<noteq> None"
  using call_precompile_None [of m k r cache] by (auto simp: with_trap_def)

interpretation trap: precompiled_contracts "with_trap keccak256" for keccak256
  by unfold_locales (auto simp: with_trap_def dest: call_precompile_gas split: if_splits)

lemma call_precompile_untrapped:
  assumes "call_precompile k r m cache = Some (x, cache')"
  shows "trapped cache' = trapped cache"
proof -
  have "unat (code_address m) mod 256 \<noteq> 0" if "code_address m \<noteq> 0" "code_address m < 10"
    using that by (auto simp: word_less_nat_alt unat_eq_zero)
  then show ?thesis using assms
    by (auto simp: call_precompile_def Let_def trapped_def cache_insert_def NumPrecompiles_def not_le
        split: if_splits bind_splits option.splits)
qed

lemma with_trap_sticky:
  "with_trap k r m cache = Some (x, cache') \<Longrightarrow> trapped cache \<Longrightarrow> trapped cache'"
  by (auto simp: with_trap_def trapped_def dest: call_precompile_untrapped [unfolded trapped_def] split: if_splits)

section \<open>What happens to the cache\<close>

definition cache_kept :: "(precompile_cache \<Rightarrow> bool) \<Rightarrow> (message \<Rightarrow> 'a \<Rightarrow> Host \<Rightarrow> (zvmc_result \<times> Host) option) \<Rightarrow> bool" where
  "cache_kept I run \<longleftrightarrow> (\<forall>m x H res H'. 0 \<le> gas m \<longrightarrow> run m x H = Some (res, H') \<longrightarrow> I (m_cache H) \<longrightarrow> I (m_cache H'))"

lemma cache_keptD:
  "cache_kept I run \<Longrightarrow> 0 \<le> gas m \<Longrightarrow> run m x H = Some (res, H') \<Longrightarrow> I (m_cache H) \<Longrightarrow> I (m_cache H')"
  unfolding cache_kept_def by blast

lemma access_account_cache: "Host_access_account H a = Some (r, H') \<Longrightarrow> m_cache H' = m_cache H"
  by (auto simp: Host_access_account_def Let_def split: bind_splits if_splits)

lemma access_storage_cache: "Host_access_storage H a k = Some (r, H') \<Longrightarrow> m_cache H' = m_cache H"
  by (auto simp: Host_access_storage_def Let_def split: bind_splits if_splits)

lemma set_storage_cache: "Host_set_storage H a k v = Some (r, H') \<Longrightarrow> m_cache H' = m_cache H"
  by (auto simp: Host_set_storage_def Let_def split: bind_splits)

lemma prepare_message_cache: "prepare_message k m H = Some (r, H') \<Longrightarrow> m_cache H' = m_cache H"
  by (auto simp: prepare_message_def Let_def split: if_splits bind_splits dest: access_account_cache)

lemma enter_call_cache: "enter_call m H = Some H' \<Longrightarrow> m_cache H' = m_cache H"
  by (auto simp: enter_call_def split: if_splits bind_splits)

lemma deploy_code_cache: "deploy_code m r H = Some (res, H') \<Longrightarrow> m_cache H' = m_cache H"
  by (auto simp: deploy_code_def Let_def split: if_splits bind_splits)

lemma effects_cache:
  assumes "vm_effects (host_interface L call) m p n p'" and calls: "cache_kept I (\<lambda>m (_ :: unit) H. call H m)"
  shows "p' = Some H' \<Longrightarrow> \<exists>H. p = Some H \<and> (I (m_cache H) \<longrightarrow> I (m_cache H'))"
  using assms(1)
proof (induction arbitrary: H' rule: vm_effects.induct)
  case (eff_account n p' a)
  then show ?case by (auto simp: host_interface_def host_method_Some dest!: access_account_cache)
next
  case (eff_access_storage n p' k)
  then show ?case by (auto simp: host_interface_def host_method_Some dest!: access_storage_cache)
next
  case (eff_set_storage n p' r k v)
  then show ?case by (auto simp: host_interface_def host_method_Some dest!: set_storage_cache)
next
  case (eff_log n p' d ts)
  then show ?case by (auto simp: host_interface_def Host_emit_log_def)
next
  case (eff_call n p' c)
  then obtain H1 r where H1: "p' = Some H1" "call H1 c = Some (r, H')"
    by (auto simp: host_interface_def host_method_Some)
  have "0 \<le> gas c" using eff_call.hyps(2) by (simp add: call_allowed_def)
  from cache_keptD [OF calls this H1(2)] show ?case using eff_call.IH [OF H1(1)] by blast
qed simp

text \<open>The two conditions on the process: it has ended, and its cache, if any, satisfies \<open>I\<close>.\<close>

abbreviation ended :: "process \<Rightarrow> bool" where
  "ended p \<equiv> p = None"

definition cache_sat :: "(precompile_cache \<Rightarrow> bool) \<Rightarrow> process \<Rightarrow> bool" where
  "cache_sat I p \<longleftrightarrow> (\<forall>H. p = Some H \<longrightarrow> I (m_cache H))"

lemma ended_stable: "stable_under (host_interface L call) m ended"
proof -
  have "vm_effects (host_interface L call) m p n p' \<Longrightarrow> p = None \<Longrightarrow> p' = None" for p n p'
    by (induction rule: vm_effects.induct) (auto simp: host_interface_def host_method_def)
  then show ?thesis by (auto simp: stable_under_def)
qed

lemma cache_stable:
  "cache_kept I (\<lambda>m (_ :: unit) H. call H m) \<Longrightarrow> stable_under (host_interface L call) m (cache_sat I)"
  using effects_cache by (fastforce simp: stable_under_def cache_sat_def)

lemma run_vm_eq:
  assumes "vm_execute_ptr vm = Baseline_execute"
  shows "run_vm P vm m c H = execute P False (Some H) (m_rev H) m c \<bind> (\<lambda>(result, p). p \<bind> (\<lambda>H. Some (result, H)))"
  unfolding vm_execute_baseline [OF assms, symmetric] run_vm_def
  by (cases "vm_execute P vm (Some H) (m_rev H) m c") (simp_all add: split_def)

lemma run_vm_cache:
  assumes P: "zvmc_host (host_interface L call)" and vm: "vm_execute_ptr vm = Baseline_execute"
    and calls: "cache_kept I (\<lambda>m (_ :: unit) H. call H m)"
  shows "cache_kept I (run_vm (host_interface L call) vm)"
proof -
  have "I (m_cache H')" if g: "0 \<le> gas m" and r: "run_vm (host_interface L call) vm m c H = Some (res, H')"
    and I: "I (m_cache H)" for m c H res H'
  proof -
    have "execute (host_interface L call) False (Some H) (m_rev H) m c = Some (res, Some H')"
      using r unfolding run_vm_eq [OF vm] by (auto split: bind_splits)
    then obtain n where "vm_effects (host_interface L call) m (Some H) n (Some H')"
      using zvmc_host.execute_returns [OF P g, of False "Some H" "m_rev H" c]
      by (auto simp: vm_ok_def earns_def returns_def)
    from effects_cache [OF this calls refl] I show ?thesis by simp
  qed
  then show ?thesis unfolding cache_kept_def by blast
qed

lemma Host_create_cache:
  assumes "cache_kept I run" "0 \<le> gas m" and "Host_create run m H = Some (res, H')" "I (m_cache H)"
  shows "I (m_cache H')"
  using assms(2-4) cache_keptD [OF assms(1), of "m\<lparr>input_data := []\<rparr>" "input_data m"]
  by (fastforce simp: Host_create_def split: if_splits bind_splits dest!: deploy_code_cache)

text \<open>A condition that the precompiled contracts keep is kept by every call.\<close>

definition keeps :: "precompiles \<Rightarrow> (precompile_cache \<Rightarrow> bool) \<Rightarrow> bool" where
  "keeps precompile I \<longleftrightarrow> (\<forall>r m c x c'. precompile r m c = Some (x, c') \<longrightarrow> I c \<longrightarrow> I c')"

lemma execute_message_cache:
  assumes run: "cache_kept I run" and g: "0 \<le> gas m" and k: "keeps precompile I"
    and e: "execute_message precompile run m H = Some (res, H')" and I: "I (m_cache H)"
  shows "I (m_cache H')"
proof (cases "creates m")
  case True
  then show ?thesis using Host_create_cache [OF run g _ I] e by (simp add: execute_message_def)
next
  case False
  then obtain H1 where H1: "enter_call m H = Some H1"
    using e by (auto simp: execute_message_def split: if_splits bind_splits)
  obtain x cache where x: "precompile (m_rev H1) m (m_cache H1) = Some (x, cache)"
    using e H1 False by (auto simp: execute_message_def Let_def split: if_splits bind_splits)
  have c: "x = Some res \<and> H' = H1\<lparr>m_cache := cache\<rparr> \<or> (\<exists>c. run m c (H1\<lparr>m_cache := cache\<rparr>) = Some (res, H'))"
    using e H1 x False by (auto simp: execute_message_def Let_def split: if_splits option.splits)
  have "I cache" using k x I enter_call_cache [OF H1] unfolding keeps_def by metis
  then show ?thesis using c cache_keptD [OF run g] by fastforce
qed

lemma Host_call_cache:
  assumes run: "cache_kept I run" and g: "0 \<le> gas m" and k: "keeps precompile I"
    and c: "Host_call h precompile run H m = Some (res, H')" and I: "I (m_cache H)"
  shows "I (m_cache H')"
proof -
  obtain p H1 where p: "prepare_message h m H = Some (p, H1)"
    using c by (auto simp: Host_call_def split: bind_splits)
  have I1: "I (m_cache H1)" using prepare_message_cache [OF p] I by simp
  show ?thesis
  proof (cases p)
    case None
    then show ?thesis using c p I1 by (auto simp: Host_call_def)
  next
    case (Some m1)
    then obtain H2 where e: "execute_message precompile run m1 H1 = Some (res, H2)" and H': "m_cache H' = m_cache H2"
      using c p by (auto simp: Host_call_def Let_def split: if_splits bind_splits)
    have "0 \<le> gas m1" using prepare_message_keeps p Some g by metis
    from execute_message_cache [OF run this k e I1] show ?thesis using H' by simp
  qed
qed

context precompiled_contracts
begin

lemma calls_cache:
  assumes vm: "vm_execute_ptr vm = Baseline_execute" and k: "keeps precompile I"
  shows "cache_kept I (\<lambda>m (_ :: unit) H. host_calls_with precompile L vm n H m)"
proof (induction n)
  case 0
  show ?case by (auto simp: cache_kept_def)
next
  case (Suc n)
  from Host_call_cache [OF run_vm_cache [OF platform_laws [OF vm] vm Suc] _ k]
  show ?case by (auto simp: cache_kept_def)
qed

end

section \<open>The comparison\<close>

text \<open>
  \<open>x\<close> is the outcome for the contracts of the repository, \<open>y\<close> the one with the trap: they are the
  same, or \<open>x\<close> is undefined and the trap has been stepped into.
\<close>

abbreviation splits :: "(zvmc_result \<times> Host) option \<Rightarrow> (zvmc_result \<times> Host) option \<Rightarrow> bool" where
  "splits \<equiv> dvg (\<lambda>_. False) trapped (m_cache \<circ> snd)"

definition splitting :: "(message \<Rightarrow> 'a \<Rightarrow> Host \<Rightarrow> (zvmc_result \<times> Host) option) \<Rightarrow>
    (message \<Rightarrow> 'a \<Rightarrow> Host \<Rightarrow> (zvmc_result \<times> Host) option) \<Rightarrow> bool" where
  "splitting run run' \<longleftrightarrow> (\<forall>m x H. 0 \<le> gas m \<longrightarrow> splits (run m x H) (run' m x H))"

lemma splits_cases: "splits x y \<longleftrightarrow> x = y \<or> x = None \<and> (\<forall>r H. y = Some (r, H) \<longrightarrow> trapped (m_cache H))"
  by (cases x) (auto simp: dvg_def)

lemma interfaces_diverge:
  assumes "splitting (\<lambda>m (_ :: unit) H. call H m) (\<lambda>m _ H. call' H m)"
  shows "diverging (host_interface L call) (host_interface L call') ended (cache_sat trapped)"
proof -
  have "host_method stopped_result (\<lambda>H. call H m) p = host_method stopped_result (\<lambda>H. call' H m) p \<or>
      ended (snd (host_method stopped_result (\<lambda>H. call H m) p)) \<and>
      cache_sat trapped (snd (host_method stopped_result (\<lambda>H. call' H m) p))" if "0 \<le> gas m" for p m
  proof (cases p)
    case (Some H)
    have "splits (call H m) (call' H m)" using assms that by (simp add: splitting_def)
    then show ?thesis unfolding splits_cases
      by (cases "call' H m") (auto simp: Some host_method_def cache_sat_def)
  qed (simp add: host_method_def)
  then show ?thesis by (simp add: diverging_def host_interface_def)
qed

lemma run_vm_splits:
  assumes P: "zvmc_host (host_interface L call)" and Q: "zvmc_host (host_interface L call')"
    and vm: "vm_execute_ptr vm = Baseline_execute"
    and s: "splitting (\<lambda>m (_ :: unit) H. call H m) (\<lambda>m _ H. call' H m)"
    and k: "cache_kept trapped (\<lambda>m (_ :: unit) H. call' H m)"
  shows "splitting (run_vm (host_interface L call) vm) (run_vm (host_interface L call') vm)"
proof -
  have "splits (run_vm (host_interface L call) vm m c H) (run_vm (host_interface L call') vm m c H)"
    if g: "0 \<le> gas m" for m c H
    unfolding run_vm_eq [OF vm]
    by (rule dvg_bind [OF execute_diverges [OF P Q interfaces_diverge [OF s] ended_stable cache_stable [OF k] g]])
       (auto simp: cache_sat_def split: bind_splits)
  then show ?thesis by (simp add: splitting_def)
qed

lemma Host_create_splits:
  assumes s: "splitting run run'" and g: "0 \<le> gas m"
  shows "splits (Host_create run m H) (Host_create run' m H)"
proof -
  have "splits (run (m\<lparr>input_data := []\<rparr>) x H) (run' (m\<lparr>input_data := []\<rparr>) x H)" for x H
    using s g by (simp add: splitting_def)
  then show ?thesis unfolding Host_create_def
    by (intro dvg_intros dvg_same dvg_map) (auto split: if_splits dest!: deploy_code_cache)
qed

lemma execute_message_splits:
  assumes s: "splitting run run'" and k: "cache_kept trapped run'" and g: "0 \<le> gas m"
  shows "splits (execute_message (call_precompile h) run m H) (execute_message (with_trap h) run' m H)"
proof (cases "creates m")
  case True
  then show ?thesis using Host_create_splits [OF s g] by (simp add: execute_message_def)
next
  case False
  let ?code = "\<lambda>H. case state_find (m_state H) (if kind m = ZVMC_CALL then recipient m else code_address m) of
      None \<Rightarrow> [] | Some acc \<Rightarrow> acc_code acc"
  have "splits (call_precompile h (m_rev H1) m (m_cache H1) \<bind> (\<lambda>(pr, cache). case pr of
        Some result \<Rightarrow> Some (result, H1\<lparr>m_cache := cache\<rparr>)
      | None \<Rightarrow> run m (?code (H1\<lparr>m_cache := cache\<rparr>)) (H1\<lparr>m_cache := cache\<rparr>)))
    (with_trap h (m_rev H1) m (m_cache H1) \<bind> (\<lambda>(pr, cache). case pr of
        Some result \<Rightarrow> Some (result, H1\<lparr>m_cache := cache\<rparr>)
      | None \<Rightarrow> run' m (?code (H1\<lparr>m_cache := cache\<rparr>)) (H1\<lparr>m_cache := cache\<rparr>)))" for H1
  proof (cases "undefined_request h (m_rev H1) m (m_cache H1)")
    case True
    have u: "call_precompile h (m_rev H1) m (m_cache H1) = None"
      using True call_precompile_None [OF g] by blast
    have "trapped (m_cache H')" if "run' m c (H1\<lparr>m_cache := (m_cache H1)(0 := [0 \<mapsto> None])\<rparr>) = Some (r, H')" for c r H'
      using cache_keptD [OF k g that] by (simp add: trapped_def fun_eq_iff split: if_splits)
    then show ?thesis using u True by (auto simp: with_trap_def splits_cases)
  next
    case False
    then have "with_trap h (m_rev H1) m (m_cache H1) = call_precompile h (m_rev H1) m (m_cache H1)"
      by (simp add: with_trap_def)
    moreover have "splits (run m c H2) (run' m c H2)" for c H2 using s g by (simp add: splitting_def)
    ultimately show ?thesis by (auto intro!: dvg_bindI split: option.split)
  qed
  then show ?thesis unfolding execute_message_def Let_def if_not_P [OF False]
    by (intro dvg_ifI dvg_same dvg_bindI)
qed

lemma Host_call_splits:
  assumes s: "splitting run run'" and k: "cache_kept trapped run'" and g: "0 \<le> gas m"
  shows "splits (Host_call h (call_precompile h) run H m) (Host_call h (with_trap h) run' H m)"
proof -
  have e: "splits (execute_message (call_precompile h) run m1 H1) (execute_message (with_trap h) run' m1 H1)"
    if "prepare_message h m H = Some (Some m1, H1)" for m1 H1
    using execute_message_splits [OF s k] prepare_message_keeps [OF that] g by simp
  show ?thesis unfolding Host_call_def
    by (intro dvg_intros dvg_same dvg_map [OF e]) (auto simp: Let_def split: if_splits bind_splits)
qed

lemma calls_split:
  assumes vm: "vm_execute_ptr vm = Baseline_execute"
  shows "splitting (\<lambda>m (_ :: unit) H. host_calls_with (call_precompile (lib_keccak256 L)) L vm n H m)
    (\<lambda>m _ H. host_calls_with (with_trap (lib_keccak256 L)) L vm n H m)"
proof (induction n)
  case 0
  show ?case by (simp add: splitting_def)
next
  case (Suc n)
  let ?t = "with_trap (lib_keccak256 L)"
  have k: "cache_kept trapped (\<lambda>m (_ :: unit) H. host_calls_with ?t L vm n H m)"
    by (rule trap.calls_cache [OF vm]) (auto simp: keeps_def dest: with_trap_sticky)
  have Q: "zvmc_host (host_interface L (host_calls_with ?t L vm n))" by (rule trap.platform_laws [OF vm])
  have "splitting (run_vm (host_interface L (host_calls_with (call_precompile (lib_keccak256 L)) L vm n)) vm)
      (run_vm (host_interface L (host_calls_with ?t L vm n)) vm)"
    by (rule run_vm_splits [OF evm_precompiles.platform_laws [OF vm] Q vm Suc k])
  from Host_call_splits [OF this run_vm_cache [OF Q vm k]] show ?case by (simp add: splitting_def)
qed

text \<open>A run that is defined does not step into the trap.\<close>

lemma calls_untrapped:
  assumes vm: "vm_execute_ptr vm = Baseline_execute" and g: "0 \<le> gas m"
    and c: "host_calls_with (call_precompile (lib_keccak256 L)) L vm n H m = Some (res, H')"
    and u: "\<not> trapped (m_cache H)"
  shows "\<not> trapped (m_cache H')"
proof -
  have "cache_kept (\<lambda>c. \<not> trapped c) (\<lambda>m (_ :: unit) H. host_calls_with (call_precompile (lib_keccak256 L)) L vm n H m)"
    by (rule evm_precompiles.calls_cache [OF vm]) (auto simp: keeps_def dest: call_precompile_untrapped)
  from cache_keptD [OF this g c] u show ?thesis by simp
qed

theorem calls_with_trap:
  assumes vm: "vm_execute_ptr vm = Baseline_execute" and g: "0 \<le> gas m" and d: "0 \<le> depth m" "depth m \<le> 1024"
    and n: "1025 \<le> int n + depth m" and m: "static_ok m" "accepted m (m_state H)" and u: "\<not> trapped (m_cache H)"
  shows "\<exists>res H'. host_calls_with (with_trap (lib_keccak256 L)) L vm n H m = Some (res, H') \<and>
    out_of_depth H' = out_of_depth H \<and>
    host_calls L vm n H m = (if trapped (m_cache H') then None else Some (res, H'))"
proof -
  obtain res H' where t: "host_calls_with (with_trap (lib_keccak256 L)) L vm n H m = Some (res, H')"
    using trap.calls_do_return [OF vm with_trap_returns g d n m, of "lib_keccak256 L" L] by auto
  have "splits (host_calls L vm n H m) (host_calls_with (with_trap (lib_keccak256 L)) L vm n H m)"
    using calls_split [OF vm, of L n] g by (simp add: splitting_def host_calls_def)
  then have "host_calls L vm n H m = Some (res, H') \<or> host_calls L vm n H m = None \<and> trapped (m_cache H')"
    unfolding t by (auto simp: splits_cases)
  moreover have "\<not> trapped (m_cache H')" if "host_calls L vm n H m = Some (res, H')"
    using calls_untrapped [OF vm g _ u] that by (simp add: host_calls_def)
  moreover have "out_of_depth H' = out_of_depth H"
    using ledger_env [OF trap.calls_ledger [OF vm t g d n m(1)]] by (simp add: env_kept_def)
  ultimately show ?thesis using t by auto
qed

section \<open>Transactions and blocks\<close>

lemma warm_access_list_cache: "warm_access_list al H = Some H' \<Longrightarrow> m_cache H' = m_cache H"
proof (induction al arbitrary: H)
  case (Cons x al)
  then show ?case by (cases x) (fastforce split: bind_splits dest: access_account_cache)
qed simp

lemma warm_accounts_cache: "warm_accounts block tx H = Some H' \<Longrightarrow> m_cache H' = m_cache H"
  by (auto simp: warm_accounts_def Let_def split: bind_splits option.splits
      dest!: access_account_cache warm_access_list_cache)

text \<open>A transaction whose execution requests a precompiled contract in an undefined way.\<close>

definition steps_into_trap ::
  "library \<Rightarrow> State \<Rightarrow> StateBlockInfo \<Rightarrow> Transaction \<Rightarrow> revision \<Rightarrow> VM \<Rightarrow> precompile_cache \<Rightarrow> bool" where
  "steps_into_trap L S block tx rvn vm cache =
     (case transition_with (with_trap (lib_keccak256 L)) L S block tx rvn vm cache of
        None \<Rightarrow> False | Some (r, S', cache') \<Rightarrow> trapped cache')"

theorem transition_undefined:
  assumes vm: "vm_execute_ptr vm = Baseline_execute" and s: "S (t_sender tx) \<noteq> None" and u: "\<not> trapped cache"
  shows "case transition L S block tx rvn vm cache of
      None \<Rightarrow> steps_into_trap L S block tx rvn vm cache
    | Some (r, S', cache') \<Rightarrow> \<not> steps_into_trap L S block tx rvn vm cache \<and> \<not> trapped cache'"
proof -
  obtain acc where acc: "S (t_sender tx) = Some acc" using s by blast
  obtain r S' c where t: "transition_with (with_trap (lib_keccak256 L)) L S block tx rvn vm cache = Some (r, S', c)"
    using trap.transition_ends [where S = S, OF vm s, of "lib_keccak256 L" L block rvn cache] with_trap_returns by auto
  show ?thesis
  proof (cases "validate_transaction acc block tx rvn")
    case (Inl e)
    then show ?thesis using u transition_invalid [where S = S, OF acc Inl]
      by (simp add: transition_def steps_into_trap_def)
  next
    case (Inr g)
    have g: "0 \<le> gas (build_message tx g)" using validated(1) [OF Inr] by simp
    have "splits (host_calls_with (call_precompile (lib_keccak256 L)) L vm 1025 H (build_message tx g))
        (host_calls_with (with_trap (lib_keccak256 L)) L vm 1025 H (build_message tx g))" for H
      using calls_split [OF vm, of L 1025] g by (simp add: splitting_def)
    then have "dvg (\<lambda>_. False) trapped (snd \<circ> snd) (transition L S block tx rvn vm cache)
        (transition_with (with_trap (lib_keccak256 L)) L S block tx rvn vm cache)"
      unfolding transition_def transition_valid [where S = S, OF acc Inr]
      by (intro dvg_bindI dvg_map) (auto split: bind_splits)
    then have "transition L S block tx rvn vm cache = Some (r, S', c) \<or> transition L S block tx rvn vm cache = None \<and> trapped c"
      unfolding t by (cases "transition L S block tx rvn vm cache") (auto simp: dvg_def)
    moreover have "\<not> trapped c" if "transition L S block tx rvn vm cache = Some (r, S', c)"
      using that u g unfolding transition_def transition_valid [where S = S, OF acc Inr]
      by (auto simp: begin_host_def split: bind_splits dest!: warm_accounts_cache calls_untrapped [OF vm g])
    ultimately show ?thesis by (auto simp: steps_into_trap_def t)
  qed
qed

abbreviation before_block :: "State \<Rightarrow> precompile_cache \<Rightarrow> t8n" where
  "before_block S cache \<equiv> \<lparr>t8n_state = S, t8n_cache = cache, transactions = [], receipts = [], rejected = [],
     txs_logs = [], cumulative_gas_used = 0\<rparr>"

lemma apply_transaction_undefined:
  assumes vm: "vm_execute_ptr vm = Baseline_execute" and u: "\<not> trapped (t8n_cache b)"
    and s: "t8n_state b (t_sender tx) \<noteq> None" and e: "rlp_encode_transaction (tx\<lparr>t_chain_id := chain\<rparr>) \<noteq> None"
  shows "case apply_transaction (call_precompile (lib_keccak256 L)) L block rvn vm chain i (tx, h) b of
      None \<Rightarrow> steps_into_trap L (t8n_state b) block (tx\<lparr>t_chain_id := chain\<rparr>) rvn vm (t8n_cache b)
    | Some r \<Rightarrow> \<not> steps_into_trap L (t8n_state b) block (tx\<lparr>t_chain_id := chain\<rparr>) rvn vm (t8n_cache b) \<and>
        (\<forall>b'. r = Inr b' \<longrightarrow> \<not> trapped (t8n_cache b'))"
proof -
  have "t8n_state b (t_sender (tx\<lparr>t_chain_id := chain\<rparr>)) \<noteq> None" using s by simp
  from transition_undefined [where S = "t8n_state b", OF vm this u, of L block rvn] e show ?thesis
    by (cases "transition L (t8n_state b) block (tx\<lparr>t_chain_id := chain\<rparr>) rvn vm (t8n_cache b)")
       (auto simp: apply_transaction_def transition_def Let_def split: option.splits sum.splits)
qed

text \<open>The loop over the transactions has no result exactly when it gets to such a transaction.\<close>

lemma apply_transactions_undefined:
  assumes vm: "vm_execute_ptr vm = Baseline_execute"
  shows "block_inv (lib_keccak256 L) S block i b \<Longrightarrow> \<not> trapped (t8n_cache b) \<Longrightarrow>
    (\<And>tx h. (tx, h) \<in> set es \<Longrightarrow> S (t_sender tx) \<noteq> None \<and> rlp_encode_transaction (tx\<lparr>t_chain_id := chain\<rparr>) \<noteq> None) \<Longrightarrow>
    apply_transactions (call_precompile (lib_keccak256 L)) L block rvn vm chain i es b = None \<longleftrightarrow>
    (\<exists>j < length es. \<exists>b'. apply_transactions (call_precompile (lib_keccak256 L)) L block rvn vm chain i (take j es) b
         = Some (Inr b') \<and>
       steps_into_trap L (t8n_state b') block ((fst (es ! j))\<lparr>t_chain_id := chain\<rparr>) rvn vm (t8n_cache b'))"
proof (induction es arbitrary: i b)
  case (Cons e es)
  obtain tx h where e: "e = (tx, h)" by (cases e)
  have s: "t8n_state b (t_sender tx) \<noteq> None" "rlp_encode_transaction (tx\<lparr>t_chain_id := chain\<rparr>) \<noteq> None"
    using Cons.prems(1) Cons.prems(3) [of tx h] e by (auto simp: block_inv_def)
  note step = apply_transaction_undefined [OF vm Cons.prems(2) s, of L block rvn i h]
  show ?case
  proof (cases "apply_transaction (call_precompile (lib_keccak256 L)) L block rvn vm chain i e b")
    case None
    then show ?thesis using step e by (auto intro!: exI [of _ 0])
  next
    case (Some r)
    show ?thesis
    proof (cases r)
      case (Inl ex)
      then show ?thesis using Some step e by (auto simp: Ex_less_Suc2)
    next
      case (Inr b1)
      note next_inv = evm_precompiles.apply_transaction_inv [OF vm Cons.prems(1) Some [unfolded Inr]]
      have "\<not> trapped (t8n_cache b1)" using Some Inr step e by simp
      from Cons.IH [OF next_inv this Cons.prems(3) [OF list.set_intros(2)]]
      show ?thesis using Some Inr step e by (simp add: Ex_less_Suc2)
    qed
  qed
qed simp

theorem run_block_undefined:
  assumes vm: "vm_execute_ptr vm = Baseline_execute" and S: "none_destructed S" and u: "\<not> trapped cache"
    and txs: "\<And>tx h. (tx, h) \<in> set txs \<Longrightarrow> S (t_sender tx) \<noteq> None \<and> rlp_encode_transaction (tx\<lparr>t_chain_id := chain\<rparr>) \<noteq> None"
  shows "run_block (call_precompile (lib_keccak256 L)) L S block rvn vm chain txs cache = None \<longleftrightarrow>
    (\<exists>i < length txs. \<exists>b. apply_transactions (call_precompile (lib_keccak256 L)) L block rvn vm chain 0 (take i txs)
         (before_block S cache) = Some (Inr b) \<and>
       steps_into_trap L (t8n_state b) block ((fst (txs ! i))\<lparr>t_chain_id := chain\<rparr>) rvn vm (t8n_cache b))"
proof -
  have "block_inv (lib_keccak256 L) S block 0 (before_block S cache)" using S by (simp add: block_inv_def)
  from apply_transactions_undefined [OF vm this _ txs] u
  have loop: "apply_transactions (call_precompile (lib_keccak256 L)) L block rvn vm chain 0 txs (before_block S cache) = None \<longleftrightarrow>
    (\<exists>i < length txs. \<exists>b. apply_transactions (call_precompile (lib_keccak256 L)) L block rvn vm chain 0 (take i txs)
         (before_block S cache) = Some (Inr b) \<and>
       steps_into_trap L (t8n_state b) block ((fst (txs ! i))\<lparr>t_chain_id := chain\<rparr>) rvn vm (t8n_cache b))"
    by simp
  have fin: "finalize S' rvn ws \<bind> (\<lambda>S. Some (f S)) \<noteq> None" for S' ws and f :: "State \<Rightarrow> t8n_exception + t8n"
    using finalize_spec [of S' rvn ws] by auto
  show ?thesis unfolding loop [symmetric]
    by (cases "apply_transactions (call_precompile (lib_keccak256 L)) L block rvn vm chain 0 txs (before_block S cache)")
       (use fin in \<open>auto simp: run_block_def simp del: not_None_eq split: sum.split\<close>)
qed

end
