(* ===== verification/Zvm_Demo.thy ===== *)
theory Zvm_Demo
  imports Zvm_Block_Roots Zvm_Undefined
begin

text \<open>
  The concrete world in which the witnesses instantiate the theorems: the test host with a few
  accounts, messages, transactions and a small program.  Nothing here models code.
\<close>

section \<open>Messages\<close>

definition demo_platform :: "process platform" where
  "demo_platform =
     host_platform (reference_library (\<lambda>_. 0) (\<lambda>_. 0) (\<lambda>_. 0)) (zvmc_create_zvmone True) 1025"

definition demo_account :: Account where
  "demo_account = empty_account\<lparr>balance := 1000\<rparr>"

definition demo_block :: StateBlockInfo where
  "demo_block = \<lparr>b_number = 1, b_timestamp = 1, b_gas_limit = 30000000, b_coinbase = 5,
     b_prev_randao = 0, b_base_fee = 7,
     b_withdrawals = [\<lparr>w_recipient = 9, amount_in_gplanck = 3\<rparr>]\<rparr>"

definition demo_transaction :: Transaction where
  "demo_transaction = \<lparr>t_kind = eip1559, t_data = [], t_gas_limit = 100000, t_max_gas_price = 10,
     t_max_priority_gas_price = 1, t_sender = 77, t_to = Some 78, t_value = 0, t_access_list = [],
     t_chain_id = 1, t_nonce = 0, t_public_key = [], t_signature = []\<rparr>"

definition demo_host :: Host where
  "demo_host = \<lparr>m_rev = ZVMC_SHANGHAI, m_state = [77 \<mapsto> demo_account], m_block = demo_block,
     m_transaction = demo_transaction, m_logs = [], m_cache = (\<lambda>_. Map.empty), out_of_depth = False\<rparr>"

text \<open>\<open>PUSH1 1, PUSH1 2, ADD, STOP\<close>.\<close>

definition demo_code :: bytes where
  "demo_code = [0x60, 1, 0x60, 2, 0x01, 0x00]"

definition demo_message :: message where
  "demo_message = empty_message\<lparr>gas := 50000, sender := 77, recipient := 77, code_address := 77\<rparr>"

definition demo_state :: "process exec_state" where
  "demo_state = (ExecutionState demo_platform demo_message ZVMC_SHANGHAI (Some demo_host) demo_code)
     \<lparr>analysis := analyze ZVMC_SHANGHAI demo_code\<rparr>"

text \<open>
  Calls of the account 77: to the precompile at address 3 with a value, the same as a static
  call without value, and with too little gas.
\<close>

definition demo_call :: message where
  "demo_call = empty_message\<lparr>depth := 1, gas := 100, sender := 77, recipient := 3, code_address := 3,
     input_data := [1, 2], msg_value := 5\<rparr>"

definition demo_static_call :: message where
  "demo_static_call = demo_call\<lparr>flags := ZVMC_STATIC, msg_value := 0\<rparr>"

definition demo_poor_call :: message where
  "demo_poor_call = demo_call\<lparr>gas := 10\<rparr>"

text \<open>A call of the precompiled contract 8, which the table of the repository does not define.\<close>

definition demo_undefined_call :: message where
  "demo_undefined_call = demo_call\<lparr>recipient := 8, code_address := 8\<rparr>"

definition demo_library :: library where
  "demo_library = reference_library (\<lambda>_. 0) (\<lambda>_. 0) (\<lambda>_. 0)"

definition demo_vm :: VM where
  "demo_vm = zvmc_create_zvmone True"

definition demo_stream :: ostream where
  "demo_stream = \<lparr>o_text = [], o_hex = False\<rparr>"

definition demo_trace_lib :: trace_lib where
  "demo_trace_lib = \<lparr>zvmc_hex = (\<lambda>_. []), intx_to_string16 = (\<lambda>_. []), status_string = (\<lambda>_. []),
     revision_string = (\<lambda>_. [])\<rparr>"

text \<open>An execution with two instructions and an execution nested between them.\<close>

definition demo_session :: session where
  "demo_session =
     (let result = make_result ZVMC_SUCCESS 0 0 [] in
      Session ZVMC_SHANGHAI demo_message demo_code
        [Own 0 [] 10 0, Nested (Session ZVMC_SHANGHAI demo_message demo_code [Own 0 [] 5 0] result),
         Own 2 [1] 7 0] result)"

lemma demo_baseline: "vm_execute_ptr demo_vm = Baseline_execute"
  by (simp add: demo_vm_def zvmc_create_zvmone_def VM_new_def)

lemmas call_eval = host_calls_def Host_call_def prepare_message_def state_get_def state_find_def execute_message_def
  enter_call_def state_touch_eq account_or_empty_def transfer_def call_precompile_def NumPrecompiles_def
  precompile_traits_def identity_analyze_def identity_execute_def cost_per_input_word_def input_words_def
  cache_find_def demo_host_def demo_account_def demo_call_def demo_static_call_def demo_poor_call_def
  empty_message_def empty_account_def Let_def make_result_def

lemma demo_call_runs:
  "\<exists>res H. host_calls L vm (Suc n) demo_host demo_call = Some (res, H) \<and> output_data res = [1, 2]"
  by (simp add: call_eval)

lemma demo_static_call_runs:
  "\<exists>res H. host_calls L vm (Suc n) demo_host demo_static_call = Some (res, H)"
  by (simp add: call_eval)

lemma demo_poor_call_runs:
  "\<exists>res H. host_calls L vm (Suc n) demo_host demo_poor_call = Some (res, H) \<and>
     res_status res = ZVMC_OUT_OF_GAS"
  by (simp add: call_eval)

lemma demo_call_static_ok: "static_ok demo_call" "static_ok demo_static_call" "static_ok demo_poor_call"
  by (simp_all add: static_ok_def demo_call_def demo_static_call_def demo_poor_call_def
      empty_message_def is_static_def)

lemma demo_undefined_call_runs: "host_calls demo_library demo_vm 1024 demo_host demo_undefined_call = None"
proof -
  have "host_calls L vm (Suc n) demo_host demo_undefined_call = None" for L vm n
    by (simp add: call_eval demo_undefined_call_def)
  from this [of demo_library demo_vm 1023] show ?thesis by (simp del: host_calls_with.simps)
qed

lemma demo_undefined_call_static_ok: "static_ok demo_undefined_call"
  using demo_call_static_ok(1) by (simp add: demo_undefined_call_def static_ok_def is_static_def)

lemma demo_laws: "zvmc_host demo_platform" "intx_library demo_platform"
  unfolding demo_platform_def
  by (rule test_host.zvmc_host_axioms reference_host.intx_library_axioms)+

lemma demo_memory: "mem_inv (memory demo_state)"
  by (simp add: demo_state_def ExecutionState_def memory_new_inv)

lemma demo_gas: "gas demo_message = 50000"
  by (simp add: demo_message_def)

lemma demo_length: "length demo_code = 6"
  by (simp add: demo_code_def)

lemma demo_cfg: "cfg_ok demo_code (0, 0, 50000, demo_state)"
  using zvmc_host.initial_cfg [OF demo_laws(1), of demo_message demo_code ZVMC_SHANGHAI "Some demo_host"]
  by (simp add: demo_state_def demo_gas)

section \<open>Transactions\<close>

text \<open>
  A rich account 77 that calls the precompile at address 3, with enough gas and with too little.
\<close>

definition demo_world :: State where
  "demo_world = [77 \<mapsto> demo_account\<lparr>balance := 10000000\<rparr>]"

definition demo_tx :: Transaction where
  "demo_tx = demo_transaction\<lparr>t_to := Some 3, t_data := [1, 2]\<rparr>"

definition demo_poor_tx :: Transaction where
  "demo_poor_tx = demo_tx\<lparr>t_gas_limit := 21040\<rparr>"

text \<open>A transaction that calls the precompiled contract 8.\<close>

definition demo_undefined_tx :: Transaction where
  "demo_undefined_tx = demo_tx\<lparr>t_to := Some 8\<rparr>"

definition no_cache :: precompile_cache where
  "no_cache = (\<lambda>_. Map.empty)"

lemmas validate_eval = valid_transaction_def compute_tx_intrinsic_cost_def tx_data_cost_eq
  access_list_cost_eq tx_num_words_def demo_block_def demo_transaction_def
  demo_tx_def demo_poor_tx_def demo_undefined_tx_def demo_account_def empty_account_def NonceMax_def

lemma demo_tx_valid:
  "validate_transaction (demo_account\<lparr>balance := 10000000\<rparr>) demo_block demo_tx ZVMC_SHANGHAI = Inr 78968"
  by (subst validate_transaction_eq) (simp_all add: validate_eval)

lemma demo_poor_tx_valid:
  "validate_transaction (demo_account\<lparr>balance := 10000000\<rparr>) demo_block demo_poor_tx ZVMC_SHANGHAI = Inr 8"
  by (subst validate_transaction_eq) (simp_all add: validate_eval)

lemma demo_undefined_tx_valid:
  "validate_transaction (demo_account\<lparr>balance := 10000000\<rparr>) demo_block demo_undefined_tx ZVMC_SHANGHAI = Inr 78968"
  by (subst validate_transaction_eq) (simp_all add: validate_eval)

text \<open>The state after the charge for the gas, when every account of the transaction is warm.\<close>

lemma demo_warm:
  assumes "t_sender tx = 77" "t_to tx = Some to" "t_access_list tx = []" "to \<noteq> 77"
  shows "\<exists>H x y. warm_accounts demo_block tx (begin_host demo_block tx ZVMC_SHANGHAI (demo_account\<lparr>balance := 10000000\<rparr>) demo_world no_cache)
    = Some H \<and> m_cache H = no_cache \<and> m_rev H = ZVMC_SHANGHAI \<and> m_state H 77 = Some x \<and> nonce x = 0 \<and>
      acc_access_status x = ZVMC_ACCESS_WARM \<and> \<not> destructed x \<and> m_state H to = Some y"
  using assms
  by (simp add: warm_accounts_def state_get_def state_find_def Host_access_account_def state_get_or_insert_eq
      begin_host_def demo_world_def demo_block_def demo_account_def empty_account_def Let_def)

lemma demo_runs:
  assumes tx: "t_sender tx = 77" "t_to tx = Some 3" "t_access_list tx = []" "t_data tx = [1, 2]" "t_value tx = 0"
    and v: "validate_transaction (demo_account\<lparr>balance := 10000000\<rparr>) demo_block tx ZVMC_SHANGHAI = Inr g"
  shows "\<exists>receipt S' c. transition L demo_world demo_block tx ZVMC_SHANGHAI vm no_cache = Some (Inr receipt, S', c) \<and>
    r_status receipt = (if g < 18 then ZVMC_OUT_OF_GAS else ZVMC_SUCCESS) \<and>
    acc_access_status (account_or_empty S' 77) = ZVMC_ACCESS_WARM"
proof -
  let ?acc = "demo_account\<lparr>balance := 10000000\<rparr>"
  have s: "demo_world (t_sender tx) = Some ?acc" by (simp add: demo_world_def tx)
  obtain H where w: "warm_accounts demo_block tx (begin_host demo_block tx ZVMC_SHANGHAI ?acc demo_world no_cache) = Some H"
    and H: "\<exists>x y. m_state H 77 = Some x \<and> nonce x = 0 \<and> acc_access_status x = ZVMC_ACCESS_WARM \<and>
      \<not> destructed x \<and> m_state H 3 = Some y" "m_cache H = no_cache" "m_rev H = ZVMC_SHANGHAI"
    using demo_warm [OF tx(1-3)] by fastforce
  obtain x y where xy: "m_state H 77 = Some x" "nonce x = 0" "acc_access_status x = ZVMC_ACCESS_WARM"
      "\<not> destructed x" "m_state H 3 = Some y" using H(1) by blast
  have "\<exists>res H2. host_calls_with (call_precompile (lib_keccak256 L)) L vm (Suc n) H (build_message tx g) = Some (res, H2) \<and>
    res_status res = (if g < 18 then ZVMC_OUT_OF_GAS else ZVMC_SUCCESS) \<and> res_gas_left res \<le> g \<and>
    (\<exists>acc. m_state H2 77 = Some acc \<and> acc_access_status acc = ZVMC_ACCESS_WARM \<and> \<not> destructed acc)" for n
    using H(2,3) xy validated(1) [OF v]
    by (cases "g < 18") (simp_all add: call_eval build_message_def tx no_cache_def NonceMax_def)
  from this [of 1024] obtain res H2 where c: "host_calls_with (call_precompile (lib_keccak256 L)) L vm 1025 H (build_message tx g) = Some (res, H2)"
    and r: "res_status res = (if g < 18 then ZVMC_OUT_OF_GAS else ZVMC_SUCCESS)" "res_gas_left res \<le> g"
      "\<exists>acc. m_state H2 77 = Some acc \<and> acc_access_status acc = ZVMC_ACCESS_WARM \<and> \<not> destructed acc"
    by (auto simp del: host_calls_with.simps)
  obtain acc where acc: "m_state H2 (t_sender tx) = Some acc" "acc_access_status acc = ZVMC_ACCESS_WARM" "\<not> destructed acc"
    using r(3) tx(1) by auto
  have "acc_access_status (account_or_empty (erase_if destructed (settled demo_block tx u acc (m_state H2))) 77) = ZVMC_ACCESS_WARM" for u
    using acc tx(1) by (simp add: settled_def paid_def Let_def erase_if_def account_or_empty_def demo_block_def)
  then show ?thesis
    using settle_eq [OF acc(1) r(2) validated(2) [OF v]] w c r(1)
    unfolding transition_def transition_valid [where S = demo_world, OF s v]
    by (simp add: Let_def)
qed

lemma demo_undefined_transition:
  "transition demo_library demo_world demo_block demo_undefined_tx ZVMC_SHANGHAI demo_vm no_cache = None"
proof -
  let ?acc = "demo_account\<lparr>balance := 10000000\<rparr>"
  have tx: "t_sender demo_undefined_tx = 77" "t_to demo_undefined_tx = Some 8" "t_access_list demo_undefined_tx = []"
      "t_data demo_undefined_tx = [1, 2]" "t_value demo_undefined_tx = 0"
    by (simp_all add: demo_undefined_tx_def demo_tx_def demo_transaction_def)
  have s: "demo_world (t_sender demo_undefined_tx) = Some ?acc" by (simp add: demo_world_def tx)
  obtain H where w: "warm_accounts demo_block demo_undefined_tx
      (begin_host demo_block demo_undefined_tx ZVMC_SHANGHAI ?acc demo_world no_cache) = Some H"
    and H: "\<exists>x y. m_state H 77 = Some x \<and> nonce x = 0 \<and> m_state H 8 = Some y" "m_cache H = no_cache" "m_rev H = ZVMC_SHANGHAI"
    using demo_warm [OF tx(1-3)] by fastforce
  have "host_calls_with (call_precompile (lib_keccak256 L)) L vm (Suc n) H (build_message demo_undefined_tx g) = None" for n L vm g
    using H by (auto simp: call_eval build_message_def tx no_cache_def NonceMax_def)
  from this [of "demo_library" demo_vm 1024]
  show ?thesis
    unfolding transition_def transition_valid [where S = demo_world, OF s demo_undefined_tx_valid]
    by (simp add: w del: host_calls_with.simps)
qed

lemma demo_encoded:
  assumes "tx = demo_tx \<or> tx = demo_undefined_tx"
  shows "\<exists>e. rlp_encode_transaction (tx\<lparr>t_chain_id := c\<rparr>) = Some e \<and> length e \<le> 2 ^ 22"
proof -
  have "\<exists>al. encode_access_list [] = Some al \<and> length al \<le> 2 ^ 18"
    by (simp add: encode_access_list_def encode_container_def wrap_list_def encode_length_def)
  then obtain al where "encode_access_list [] = Some al" "length al \<le> 2 ^ 18" by blast
  then show ?thesis using assms
    by (intro transaction_encodes) (auto simp: demo_undefined_tx_def demo_tx_def demo_transaction_def)
qed

section \<open>Storage\<close>

text \<open>An account with two storage slots, the loop over them, and two addresses with different hashes.\<close>

definition demo_contract :: Account where
  "demo_contract = demo_account\<lparr>storage := [1 \<mapsto> empty_slot\<lparr>sv_current := 5\<rparr>, 2 \<mapsto> empty_slot\<lparr>sv_current := 6\<rparr>]\<rparr>"

definition demo_slots :: "(uint256 \<rightharpoonup> StorageValue) \<Rightarrow> (uint256 \<times> StorageValue) list" where
  "demo_slots m = List.map_filter (\<lambda>k. map_option (Pair k) (m k)) [1, 2]"

lemma demo_slots_visited:
  "visits (demo_slots (storage demo_contract)) (storage demo_contract)"
  "visits (rev (demo_slots (storage demo_contract))) (storage demo_contract)"
  "visits (demo_slots (storage demo_account)) (storage demo_account)"
  "visits (rev (demo_slots (storage demo_account))) (storage demo_account)"
  by (auto simp: visits_def demo_slots_def List.map_filter_def demo_contract_def demo_account_def empty_account_def)

lemma demo_hashes:
  "(be_load (be_store 20 (77 :: address)) :: uint256) \<noteq> be_load (be_store 20 (78 :: address))"
proof -
  have "bit (be_load (be_store 20 a) :: uint256) 0 \<longleftrightarrow> bit a 0" for a :: address
    by (simp add: bit_be_load bit_be_store_nth)
  from this [of 77] this [of 78] show ?thesis by (auto simp: bit_0)
qed

end
