(* ===== verification/Zvm_Chain.thy ===== *)
theory Zvm_Chain
  imports Zvm_Demo
begin

text \<open>
  The properties of transactions, blocks and their hash commitments: what a transaction may do,
  what it costs, when it returns, what the blocks of \<open>zvmone-t8n\<close> account for, and what the
  roots and filters of a block say about it.
\<close>

section \<open>Calls return\<close>



section \<open>Transactions\<close>

text \<open>C13: validation decides exactly whether a transaction is valid, where the costs are compared as
  integers; a transaction that is not valid is rejected with an error and changes nothing.\<close>

theorem transaction_validation:
  assumes "S (t_sender tx) = Some acc" and "t_gas_limit tx < 2 ^ 63"
  shows "if valid_transaction acc block tx rvn
    then validate_transaction acc block tx rvn = Inr (t_gas_limit tx - compute_tx_intrinsic_cost rvn tx)
    else \<exists>e. validate_transaction acc block tx rvn = Inl e \<and>
      transition L S block tx rvn vm cache = Some (Inl e, S, cache)"
proof (cases "validate_transaction acc block tx rvn")
  case (Inl e)
  then show ?thesis
    using transition_invalid [of S tx acc, OF assms(1) Inl]
      validate_transaction_eq [OF assms(2), of acc block rvn "t_gas_limit tx - compute_tx_intrinsic_cost rvn tx"]
    by (auto simp: transition_def)
next
  case (Inr g)
  then show ?thesis using validate_transaction_eq [OF assms(2), of acc block rvn g] by simp
qed

theorem transaction_validation_witness:
  "\<exists>e. transition demo_library demo_world demo_block (demo_tx\<lparr>t_gas_limit := 20000\<rparr>) ZVMC_SHANGHAI demo_vm no_cache
     = Some (Inl e, demo_world, no_cache)"
proof -
  let ?tx = "demo_tx\<lparr>t_gas_limit := 20000\<rparr>"
  have s: "demo_world (t_sender ?tx) = Some (demo_account\<lparr>balance := 10000000\<rparr>)"
    by (simp add: demo_world_def demo_tx_def demo_transaction_def)
  have "\<not> valid_transaction (demo_account\<lparr>balance := 10000000\<rparr>) demo_block ?tx ZVMC_SHANGHAI"
    using intrinsic_cost_min [of ZVMC_SHANGHAI ?tx] by (simp add: valid_transaction_def)
  then show ?thesis
    using transaction_validation [of demo_world, OF s, of demo_block ZVMC_SHANGHAI demo_library demo_vm no_cache] by auto
qed

lemma demo_transition:
  "\<exists>receipt S' c. transition demo_library demo_world demo_block demo_tx ZVMC_SHANGHAI demo_vm no_cache = Some (Inr receipt, S', c)"
  "\<exists>receipt S' c. transition demo_library demo_world demo_block demo_poor_tx ZVMC_SHANGHAI demo_vm no_cache
     = Some (Inr receipt, S', c) \<and> r_status receipt \<noteq> ZVMC_SUCCESS"
  using demo_runs [OF _ _ _ _ _ demo_tx_valid, of demo_library demo_vm]
    demo_runs [OF _ _ _ _ _ demo_poor_tx_valid, of demo_library demo_vm]
  by (auto simp: demo_tx_def demo_poor_tx_def demo_transaction_def)

lemma demo_world_ok: "none_destructed demo_world" "fresh_slots demo_world"
  by (simp_all add: none_destructed_def fresh_slots_def demo_world_def account_or_empty_def demo_account_def
      empty_account_def)

text \<open>C12: a transaction is charged for at least four fifths of its intrinsic cost, which is 21000 gas
  or more, and, when every storage slot holds its original value before it, for at most its gas
  limit: the refunds of all its storage writes together are not negative.\<close>

theorem transaction_gas_bounds:
  assumes "vm_execute_ptr vm = Baseline_execute" and "none_destructed S"
    and "transition L S block tx rvn vm cache = Some (Inr receipt, S', cache')"
  shows "4 * compute_tx_intrinsic_cost rvn tx \<le> 5 * r_gas_used receipt \<and> 21000 \<le> compute_tx_intrinsic_cost rvn tx \<and>
    (if fresh_slots S then r_gas_used receipt \<le> t_gas_limit tx else True)"
  using evm_precompiles.transition_gas [OF assms(1,2) assms(3) [unfolded transition_def]] intrinsic_cost_min by auto

theorem transaction_gas_bounds_witness:
  "\<exists>receipt S' c. transition demo_library demo_world demo_block demo_tx ZVMC_SHANGHAI demo_vm no_cache = Some (Inr receipt, S', c) \<and>
     16800 \<le> r_gas_used receipt \<and> r_gas_used receipt \<le> 100000"
proof -
  obtain receipt S' c where
    r: "transition demo_library demo_world demo_block demo_tx ZVMC_SHANGHAI demo_vm no_cache = Some (Inr receipt, S', c)"
    using demo_transition(1) by blast
  then show ?thesis
    using transaction_gas_bounds [OF demo_baseline demo_world_ok(1) r] demo_world_ok(2)
    by (auto simp: demo_tx_def demo_transaction_def)
qed

text \<open>C9: a transaction, whatever code it runs, changes the sum of all balances by exactly the burnt
  base fee of the gas that its receipt reports, makes no account disappear and increases the nonce
  of its sender.\<close>

theorem transaction_accounting:
  assumes "vm_execute_ptr vm = Baseline_execute" and "none_destructed S"
    and "transition L S block tx rvn vm cache = Some (Inr receipt, S', cache')"
  shows "total_balance S' = total_balance S - uint256_of_int64 (r_gas_used receipt) * ucast (b_base_fee block) \<and>
    dom S \<subseteq> dom S' \<and> none_destructed S' \<and>
    nonce (account_or_empty S (t_sender tx)) < nonce (account_or_empty S' (t_sender tx))"
  using evm_precompiles.transition_funds [OF assms(1,2) assms(3) [unfolded transition_def]]
    evm_precompiles.transition_keeps(1,2) [OF assms(1,2) assms(3) [unfolded transition_def]]
    evm_precompiles.transition_nonce [OF assms(1,2) assms(3) [unfolded transition_def]] by simp

theorem transaction_accounting_witness:
  "\<exists>receipt S' c. transition demo_library demo_world demo_block demo_tx ZVMC_SHANGHAI demo_vm no_cache = Some (Inr receipt, S', c) \<and>
     total_balance S' = total_balance demo_world - uint256_of_int64 (r_gas_used receipt) * 7"
proof -
  obtain receipt S' c where
    r: "transition demo_library demo_world demo_block demo_tx ZVMC_SHANGHAI demo_vm no_cache = Some (Inr receipt, S', c)"
    using demo_transition(1) by blast
  then show ?thesis
    using transaction_accounting [OF demo_baseline demo_world_ok(1) r] by (auto simp: demo_block_def)
qed

text \<open>C11: a transaction whose execution fails has no logs and changes nothing but this: the nonce of
  the sender is one more, the sender has paid for the gas at the effective price, and the coinbase
  has received the tip.\<close>

theorem failed_transaction_only_pays:
  assumes "vm_execute_ptr vm = Baseline_execute" and "none_destructed S"
    and "transition L S block tx rvn vm cache = Some (Inr receipt, S', cache')"
    and "r_status receipt \<noteq> ZVMC_SUCCESS"
  shows "r_logs receipt = [] \<and>
    nonce (account_or_empty S' a) = nonce (account_or_empty S a) + (if a = t_sender tx then 1 else 0) \<and>
    acc_code (account_or_empty S' a) = acc_code (account_or_empty S a) \<and>
    sv_current (slot k (account_or_empty S' a)) = sv_current (slot k (account_or_empty S a)) \<and>
    balance (account_or_empty S' a) = balance (account_or_empty S a)
      - (if a = t_sender tx then uint256_of_int64 (r_gas_used receipt) * price block tx else 0)
      + (if a = b_coinbase block then uint256_of_int64 (r_gas_used receipt) * tip block tx else 0)"
  by (rule evm_precompiles.transition_failure [OF assms(1,2) assms(3) [unfolded transition_def] assms(4)])

theorem failed_transaction_only_pays_witness:
  "\<exists>receipt S' c. transition demo_library demo_world demo_block demo_poor_tx ZVMC_SHANGHAI demo_vm no_cache
     = Some (Inr receipt, S', c) \<and> r_logs receipt = [] \<and> nonce (account_or_empty S' 77) = 1"
proof -
  obtain receipt S' c where
    r: "transition demo_library demo_world demo_block demo_poor_tx ZVMC_SHANGHAI demo_vm no_cache = Some (Inr receipt, S', c)"
    and f: "r_status receipt \<noteq> ZVMC_SUCCESS" using demo_transition(2) by blast
  then show ?thesis
    using failed_transaction_only_pays [OF demo_baseline demo_world_ok(1) r f, of 77]
    by (auto simp: demo_poor_tx_def demo_tx_def demo_transaction_def demo_world_def account_or_empty_def demo_account_def
        empty_account_def)
qed

section \<open>Blocks\<close>

text \<open>The state keeps the access statuses: an account that one transaction has used is warm for the
  next one.\<close>

lemma transition_leaves_accounts_warm:
  "\<exists>receipt S' c. transition demo_library demo_world demo_block demo_tx ZVMC_SHANGHAI demo_vm no_cache = Some (Inr receipt, S', c) \<and>
     acc_access_status (account_or_empty demo_world 77) = ZVMC_ACCESS_COLD \<and>
     acc_access_status (account_or_empty S' 77) = ZVMC_ACCESS_WARM"
  using demo_runs [OF _ _ _ _ _ demo_tx_valid, of demo_library demo_vm]
  by (auto simp: demo_tx_def demo_transaction_def demo_world_def account_or_empty_def demo_account_def empty_account_def)

text \<open>C24: \<open>finalize\<close> returns; it removes exactly the accounts that are touched, empty and get no
  withdrawal, adds the withdrawals to the balances, and changes no nonce and no code.\<close>

theorem finalize_effect:
  "\<exists>S'. finalize S rvn ws = Some S' \<and>
     (\<forall>a. S' a = None \<longleftrightarrow> a \<notin> w_recipient ` set ws \<and>
        (S a = None \<or> erasable (account_or_empty S a) \<and> is_empty (account_or_empty S a))) \<and>
     (\<forall>a. balance (account_or_empty S' a) = balance (account_or_empty S a) + withdrawn ws a \<and>
        nonce (account_or_empty S' a) = nonce (account_or_empty S a) \<and>
        acc_code (account_or_empty S' a) = acc_code (account_or_empty S a)) \<and>
     total_balance S' = total_balance S + sum_list (map get_amount ws)"
  by (rule finalize_spec)

text \<open>C23: the processing of a block of transactions with existing senders and encodings has a
  result, where rejected transactions and mismatched hashes are results, with one exception: it is
  undefined exactly when the loop gets to a transaction whose execution, from the state that the
  transactions before it have left, requests a precompiled contract in an undefined way.\<close>

theorem block_processing_returns:
  assumes "vm_execute_ptr vm = Baseline_execute" and "none_destructed S" and "\<not> trapped cache"
    and "\<And>tx h. (tx, h) \<in> set txs \<Longrightarrow> S (t_sender tx) \<noteq> None \<and> rlp_encode_transaction (tx\<lparr>t_chain_id := chain\<rparr>) \<noteq> None"
  shows "run_block (call_precompile (lib_keccak256 L)) L S block rvn vm chain txs cache = None \<longleftrightarrow>
    (\<exists>i < length txs. \<exists>b. apply_transactions (call_precompile (lib_keccak256 L)) L block rvn vm chain 0 (take i txs)
         (before_block S cache) = Some (Inr b) \<and>
       steps_into_trap L (t8n_state b) block ((fst (txs ! i))\<lparr>t_chain_id := chain\<rparr>) rvn vm (t8n_cache b))"
  by (rule run_block_undefined [OF assms])

theorem block_processing_returns_witness:
  "run_block (call_precompile (lib_keccak256 demo_library)) demo_library demo_world demo_block ZVMC_SHANGHAI demo_vm 1
     [(demo_tx, None)] no_cache \<noteq> None \<and>
   run_block (call_precompile (lib_keccak256 demo_library)) demo_library demo_world demo_block ZVMC_SHANGHAI demo_vm 1
     [(demo_undefined_tx, None)] no_cache = None"
proof -
  have u: "\<not> trapped no_cache" by (simp add: no_cache_def trapped_def)
  have c: "demo_tx\<lparr>t_chain_id := 1\<rparr> = demo_tx" "demo_undefined_tx\<lparr>t_chain_id := 1\<rparr> = demo_undefined_tx"
    by (simp_all add: demo_undefined_tx_def demo_tx_def demo_transaction_def)
  have s: "demo_world (t_sender demo_tx) \<noteq> None" "demo_world (t_sender demo_undefined_tx) \<noteq> None"
    by (simp_all add: demo_world_def demo_undefined_tx_def demo_tx_def demo_transaction_def)
  have e: "rlp_encode_transaction demo_tx \<noteq> None" "rlp_encode_transaction demo_undefined_tx \<noteq> None"
    using demo_encoded [of _ 1] c by fastforce+
  have "\<not> steps_into_trap demo_library demo_world demo_block demo_tx ZVMC_SHANGHAI demo_vm no_cache"
    using transition_undefined [of demo_vm demo_world, OF demo_baseline s(1) u, of demo_library demo_block ZVMC_SHANGHAI] demo_transition(1)
    by (auto split: option.splits)
  moreover have "steps_into_trap demo_library demo_world demo_block demo_undefined_tx ZVMC_SHANGHAI demo_vm no_cache"
    using transition_undefined [of demo_vm demo_world, OF demo_baseline s(2) u, of demo_library demo_block ZVMC_SHANGHAI] demo_undefined_transition
    by simp
  ultimately show ?thesis
    using block_processing_returns [OF demo_baseline demo_world_ok(1) u,
        of "[(demo_tx, None)]" 1 demo_library demo_block ZVMC_SHANGHAI]
      block_processing_returns [OF demo_baseline demo_world_ok(1) u,
        of "[(demo_undefined_tx, None)]" 1 demo_library demo_block ZVMC_SHANGHAI] s e c
    by simp
qed

text \<open>C10: the books of a block balance: the sum of all balances grows by the withdrawals and shrinks
  by the base fee of the gas in the receipts; the gas used is the sum over the receipts, every
  transaction has a receipt or is rejected, and the filter of the block is the filter of all its
  logs.\<close>

theorem block_accounting:
  assumes "vm_execute_ptr vm = Baseline_execute" and "none_destructed S"
    and "run_block (call_precompile (lib_keccak256 L)) L S block rvn vm chain txs cache = Some (Inr b)"
  shows "total_balance (t8n_state b) + sum_list (map (\<lambda>r. uint256_of_int64 (r_gas_used r)) (receipts b)) * ucast (b_base_fee block)
      = total_balance S + sum_list (map get_amount (b_withdrawals block)) \<and>
    cumulative_gas_used b = sum_list (map r_gas_used (receipts b)) \<and>
    t8n_logs_bloom b = compute_bloom_filter (lib_keccak256 L) (txs_logs b) \<and>
    length (transactions b) = length (receipts b) \<and> length (receipts b) + length (rejected b) = length txs"
  by (rule evm_precompiles.run_block_accounts [OF assms])

theorem block_accounting_witness:
  "\<exists>b. run_block (call_precompile (lib_keccak256 demo_library)) demo_library demo_world demo_block ZVMC_SHANGHAI demo_vm 1
       [(demo_tx, None)] no_cache = Some (Inr b) \<and> length (receipts b) + length (rejected b) = 1"
proof -
  have c: "demo_tx\<lparr>t_chain_id := 1\<rparr> = demo_tx" by (simp add: demo_tx_def demo_transaction_def)
  obtain receipt S' cache where
    r: "transition demo_library demo_world demo_block demo_tx ZVMC_SHANGHAI demo_vm no_cache = Some (Inr receipt, S', cache)"
    using demo_transition(1) by blast
  obtain e where e: "rlp_encode_transaction demo_tx = Some e" using demo_encoded [of demo_tx 1] c by auto
  obtain T where "finalize S' ZVMC_SHANGHAI (b_withdrawals demo_block) = Some T"
    using finalize_spec [of S' ZVMC_SHANGHAI "b_withdrawals demo_block"] by (elim exE conjE)
  then obtain b where b: "run_block (call_precompile (lib_keccak256 demo_library)) demo_library demo_world demo_block
      ZVMC_SHANGHAI demo_vm 1 [(demo_tx, None)] no_cache = Some (Inr b)"
    using r e c by (auto simp: run_block_def apply_transaction_def transition_def check_hash_def)
  then show ?thesis using block_accounting [OF demo_baseline demo_world_ok(1) b] by auto
qed

section \<open>Commitments\<close>

text \<open>C25: the bloom filter has exactly the bits that the hashes of the addresses and topics of the logs
  name, so that it has no false negatives, and the filter of several lists of logs is the union of
  their filters.\<close>

theorem bloom_filter_exact:
  "filter_bits (compute_bloom_filter keccak256 logs) =
     (\<Union>log \<in> set logs. \<Union>e \<in> log_entries log. entry_bits keccak256 e) \<and>
   combine_filters (map (compute_bloom_filter keccak256) logss) = compute_bloom_filter keccak256 (concat logss)"
  using bloom_filter_bits block_filter by blast

text \<open>C15: inserting entries with keys of the same length into the trie refines the update of a map
  from paths to values: the trie represents the map, and an assertion of the trie fails exactly
  when a key is inserted twice or a value has no encoding.\<close>

theorem trie_refines_map:
  assumes "list_all (\<lambda>e. length (fst e) = n) entries" and "n \<le> 32"
  shows "rel_option represents (insert_all entries None) (update_all entries Map.empty)"
  by (rule insert_all_refines [of _ _ _ n]) (use assms in \<open>auto simp: represents_def list_all_iff\<close>)

theorem trie_refines_map_witness:
  "\<exists>trie. insert_all [([1], Some [5]), ([2], Some [6])] None = Some trie \<and>
     represents trie [key_path [1] \<mapsto> [5], key_path [2] \<mapsto> [6]]"
proof -
  have "update_all [([1], Some [5]), ([2], Some [6])] Map.empty = Some [key_path [1] \<mapsto> [5], key_path [2] \<mapsto> [6]]"
    by (simp del: key_path_simps)
  then show ?thesis
    using trie_refines_map [of 1 "[([1], Some [5]), ([2], Some [6])]"]
    by (simp only: option_rel_Some2) (simp del: key_path_simps insert_all.simps)
qed

text \<open>C22: the root hash of the accounts does not depend on the order in which the loops visit the
  accounts and their storage slots, and it exists exactly when the hash has no collision between
  the addresses of two accounts or between the keys of two stored values of an account: the trie
  asserts that the paths are distinct.\<close>

theorem state_root_order_independent:
  assumes "visits xs S" "visits ys S"
    and "\<And>addr acc. S addr = Some acc \<Longrightarrow>
      visits (slots (storage acc)) (storage acc) \<and> visits (slots' (storage acc)) (storage acc)"
  shows "mpt_hash_accounts keccak256 slots xs = mpt_hash_accounts keccak256 slots' ys \<and>
    (mpt_hash_accounts keccak256 slots xs \<noteq> None \<longleftrightarrow>
       inj_on (\<lambda>addr. keccak256 (be_store 20 addr)) (dom S) \<and>
       (\<forall>addr acc. S addr = Some acc \<longrightarrow> inj_on (\<lambda>key. keccak256 (be_store 32 key)) (stored_keys acc)))"
proof -
  have "mpt_hash_accounts keccak256 slots xs = mpt_hash_accounts keccak256 slots' ys"
    by (rule mpt_hash_accounts_order [OF assms])
  moreover have "visits (slots (storage acc)) (storage acc)" if "S addr = Some acc" for addr acc
    using assms(3) [OF that] by simp
  ultimately show ?thesis using mpt_hash_accounts_returns [OF assms(1), of slots keccak256] by blast
qed

theorem state_root_order_independent_witness:
  "\<exists>h. mpt_hash_accounts be_load demo_slots [(77, demo_contract), (78, demo_account)] = Some h \<and>
     mpt_hash_accounts be_load (\<lambda>s. rev (demo_slots s)) [(78, demo_account), (77, demo_contract)] = Some h"
proof -
  let ?S = "[77 \<mapsto> demo_contract, 78 \<mapsto> demo_account] :: State"
  have v: "visits [(77, demo_contract), (78, demo_account)] ?S" "visits [(78, demo_account), (77, demo_contract)] ?S"
    by (simp_all add: visits_def fun_upd_twist)
  have s: "visits (demo_slots (storage acc)) (storage acc) \<and> visits (rev (demo_slots (storage acc))) (storage acc)"
    if "?S addr = Some acc" for addr acc
    using that demo_slots_visited by (auto split: if_splits)
  have "inj_on (\<lambda>addr. be_load (be_store 20 addr) :: uint256) (dom ?S)"
    using demo_hashes by auto
  moreover have "inj_on (\<lambda>key. be_load (be_store 32 key) :: uint256) (stored_keys acc)" for acc
    by (simp add: inj_on_def be_load_be_store)
  ultimately show ?thesis
    using state_root_order_independent [of _ ?S, OF v, of demo_slots "\<lambda>s. rev (demo_slots s)" be_load] s
    by (metis not_None_eq)
qed

text \<open>C14: two non-empty lists of transactions with the same root have the same transactions in the same order,
  up to the senders, which are not encoded, unless two different nodes of their two tries have the
  same hash.\<close>

theorem transactions_root_binds:
  assumes "mpt_hash_transactions keccak256 txs = Some h" "mpt_hash_transactions keccak256 txs' = Some h"
    and "txs \<noteq> []" "txs' \<noteq> []" "length txs \<le> 2 ^ 64" "length txs' \<le> 2 ^ 64"
    and "list_all (\<lambda>tx. - (2 ^ 63) \<le> t_gas_limit tx \<and> t_gas_limit tx < 2 ^ 63) (txs @ txs')"
  shows "list_all2 (\<lambda>tx tx'. tx' = tx\<lparr>t_sender := t_sender tx'\<rparr>) txs txs' \<or>
    (\<exists>t t'. insert_indexed 0 (map rlp_encode_transaction txs) None = Some (Some t) \<and>
       insert_indexed 0 (map rlp_encode_transaction txs') None = Some (Some t') \<and> collision keccak256 t t')"
proof -
  have "list_all2 (\<lambda>tx tx'. tx' = tx\<lparr>t_sender := t_sender tx'\<rparr>) txs txs'"
    if e: "map rlp_encode_transaction txs = map rlp_encode_transaction txs'"
  proof (rule list_all2_all_nthI)
    show "length txs = length txs'" using e by (rule map_eq_imp_length_eq)
    fix n assume n: "n < length txs"
    then have n': "n < length txs'" using map_eq_imp_length_eq [OF e] by simp
    have eq: "rlp_encode_transaction (txs ! n) = rlp_encode_transaction (txs' ! n)"
      using n n' e by (metis nth_map)
    obtain enc where enc: "rlp_encode_transaction (txs ! n) = Some enc"
      using assms(1) n insert_indexed_Some [of 0 "map rlp_encode_transaction txs" None]
      by (fastforce simp: mpt_hash_transactions_def mpt_hash_list_def list_all_length split: bind_splits)
    then have enc': "rlp_encode_transaction (txs' ! n) = Some enc" using eq by simp
    show "txs' ! n = (txs ! n)\<lparr>t_sender := t_sender (txs' ! n)\<rparr>"
      by (rule transaction_encoding_inject [OF enc enc']) (use assms(7) nth_mem [OF n] nth_mem [OF n'] in \<open>auto simp: list_all_iff\<close>)
  qed
  then show ?thesis
    using list_root_binds [of keccak256 "map rlp_encode_transaction txs" h "map rlp_encode_transaction txs'"] assms(1-6)
    by (auto simp: mpt_hash_transactions_def)
qed

theorem transactions_root_binds_witness:
  "list_all2 (\<lambda>tx tx'. tx' = tx\<lparr>t_sender := t_sender tx'\<rparr>) [demo_tx] [demo_tx\<lparr>t_sender := 1\<rparr>] \<or>
    (\<exists>t t'. insert_indexed 0 (map rlp_encode_transaction [demo_tx]) None = Some (Some t) \<and>
       insert_indexed 0 (map rlp_encode_transaction [demo_tx\<lparr>t_sender := 1\<rparr>]) None = Some (Some t') \<and>
       collision (\<lambda>_. 0) t t')"
proof -
  have c: "demo_tx\<lparr>t_chain_id := 1\<rparr> = demo_tx" by (simp add: demo_tx_def demo_transaction_def)
  have s: "rlp_encode_transaction (demo_tx\<lparr>t_sender := 1\<rparr>) = rlp_encode_transaction demo_tx"
    by (simp add: rlp_encode_transaction_def)
  obtain h where h: "mpt_hash_transactions (\<lambda>_. 0) [demo_tx] = Some h"
    using list_root_returns [of "[rlp_encode_transaction demo_tx]" "\<lambda>_. 0"] demo_encoded [of demo_tx 1] c
    by (auto simp: mpt_hash_transactions_def)
  then have "mpt_hash_transactions (\<lambda>_. 0) [demo_tx\<lparr>t_sender := 1\<rparr>] = Some h"
    by (simp add: mpt_hash_transactions_def s)
  from transactions_root_binds [OF h this] show ?thesis by (simp add: demo_tx_def demo_transaction_def)
qed

end
