(* ===== verification/Zvm_Schedule.thy ===== *)
theory Zvm_Schedule
  imports Zvm_Blocks
begin

text \<open>
  The fee schedule of the instructions, written by opcode bytes and in groups, as the Ethereum
  Yellow Paper has it (appendices G and H, for the Shanghai revision without the instructions
  that the ZVM does not have), and the tables of both interpreters against it.
\<close>

text \<open>The static fee: the groups of the schedule with the opcodes in them.\<close>

definition fee_groups :: "(int \<times> nat list) list" where
  "fee_groups =
    [(0, [0x00, 0x55, 0xF3, 0xFD, 0xFE]), (1, [0x5B]),
     (2, [0x30, 0x32, 0x33, 0x34, 0x36, 0x38, 0x3A, 0x3D, 0x48, 0x50, 0x58, 0x59, 0x5A, 0x5F] @ [0x41..<0x47]),
     (3, [0x01, 0x03, 0x35, 0x37, 0x39, 0x3E, 0x51, 0x52, 0x53] @ [0x10..<0x1E] @ [0x60..<0xA0]),
     (5, [0x02, 0x04, 0x05, 0x06, 0x07, 0x0B, 0x47]), (8, [0x08, 0x09, 0x56]), (10, [0x0A, 0x57]),
     (20, [0x40]), (30, [0x20]), (100, [0x31, 0x3B, 0x3C, 0x3F, 0x54, 0xF1, 0xF4, 0xFA]),
     (375, [0xA0]), (750, [0xA1]), (1125, [0xA2]), (1500, [0xA3]), (1875, [0xA4]), (32000, [0xF0, 0xF5])]"

text \<open>The numbers of items that an instruction takes from the stack and puts on it.\<close>

definition item_groups :: "((int \<times> int) \<times> nat list) list" where
  "item_groups =
    [((0, 0), [0x00, 0x5B, 0xFE]),
     ((0, 1), [0x30, 0x32, 0x33, 0x34, 0x36, 0x38, 0x3A, 0x3D, 0x58, 0x59, 0x5A] @ [0x41..<0x49] @ [0x5F..<0x80]),
     ((1, 0), [0x50, 0x56]), ((1, 1), [0x15, 0x19, 0x31, 0x35, 0x3B, 0x3F, 0x40, 0x51, 0x54]),
     ((2, 0), [0x52, 0x53, 0x55, 0x57, 0xA0, 0xF3, 0xFD]),
     ((2, 1), [0x01..<0x08] @ [0x0A, 0x0B] @ [0x10..<0x15] @ [0x16, 0x17, 0x18] @ [0x1A..<0x1E] @ [0x20]),
     ((3, 0), [0x37, 0x39, 0x3E, 0xA1]), ((3, 1), [0x08, 0x09, 0xF0]), ((4, 0), [0x3C, 0xA2]), ((4, 1), [0xF5]),
     ((5, 0), [0xA3]), ((6, 0), [0xA4]), ((6, 1), [0xF4, 0xFA]), ((7, 1), [0xF1])]"

definition group_of :: "('a \<times> nat list) list \<Rightarrow> nat \<Rightarrow> 'a option" where
  "group_of groups op = map_option fst (find (\<lambda>(_, ops). op \<in> set ops) groups)"

text \<open>\<open>DUP\<close> and \<open>SWAP\<close> take all items down to the one they copy or exchange.\<close>

definition items :: "nat \<Rightarrow> (int \<times> int) option" where
  "items op =
     (if 0x80 \<le> op \<and> op < 0x90 then Some (int op - 0x7F, int op - 0x7E)
      else if 0x90 \<le> op \<and> op < 0xA0 then Some (int op - 0x8E, int op - 0x8E)
      else group_of item_groups op)"

text \<open>Fee, items taken and items put; \<open>None\<close> for a byte that is no instruction.\<close>

definition schedule :: "nat \<Rightarrow> (int \<times> int \<times> int) option" where
  "schedule op = (case (group_of fee_groups op, items op) of
     (Some fee, Some (taken, put)) \<Rightarrow> Some (fee, taken, put) | _ \<Rightarrow> None)"

lemma group_of_simps:
  "group_of [] op = None"
  "group_of ((x, ops) # groups) op = (if op \<in> set ops then Some x else group_of groups op)"
  by (simp_all add: group_of_def)

lemma schedule_all:
  "list_all (\<lambda>(op, io). schedule op = map_option (\<lambda>i. case op_info i of (c, req, chg) \<Rightarrow> (c, req, req + chg)) io)
     MAP_OPCODES"
proof -
  note defs = schedule_def items_def fee_groups_def item_groups_def group_of_simps
  have "list_all (\<lambda>(op, io). schedule op = map_option (\<lambda>i. case op_info i of (c, req, chg) \<Rightarrow> (c, req, req + chg)) io)
     MAP_OPCODES_lo" by (simp add: MAP_OPCODES_lo_def defs)
  moreover have "list_all (\<lambda>(op, io). schedule op = map_option (\<lambda>i. case op_info i of (c, req, chg) \<Rightarrow> (c, req, req + chg)) io)
     MAP_OPCODES_hi" by (simp add: MAP_OPCODES_hi_def defs)
  ultimately show ?thesis by (simp add: MAP_OPCODES_def)
qed

lemma schedule_entry:
  assumes "op < 256"
  shows "schedule op = map_option (\<lambda>i. case op_info i of (c, req, chg) \<Rightarrow> (c, req, req + chg)) (snd (MAP_OPCODES ! op))"
proof -
  have "op < length MAP_OPCODES" "fst (MAP_OPCODES ! op) = op"
    using assms by (simp_all add: fst_MAP_OPCODES_nth)
  then show ?thesis using schedule_all by (auto simp: list_all_length split_def)
qed

text \<open>Undefined instructions have no entries.\<close>

lemma undefined_entries:
  assumes "op < 256" and "snd (MAP_OPCODES ! op) = None"
  shows "gas_costs ZVMC_SHANGHAI ! op = undefined_cost" and "traits ! op = default_traits"
  using tables_agree [OF assms(1)] assms(2) by (simp_all add: entry_agrees_def)

end
