(* ===== verification/Spec2Isabelle.thy ===== *)
theory Spec2Isabelle
  imports Zvm_Chain Zvm_Schedule
begin

text \<open>
  Verification of zvmone, an implementation of the Zond Virtual Machine (ZVM) in C++, with the
  test host that runs it.

  \<^bold>\<open>The program.\<close>  A host (an implementation of the ZVMC host interface) asks a VM to execute a
  message with a code.  The VM object (\<open>lib/zvmone/vm.cpp\<close>) selects one of two interpreters.  The
  Baseline interpreter (\<open>baseline.cpp\<close>) marks the valid jump destinations of the code and
  dispatches on its bytes, checking gas and stack before every instruction.  The Advanced
  interpreter (\<open>advanced_analysis.cpp\<close>, \<open>advanced_instructions.cpp\<close>, \<open>advanced_execution.cpp\<close>)
  translates the code into an array of function pointers and checks gas and stack once for every
  basic block.  Both use the same core instructions (\<open>instructions.hpp\<close>,
  \<open>instructions_storage.cpp\<close>, \<open>instructions_calls.cpp\<close>) on an \<open>ExecutionState\<close>
  (\<open>execution_state.hpp\<close>); these call back to the host for accounts, storage, logs and nested
  calls.  Tracers (\<open>tracing.cpp\<close>) observe a Baseline execution.  The test host
  (\<open>test/state/host.cpp\<close>) implements the host interface on a map of accounts and runs a VM for
  nested calls; \<open>transition\<close> (\<open>test/state/state.cpp\<close>) wraps a transaction around it, and
  \<open>zvmone-t8n\<close> processes blocks of transactions and publishes roots of Merkle Patricia tries
  (\<open>mpt.cpp\<close>, \<open>mpt_hash.cpp\<close>) and bloom filters (\<open>bloom_filter.cpp\<close>).

  \<^bold>\<open>Conventions.\<close>  Machine integers that wrap are words (\<open>uint256\<close>, \<open>uint64\<close>), gas amounts
  (\<open>int64_t\<close>) are integers, sizes (\<open>size_t\<close>) are natural numbers with the reductions modulo \<open>2 ^ 64\<close>
  written out where the code can wrap.  Undefined behaviour, an access outside a buffer and a
  violated \<open>assert\<close> are \<open>None\<close> in the option monad, so that every theorem that a function returns
  is also a theorem that these do not happen.  Status codes and the error codes of transactions
  are datatypes.  References into the state are updates of the state that is passed along.
  Code outside the repository is a parameter: the host of an interpreter and the 256-bit library
  intx are the fields of a record \<open>platform\<close>, with their documented behaviour as the locales
  \<open>zvmc_host\<close> (\<open>Zvm_Core_Laws\<close>) and \<open>intx_library\<close> (\<open>Zvm_Stack_Ops\<close>); Keccak-256 is an arbitrary
  function.  The locales are interpreted on the test host and on a reference library
  (\<open>Zvm_Host_Laws\<close>); \<open>precompiled_contracts\<close> is the interface of \<open>Host::call\<close> to the precompiled
  contracts, interpreted on those of the repository.

  \<^bold>\<open>Theories, from the data to the block.\<close>
  \<^item> \<open>Zvm_Prelude\<close>: types, limbs, big-endian bytes, shared lemmas.
  \<^item> \<open>Zvm_Opcodes\<close>, \<open>Zvm_Traits\<close>: the opcodes, the X macro that maps them to implementations
    (\<open>instructions_opcodes.hpp\<close>, \<open>instructions_xmacro.hpp\<close>), gas costs and traits
    (\<open>instructions_traits.hpp\<close>) and the cost tables (\<open>baseline_instruction_table.cpp\<close>).
  \<^item> \<open>Zvm_Memory\<close>, \<open>Zvm_State\<close>: class \<open>Memory\<close> with its capacity and \<open>realloc\<close>, the stack space,
    \<open>ExecutionState\<close>, messages, results and the host interface.
  \<^item> \<open>Zvm_Stack_Ops\<close>: the instructions on the stack alone, and their refinement of a mathematical
    description.  \<open>Zvm_Gas_Memory\<close>: \<open>check_memory\<close>.  \<open>Zvm_Core\<close>, \<open>Zvm_Storage\<close>, \<open>Zvm_Calls\<close>: the
    other core instructions.  \<open>Zvm_Core_Laws\<close>, \<open>Zvm_Control\<close>, \<open>Zvm_Storage_Laws\<close>: a calculus for
    computations that return (\<open>returns\<close>) and the contract of every instruction: it stays inside
    its buffers, never raises the gas, keeps the memory well-formed and changes the host only by
    the effects (\<open>vm_effects\<close>) its message is entitled to.
  \<^item> \<open>Zvm_Analysis\<close>, \<open>Zvm_Baseline\<close>: \<open>analyze_jumpdests\<close>, padding, \<open>check_requirements\<close>, both
    dispatch loops and \<open>execute\<close>; the invariant of a configuration, that gas decreases, totality.
  \<^item> \<open>Zvm_Advanced_Analysis\<close>, \<open>Zvm_Advanced\<close>: the single pass \<open>analyze\<close> with its back-patching
    against a look-ahead specification, \<open>find_jumpdest\<close>, the wrappers and tables and the loop.
    \<open>Zvm_Neutral\<close>, \<open>Zvm_Blocks\<close>, \<open>Zvm_Block_Fails\<close>, \<open>Zvm_Advanced_Sim\<close>: the simulation of the
    Baseline by the Advanced interpreter.
  \<^item> \<open>Zvm_Tracing\<close>, \<open>Zvm_VM\<close>: both tracers with their context stacks and output, the traced loop,
    creation and options of a VM.
  \<^item> \<open>Zvm_World\<close>, \<open>Zvm_Precompiles\<close>, \<open>Zvm_Rlp\<close>, \<open>Zvm_Host\<close>: accounts, precompiled contracts with
    their cache, the RLP encoder with a decoder as its specification, class \<open>Host\<close>.
    \<open>Zvm_Host_Laws\<close>: the test host keeps the contract of the interpreters.  \<open>Zvm_Ledger\<close>:
    \<open>Host::call\<close> refines an abstract ledger.  \<open>Zvm_Refunds\<close>: refunds are not negative over a
    message.  \<open>Zvm_Host_Returns\<close>: \<open>Host::call\<close> returns.
  \<^item> \<open>Zvm_Transaction\<close>, \<open>Zvm_Transaction_Laws\<close>: \<open>validate_transaction\<close>, \<open>transition\<close>, \<open>finalize\<close>.
    \<open>Zvm_Mpt\<close>, \<open>Zvm_Mpt_Hash\<close>, \<open>Zvm_Mpt_Binding\<close>, \<open>Zvm_Bloom\<close>: the trie against maps (canonical
    tries, order of insertion, binding up to hash collisions) and the filter against sets of bits.
    \<open>Zvm_Block\<close>, \<open>Zvm_Block_Roots\<close>: encodings of transactions and receipts, their roots, the
    loop of \<open>zvmone-t8n\<close>.
  \<^item> \<open>Zvm_Divergence\<close>, \<open>Zvm_Undefined\<close>: executions on two hosts that differ in some of their calls,
    and from it that the requests for precompiled contracts that \<open>call_precompile\<close> does not define
    (\<open>undefined_request\<close> in \<open>Zvm_Precompiles\<close>) are the only undefined behaviour of calls and blocks.
  \<^item> \<open>Zvm_Schedule\<close>: the fees and stack items of the instructions, written as the schedule of the
    Yellow Paper, as the specification of the tables.
  \<^item> \<open>Zvm_Demo\<close>: the concrete inputs of the witnesses.  \<open>Zvm_Chain\<close>: the properties of transactions,
    blocks and commitments.  This theory: the properties of the interpreters, instructions,
    tracers, options and of calls of the host.

  \<^bold>\<open>What is proved.\<close>  Both interpreters return on every message with non-negative gas, and agree
  (C1, C2); an execution changes its host only as its message allows (C3).  A call of the test
  host with everything nested in it refines the ledger, from which follow the conservation of
  funds, that static and failed calls are not observable (C4 to C7), and it returns unless it
  requests a precompiled contract that the repository does not define (C8).  On top of
  this, transactions and blocks: validation, bounds of the charged gas, exact accounting of
  balances, what a failed transaction changes, that blocks are processed to the end with the same
  exception, and that their roots and filters mean what they should.  Below it: the analyses are
  exact, the instructions compute what they should, the tables are the fee schedule, memory costs
  are right, and tracing and options do not change results.

  \<^bold>\<open>Bounds.\<close>  The interpreter loops are \<open>partial_function\<close>s, and that they return is proved.  The
  nesting of \<open>Host::call\<close> is cut off at a number of levels; 1025 levels are enough for the depth
  limit of 1024, and the ghost field \<open>out_of_depth\<close> of the host, which the cut-off would set, is
  proved to keep its value.  The equality of the interpreters needs \<open>32000 * length code < 2 ^ 32\<close>
  (134 kB; the code of an account has at most 24 kB), because the gas of a block is clamped to 32
  bits.  Theorems on transactions assume a state without \<open>destructed\<close> accounts, which no
  operation produces.  Balances are added up in the 256-bit integers, as in the code.

  \<^bold>\<open>Not modelled.\<close>  \<open>cpu_check.cpp\<close> (a processor test at start-up), running out of memory,
  destructors and the addresses of objects; overflow of \<open>int64_t\<close> in the fees of unrealistic
  transactions; the JSON input and output of the tools, the state test runner, test utilities,
  unit tests, fuzzer and benchmarks, which contain no logic of the machine.  The wrapper overloads
  of the Advanced interpreter that no instruction instantiates are left out.  The executors of
  the precompiled contracts other than the identity are the dummies of the repository.
\<close>

lemma returns_exI:
  "returns p (\<lambda>((s, g), st). Q s g st) \<Longrightarrow> \<exists>s g st. p = Some ((s, g), st) \<and> Q s g st"
  by (auto simp: returns_def)

section \<open>The two interpreters\<close>

text \<open>C1: on every host that keeps the contract, for every message with non-negative gas and
  every code of at most 134 kB, the Advanced and the Baseline interpreter both return.  If one of
  them succeeds or reverts, both return the same result (status, gas, refund, output) and leave
  the same host; otherwise both results are failures that differ at most in the status.\<close>

theorem advanced_equals_baseline:
  assumes "zvmc_host P" and "0 \<le> gas m" and "32000 * length code < 2 ^ 32"
  shows "\<exists>ra ha rb hb. adv_execute P h r m code = Some (ra, ha) \<and> execute P cgoto h r m code = Some (rb, hb) \<and>
    (if {res_status ra, res_status rb} \<inter> {ZVMC_SUCCESS, ZVMC_REVERT} \<noteq> {}
     then ra = rb \<and> ha = hb else rb = ra\<lparr>res_status := res_status rb\<rparr>)"
  by (rule zvmc_host.advanced_agrees [OF assms])

theorem advanced_equals_baseline_witness:
  "\<exists>ra ha rb hb.
     adv_execute demo_platform (Some demo_host) ZVMC_SHANGHAI demo_message demo_code = Some (ra, ha) \<and>
     execute demo_platform True (Some demo_host) ZVMC_SHANGHAI demo_message demo_code = Some (rb, hb) \<and>
     (if {res_status ra, res_status rb} \<inter> {ZVMC_SUCCESS, ZVMC_REVERT} \<noteq> {}
      then ra = rb \<and> ha = hb else rb = ra\<lparr>res_status := res_status rb\<rparr>)"
  by (rule advanced_equals_baseline [OF demo_laws(1)]) (simp_all add: demo_gas demo_length)

text \<open>C2: the Baseline interpreter terminates on every message with non-negative gas, without
  leaving the stack, the memory or the code buffer; it gives back between zero gas and the gas of
  the message; a failed execution gives back no gas and no output, and only a successful one
  gives a refund.\<close>

theorem baseline_execution_returns:
  assumes "zvmc_host P" and "0 \<le> gas m"
  shows "\<exists>res h'. execute P cgoto h r m code = Some (res, h') \<and>
    0 \<le> res_gas_left res \<and> res_gas_left res \<le> gas m \<and>
    (if res_status res \<in> {ZVMC_SUCCESS, ZVMC_REVERT} then True
     else res_gas_left res = 0 \<and> output_data res = []) \<and>
    (if res_status res = ZVMC_SUCCESS then True else res_gas_refund res = 0)"
  using zvmc_host.execute_returns [OF assms, of cgoto h r code]
  by (auto simp: returns_def vm_ok_def)

theorem baseline_execution_returns_witness:
  "\<exists>res h'. execute demo_platform True (Some demo_host) ZVMC_SHANGHAI demo_message demo_code = Some (res, h') \<and>
     0 \<le> res_gas_left res \<and> res_gas_left res \<le> 50000"
  using baseline_execution_returns [OF demo_laws(1), of demo_message True "Some demo_host" ZVMC_SHANGHAI demo_code]
  by (auto simp: demo_gas)

text \<open>C3: an execution changes its host only by the effects it is entitled to: it marks accounts
  and its own storage slots as accessed, writes its own storage and logs in its own name outside
  static mode, and passes on calls one level deeper with no more value than it has; a static
  execution makes only static calls.  The refund of a successful execution is the sum of the
  refunds of its storage writes and of its calls.\<close>

theorem baseline_execution_effects:
  assumes "zvmc_host P" and "0 \<le> gas m" and "execute P cgoto h r m code = Some (res, h')"
  shows "\<exists>n. vm_effects P m h n h' \<and> (if res_status res = ZVMC_SUCCESS then res_gas_refund res = n else True)"
  using zvmc_host.execute_returns [OF assms(1,2), of cgoto h r code] assms(3)
  by (auto simp: vm_ok_def earns_def)

theorem baseline_execution_effects_witness:
  "\<exists>res h'. execute demo_platform True (Some demo_host) ZVMC_SHANGHAI demo_message demo_code = Some (res, h') \<and>
     (\<exists>n. vm_effects demo_platform demo_message (Some demo_host) n h')"
  using zvmc_host.execute_returns [OF demo_laws(1), of demo_message True "Some demo_host" ZVMC_SHANGHAI demo_code]
    baseline_execution_effects [OF demo_laws(1), of demo_message True "Some demo_host" ZVMC_SHANGHAI demo_code]
  by (auto simp: demo_gas returns_def)

text \<open>C16: one iteration of the dispatch loop from a well-formed configuration (an instruction
  boundary, a stack within its limit, non-negative gas, a memory of whole words) is defined, and
  it either ends the execution in a well-formed way or leads to a well-formed configuration with
  less gas.\<close>

theorem dispatch_step_invariant:
  assumes "zvmc_host P" and "cfg_ok code (pos, t, g, st)"
  shows "\<exists>r. switch_step P cost_table (pos, t, g, st) = Some r \<and> step_ok P code g st r"
  using zvmc_host.switch_step_ok [OF assms, of cost_table] by (simp add: returns_def)

theorem dispatch_step_invariant_witness:
  "\<exists>r. switch_step demo_platform (get_baseline_cost_table ZVMC_SHANGHAI) (0, 0, 50000, demo_state) = Some r \<and>
     step_ok demo_platform demo_code 50000 demo_state r"
  by (rule dispatch_step_invariant [OF demo_laws(1) demo_cfg])

text \<open>The computed-goto dispatch loop and the switch dispatch loop are the same function.\<close>

lemma cgoto_equals_switch:
  "dispatch_cgoto P cost_table c = dispatch P cost_table c"
  by (rule dispatch_cgoto_eq)

text \<open>C19: tracing does not change an execution: without its notifications, the traced execution
  is the execution without tracers.\<close>

theorem tracing_is_neutral:
  "map_option fst (execute_tracing P h r m code) = execute P cgoto h r m code"
  by (rule execute_tracing_fst)

section \<open>Code analysis\<close>

text \<open>C18: the bitmap that \<open>analyze_jumpdests\<close> computes marks exactly the positions that hold a
  \<open>JUMPDEST\<close> opcode at an instruction boundary.\<close>

theorem jumpdest_analysis_exact:
  "analyze_jumpdests code = map (valid_jumpdest code) [0..<length code]"
  by (rule nth_equalityI) (simp_all add: analyze_jumpdests_nth)

text \<open>C17: the single pass of the Advanced analysis, which patches block data and push values into
  instructions it has already emitted, computes the look-ahead translation of the code, and its
  assertions about the reserved space hold.\<close>

theorem advanced_analysis_correct:
  "adv_analyze r code = Some (spec_analysis r code)"
  by (rule adv_analyze_spec)

text \<open>C27: the binary search of the Advanced interpreter finds a target for exactly the valid jump
  destinations.\<close>

theorem find_jumpdest_correct:
  assumes "length code < 2 ^ 31"
  shows "if valid_jumpdest code d
    then \<exists>i. (d, i) \<in> set (jumpdests code 0 1) \<and> find_jumpdest (spec_analysis r code) (int d) = int32 (int i)
    else find_jumpdest (spec_analysis r code) (int d) = - 1"
  by (rule find_jumpdest_cases [OF assms])

theorem find_jumpdest_correct_witness:
  "if valid_jumpdest demo_code 3
   then \<exists>i. (3, i) \<in> set (jumpdests demo_code 0 1) \<and>
     find_jumpdest (spec_analysis ZVMC_SHANGHAI demo_code) (int 3) = int32 (int i)
   else find_jumpdest (spec_analysis ZVMC_SHANGHAI demo_code) (int 3) = - 1"
  by (rule find_jumpdest_correct) (simp add: demo_length)

text \<open>C28: a jump goes to its destination when this is a valid jump destination of the code, as a
  256-bit number, and fails with a bad jump destination otherwise.\<close>

theorem jump_checks_destination:
  assumes "analysis st = analyze r code" and "length code < 2 ^ 64"
  shows "core_jump_impl st dst =
    (if valid_jumpdest code (unat dst) then (Some (unat dst), st)
     else (None, st\<lparr>status := ZVMC_BAD_JUMP_DESTINATION\<rparr>))"
proof -
  have "unat dst < length code \<and> analyze_jumpdests code ! unat dst \<longleftrightarrow> valid_jumpdest code (unat dst)"
    using analyze_jumpdests_nth [of "unat dst" code] by (auto simp: valid_jumpdest_def)
  then show ?thesis using core_jump_impl_iff [of st dst] assms by simp
qed

theorem jump_checks_destination_witness:
  "core_jump_impl demo_state 3 =
    (if valid_jumpdest demo_code 3 then (Some 3, demo_state)
     else (None, demo_state\<lparr>status := ZVMC_BAD_JUMP_DESTINATION\<rparr>))"
  using jump_checks_destination [of demo_state ZVMC_SHANGHAI demo_code 3]
  by (simp add: demo_state_def demo_length)

lemma padded_code_slice:
  assumes "i \<le> length code" and "n \<le> 32"
  shows "take n (drop i (pad_code code)) = padded_slice code i n"
  using assms by (auto simp: pad_code_def padded_slice_def min_def simp del: replicate.simps)

text \<open>C29: a push instruction at a position of the code pushes its immediate bytes as a big-endian
  number, where bytes beyond the end of the code are zero.\<close>

theorem push_pushes_immediate:
  assumes "1 \<le> Len" "Len \<le> 32" and "t < limit" and "pos < length code" and "analysis st = analyze r code"
  shows "core_push Len t st pos = Some (Some (pos + (Len + 1)),
    st\<lparr>stack_space := (stack_space st)(t := be_load (padded_slice code (pos + 1) Len))\<rparr>)"
  using core_push_spec [OF assms(1-3), of pos st] padded_code_slice [of "pos + 1" code Len] assms by simp

theorem push_pushes_immediate_witness:
  "core_push 1 0 demo_state 2 = Some (Some 4,
    demo_state\<lparr>stack_space := (stack_space demo_state)(0 := be_load (padded_slice demo_code 3 1))\<rparr>)"
  using push_pushes_immediate [of 1 0 2 demo_code demo_state ZVMC_SHANGHAI]
  by (simp add: demo_state_def demo_length limit_def)

section \<open>Instructions\<close>

text \<open>C20: with a 256-bit library that computes what it documents, every instruction that works on
  the stack alone refines its mathematical description on the list of stack items, top item first,
  and leaves the items below its arguments alone.\<close>

theorem stack_instructions_refine:
  assumes "intx_library P" and "op_args_ok (Stack_op i)" and "stack_op_info i = (c, req, chg)"
    and "req \<le> int t" and "t \<le> limit" and "int t + chg \<le> int limit"
  shows "\<exists>sp'. stack_impl P i sp t = Some sp' \<and>
    stack_view sp' (nat (int t + chg)) = stack_sem i (stack_view sp t)"
  by (rule intx_library.stack_impl_refines [OF assms])

theorem stack_instructions_refine_witness:
  "\<exists>sp'. stack_impl demo_platform Id_add (\<lambda>i. of_nat i) 2 = Some sp' \<and> stack_view sp' 1 = [1]"
  using stack_instructions_refine [OF demo_laws(2), of Id_add 3 2 "- 1" 2 "\<lambda>i. of_nat i"]
  by (simp add: limit_def stack_view_def upt_rec)

text \<open>The limb-wise sign extension of \<open>SIGNEXTEND\<close> is the sign extension of the low
  \<open>8 * (ext + 1)\<close> bits.\<close>

lemma signextend_is_sign_extension:
  assumes "ext < 31"
  shows "signextend_value ext x = signed_take_bit (8 * unat ext + 7) x"
  by (rule signextend_value_ref [OF assms])

text \<open>\<open>SAR\<close>, which shifts the complemented or plain value logically and fixes the sign, is
  the arithmetic shift, also for shifts of 256 bits and more.\<close>

lemma sar_is_arithmetic_shift:
  "sar_value y x = signed_drop_bit (unat y) x"
  by (rule sar_value_ref)

text \<open>C33: the tables of both interpreters are the fee schedule: for every opcode of \<open>schedule\<close> the cost
  table of the Baseline interpreter and the table of the Advanced interpreter have its fee, the
  number of items it takes as the stack requirement, and the difference between the items it puts
  and takes as the stack change; every other byte is undefined in both.\<close>

theorem tables_match_schedule:
  assumes "op < 256"
  shows "case schedule op of
      Some (fee, pops, pushes) \<Rightarrow>
        get_baseline_cost_table r ! op = fee \<and>
        stack_height_required (traits ! op) = pops \<and> stack_height_change (traits ! op) = pushes - pops \<and>
        op_gas_cost (get_op_table r ! op) = fee \<and>
        op_stack_req (get_op_table r ! op) = pops \<and> op_stack_change (get_op_table r ! op) = pushes - pops
    | None \<Rightarrow>
        get_baseline_cost_table r ! op = undefined_cost \<and>
        get_op_table r ! op = \<lparr>op_fn = Op_undefined, op_gas_cost = 0, op_stack_req = 0, op_stack_change = 0\<rparr>"
proof (cases "snd (MAP_OPCODES ! op)")
  case None
  then show ?thesis
    using schedule_entry [OF assms] undefined_entries [OF assms] get_baseline_cost_table_eq [OF assms, of r]
      get_op_table_nth [OF assms, of r]
    by (cases r) (simp add: op_table_entry_def)
next
  case (Some i)
  then have m: "map_of MAP_OPCODES op = Some (Some i)" using MAP_OPCODES_index [OF assms] by simp
  obtain c req chg where info: "op_info i = (c, req, chg)" by (metis prod_cases3)
  show ?thesis
    using schedule_entry [OF assms] Some table_entry_eq [OF assms m info, of r] op_tables [OF assms m]
      get_baseline_cost_table_eq [OF assms, of r] get_op_table_nth [OF assms, of r] info
    by (cases r) simp
qed

theorem tables_match_schedule_witness:
  "get_baseline_cost_table ZVMC_SHANGHAI ! 0xF1 = 100 \<and> op_stack_req (get_op_table ZVMC_SHANGHAI ! 0xF1) = 7 \<and>
   op_stack_change (get_op_table ZVMC_SHANGHAI ! 0x85) = 1 \<and>
   op_fn (get_op_table ZVMC_SHANGHAI ! 0xFF) = Op_undefined"
proof -
  have "schedule 0xF1 = Some (100, 7, 1)" "schedule 0x85 = Some (3, 6, 7)" "schedule 0xFF = None"
    by (simp_all add: schedule_def items_def fee_groups_def item_groups_def group_of_simps)
  then show ?thesis
    using tables_match_schedule [of "0xF1" ZVMC_SHANGHAI] tables_match_schedule [of "0x85" ZVMC_SHANGHAI]
      tables_match_schedule [of "0xFF" ZVMC_SHANGHAI] by simp
qed

text \<open>C26: the memory check in front of every memory access is defined for all 256-bit offsets and
  sizes.  When it passes, the accessed range lies in the memory, which has only been extended by
  zeros, and the gas charged is the difference of the quadratic memory cost; when it fails, the
  memory is unchanged.\<close>

theorem memory_check_correct:
  assumes "mem_inv m" and "0 \<le> g"
  shows "\<exists>ok g' m'. check_memory g m offset sz = Some (ok, g', m') \<and> mem_inv m' \<and> g' \<le> g \<and>
    (if ok then 0 \<le> g' \<and> mem_extends m m' \<and> (sz = 0 \<or> unat offset + unat sz \<le> m_size m') \<and>
       g - g' = memory_cost (int (m_size m' div 32)) - memory_cost (int (m_size m div 32))
     else m' = m)"
proof -
  obtain ok g' m' where r: "check_memory g m offset sz = Some (ok, g', m')"
    and c: "checked g m (to_size offset) (to_size sz) (ok, g', m')"
    and b: "ok \<longrightarrow> unat sz \<le> max_buffer_size \<and> (sz \<noteq> 0 \<longrightarrow> unat offset \<le> max_buffer_size)"
    using check_memory_checked [OF assms, of offset sz] by auto
  have "to_size sz = unat sz" "sz \<noteq> 0 \<longrightarrow> to_size offset = unat offset \<and> unat sz \<noteq> 0" if ok
    using b that to_size_small [of sz] to_size_small [of offset]
    by (auto simp: max_buffer_size_def unat_eq_zero)
  then show ?thesis using r c by (auto simp: checked_def)
qed

theorem memory_check_correct_witness:
  "\<exists>ok g' m'. check_memory 1000 (memory demo_state) 5 32 = Some (ok, g', m') \<and> mem_inv m' \<and> g' \<le> 1000"
  using memory_check_correct [OF demo_memory, of 1000 5 32] by auto

lemma mstore_stores:
  assumes t: "2 \<le> t" "t \<le> limit" and g: "0 \<le> g" and inv: "mem_inv (memory st)"
  shows "returns (core_mstore P t g st) (\<lambda>((s, g'), st'). s = ZVMC_SUCCESS \<longrightarrow>
    to_size (stack_space st (t - 1)) = unat (stack_space st (t - 1)) \<and> mem_inv (memory st') \<and>
    mem_read (memory st') (unat (stack_space st (t - 1))) 32 = Some (be_store 32 (stack_space st (t - 2))))"
  unfolding core_mstore_def using t
  apply (simp only: st_pop_in bind.bind_lunit prod.case)
  apply (rule returns_bindI, rule returns_st_check_memory_size [OF inv g])
    apply (simp add: max_buffer_size_def)
   apply simp
  apply (simp only: prod.case not_True_eq_False if_False)
  apply (rule returns_bindI, rule returns_st_write)
   apply (simp add: range_ok_def)
  apply (drule mem_read_write_same)
  apply (auto simp: range_ok_def numeral_2_eq_2)
  done

text \<open>C30: a word that \<open>MSTORE\<close> has written is the word that a successful \<open>MLOAD\<close> of the same
  offset reads, whatever is on the stack below.\<close>

theorem mload_reads_what_mstore_wrote:
  assumes "core_mstore P t g st = Some ((ZVMC_SUCCESS, g1), st1)" and "2 \<le> t" "t \<le> limit" "0 \<le> g"
    and "mem_inv (memory st)" and "memory st2 = memory st1"
    and "stack_space st2 (t2 - 1) = stack_space st (t - 1)" and "1 \<le> t2" "t2 \<le> limit" "0 \<le> g2"
    and "core_mload P t2 g2 st2 = Some ((ZVMC_SUCCESS, g3), st3)"
  shows "stack_space st3 (t2 - 1) = stack_space st (t - 2)"
proof -
  let ?off = "stack_space st (t - 1)"
  define bs where "bs = be_store 32 (stack_space st (t - 2))"
  have w: "mem_inv (memory st1)" "mem_read (memory st1) (unat ?off) 32 = Some bs"
    using mstore_stores [OF assms(2-5), of P] assms(1) by (simp_all add: bs_def)
  have "padded_slice (mem_view (memory st1)) (unat ?off) 32 = bs"
    using w(2) by (auto simp: mem_read_view slice_def padded_slice_def split: if_splits)
  then have "stack_space st3 (t2 - 1) = be_load bs"
    using core_mload_spec [OF assms(8-10), of st2 P] assms(6,7,11) w(1) by simp
  then show ?thesis by (simp add: bs_def be_load_be_store)
qed

lemmas memory_eval = st_pop_in st_at_in st_check_memory_size_def check_memory_size_def memory_new_def
  allocate_capacity_def max_buffer_size_def grow_memory_def num_words_def word_size_def grow_def
  page_size_def st_write_def mem_write_def mem_read_def to_size_def limb_def limit_def
  st_set_def stk_set_def

lemma demo_store:
  "\<exists>st1. core_mstore demo_platform 2 1000 demo_state = Some ((ZVMC_SUCCESS, 997), st1) \<and>
     m_size (memory st1) = 32"
  by (simp add: core_mstore_def demo_state_def ExecutionState_def demo_platform_def host_platform_def
      host_interface_def reference_library_def memory_eval)

lemma load_inside:
  "stack_space st 0 = 0 \<Longrightarrow> m_size (memory st) = 32 \<Longrightarrow>
   \<exists>st'. core_mload P 1 1000 st = Some ((ZVMC_SUCCESS, 1000), st')"
  by (simp add: core_mload_def memory_eval)

theorem mload_reads_what_mstore_wrote_witness:
  "\<exists>st1 st3. core_mstore demo_platform 2 1000 demo_state = Some ((ZVMC_SUCCESS, 997), st1) \<and>
     core_mload demo_platform 1 1000 (st1\<lparr>stack_space := \<lambda>_. 0\<rparr>) = Some ((ZVMC_SUCCESS, 1000), st3) \<and>
     stack_space st3 0 = stack_space demo_state 0"
proof -
  obtain st1 where s: "core_mstore demo_platform 2 1000 demo_state = Some ((ZVMC_SUCCESS, 997), st1)"
    "m_size (memory st1) = 32" using demo_store by blast
  let ?st2 = "st1\<lparr>stack_space := \<lambda>_. 0\<rparr>"
  obtain st3 where l: "core_mload demo_platform 1 1000 ?st2 = Some ((ZVMC_SUCCESS, 1000), st3)"
    using load_inside [of ?st2 demo_platform] s(2) by auto
  have "stack_space demo_state 1 = 0"
    by (simp add: demo_state_def ExecutionState_def demo_platform_def host_platform_def
        host_interface_def reference_library_def)
  then have "stack_space st3 (1 - 1) = stack_space demo_state (2 - 2)"
    by (intro mload_reads_what_mstore_wrote [OF s(1) _ _ _ demo_memory _ _ _ _ _ l])
       (simp_all add: limit_def)
  then show ?thesis using s(1) l by auto
qed

text \<open>\<open>CALLDATACOPY\<close> returns, and when it succeeds it writes to memory exactly the requested
  bytes of the input, with zeros for positions beyond its end, and changes nothing else of the
  memory but its size.\<close>

lemma calldatacopy_copies:
  assumes "3 \<le> t" "t \<le> limit" and "0 \<le> g" and "mem_inv (memory st)"
    and "length (input_data (msg st)) < 2 ^ 64"
  shows "\<exists>s g' st'. core_calldatacopy P t g st = Some ((s, g'), st') \<and> g' \<le> g \<and>
    (if s = ZVMC_SUCCESS
     then \<exists>k. mem_view (memory st') = list_write (mem_view (memory st) @ replicate k 0)
       (to_size (stack_space st (t - 1)))
       (padded_slice (input_data (msg st)) (unat (stack_space st (t - 2))) (unat (stack_space st (t - 3))))
     else True)"
  unfolding core_calldatacopy_def padded_slice_copy_src [OF assms(5), symmetric]
  by (intro returns_exI returns_mono [OF buffer_copy_spec [OF assms(1-4)]]) (auto simp: result_ok_def)

text \<open>\<open>RETURNDATACOPY\<close> never reads beyond the return data: it succeeds only when the requested
  range lies inside the buffer, and then it writes exactly this range.\<close>

lemma returndatacopy_stays_inside:
  assumes "3 \<le> t" "t \<le> limit" and "0 \<le> g" and "mem_inv (memory st)"
    and "core_returndatacopy P t g st = Some ((ZVMC_SUCCESS, g'), st')"
  shows "to_size (stack_space st (t - 2)) + unat (stack_space st (t - 3)) \<le> length (return_data st) \<and>
    writes st (stack_space st (t - 1))
      (take (unat (stack_space st (t - 3))) (drop (to_size (stack_space st (t - 2))) (return_data st))) st'"
  using core_returndatacopy_spec [OF assms(1-4), of P] assms(5) by simp

text \<open>\<open>KECCAK256\<close> hashes exactly the requested bytes of the memory, where bytes beyond its end
  are zero, and puts the hash in place of the size.\<close>

lemma keccak256_hashes_range:
  assumes "2 \<le> t" "t \<le> limit" and "0 \<le> g" and "mem_inv (memory st)"
  shows "\<exists>s g' st'. core_keccak256 P t g st = Some ((s, g'), st') \<and> g' \<le> g \<and>
    (if s = ZVMC_SUCCESS
     then stack_space st' = (stack_space st)(t - 2 := ethash_keccak256 P
         (padded_slice (mem_view (memory st)) (unat (stack_space st (t - 1)))
            (unat (stack_space st (t - 2)))))
     else True)"
  by (intro returns_exI returns_mono [OF core_keccak256_spec [OF assms]]) (auto simp: result_ok_def)

text \<open>C39: a \<open>LOG\<close> instruction in static mode fails and does not call the host; otherwise a
  successful one emits exactly one log, in the name of the executing account, with the requested
  bytes of the memory and its topics in order, and a failed one emits none.\<close>

theorem log_emits_log:
  assumes "n + 2 \<le> t" "t \<le> limit" and "0 \<le> g" and "mem_inv (memory st)"
  shows "\<exists>s g' st'. core_log n P t g st = Some ((s, g'), st') \<and>
    (if in_static_mode st then s = ZVMC_STATIC_MODE_VIOLATION \<and> host st' = host st
     else if s = ZVMC_SUCCESS
     then host st' = host_emit_log P (host st) (recipient (msg st))
       (padded_slice (mem_view (memory st)) (unat (stack_space st (t - 1)))
          (unat (stack_space st (t - 2))))
       (map (\<lambda>i. stack_space st (t - 3 - i)) [0..<n])
     else host st' = host st)"
  by (intro returns_exI returns_mono [OF core_log_spec [OF assms]]) (auto split: if_splits)

theorem log_emits_log_witness:
  "\<exists>s g' st'. core_log 1 demo_platform 3 1000 (demo_state\<lparr>msg := demo_message\<lparr>flags := 1\<rparr>\<rparr>)
     = Some ((s, g'), st') \<and> s = ZVMC_STATIC_MODE_VIOLATION"
  using log_emits_log [of 1 3 1000 "demo_state\<lparr>msg := demo_message\<lparr>flags := 1\<rparr>\<rparr>" demo_platform] demo_memory
  by (auto simp: limit_def in_static_mode_def ZVMC_STATIC_def)

text \<open>C38: \<open>RETURN\<close> and \<open>REVERT\<close> deliver exactly the requested bytes of the memory as output, with
  zeros beyond its end, or run out of gas without output; they do not touch the host.\<close>

theorem return_delivers_output:
  assumes "2 \<le> t" "t \<le> limit" and "0 \<le> g" and "mem_inv (memory st)"
    and "s = ZVMC_SUCCESS \<or> s = ZVMC_REVERT" and "output_size st = 0" "output_offset st = 0"
  shows "\<exists>s' g' st'. core_return_impl s P t g st = Some ((s', g'), st') \<and> host st' = host st \<and> g' \<le> g \<and>
    (if s' = s
     then 0 \<le> g' \<and> output_bytes st' = padded_slice (mem_view (memory st))
       (unat (stack_space st (t - 1))) (unat (stack_space st (t - 2)))
     else s' = ZVMC_OUT_OF_GAS \<and> output_size st' = 0)"
  by (intro returns_exI returns_mono [OF core_return_impl_spec [OF assms]]) (auto split: if_splits)

theorem return_delivers_output_witness:
  "\<exists>s' g' st'. core_return_impl ZVMC_REVERT demo_platform 2 1000 demo_state = Some ((s', g'), st') \<and>
     host st' = host demo_state"
  using return_delivers_output [OF _ _ _ demo_memory, of 2 1000 ZVMC_REVERT demo_platform]
  by (auto simp: limit_def demo_state_def ExecutionState_def)

text \<open>\<open>SLOAD\<close> marks the slot as accessed, charges 2000 gas more when it was cold, and, if the
  gas suffices, replaces the key by the value that the host then holds for the executing
  account.\<close>

lemma sload_loads:
  assumes "1 \<le> t" "t \<le> limit" "0 \<le> g" "mem_inv (memory st)"
    and "host_access_storage P (host st) (recipient (msg st)) (stack_space st (t - 1)) = (acc, h)"
  shows "\<exists>s g' st'. core_sload P t g st = Some ((s, g'), st') \<and> host st' = h \<and>
    g' = g - (if acc = ZVMC_ACCESS_COLD then 2000 else 0) \<and>
    (if s = ZVMC_SUCCESS
     then stack_space st' = (stack_space st)(t - 1 :=
       host_get_storage P h (recipient (msg st)) (stack_space st (t - 1)))
     else True)"
  by (intro returns_exI returns_mono [OF core_sload_spec [OF assms(1-4), of P, unfolded assms(5) prod.case]]) auto

text \<open>C40: \<open>SSTORE\<close> in static mode, or with no more gas than the call stipend of 2300, fails and
  changes nothing; a successful one costs at least 100 gas.\<close>

theorem sstore_is_guarded:
  assumes "2 \<le> t" "t \<le> limit" "0 \<le> g" "mem_inv (memory st)"
  shows "\<exists>s g' st'. core_sstore P t g st = Some ((s, g'), st') \<and>
    (if in_static_mode st \<or> g \<le> 2300 then s \<noteq> ZVMC_SUCCESS \<and> st' = st else True) \<and>
    (if s = ZVMC_SUCCESS then g' + 100 \<le> g else True)"
  by (intro returns_exI returns_mono [OF core_sstore_spec [OF assms]]) auto

theorem sstore_is_guarded_witness:
  "\<exists>s g' st'. core_sstore demo_platform 2 2300 demo_state = Some ((s, g'), st') \<and>
     s \<noteq> ZVMC_SUCCESS \<and> st' = demo_state"
  using sstore_is_guarded [OF _ _ _ demo_memory, of 2 2300 demo_platform] by (auto simp: limit_def)

text \<open>C31: a call passes on at most all but one 64th of the gas, apart from the stipend for a value,
  so that the caller keeps at least one 64th whatever the callee does, and ends with no more gas
  than it had and the stipend.\<close>

theorem call_keeps_one_64th:
  assumes "zvmc_host P" and "0 \<le> g"
    and "call_host gas256 v m out_offset out_size P t g st = Some ((s, g'), st')"
  shows "g div 64 \<le> g' \<and> g' \<le> g + (if v = 0 then 0 else 2300)"
proof -
  let ?m = "m\<lparr>gas := call_gas gas256 v g\<rparr>"
  obtain result h where r: "host_call P (host st) ?m = (result, h)" by fastforce
  have left: "0 \<le> res_gas_left result" "res_gas_left result \<le> call_gas gas256 v g"
    using zvmc_host.call_gas_left [OF assms(1), of ?m "host st"] call_gas_bounds [OF assms(2)]
    by (auto simp: r)
  have "call_gas gas256 v g \<le> g - g div 64 + (if v = 0 then 0 else 2300)"
    by (auto simp: call_gas_def)
  moreover have "g' = g + (if v = 0 then 0 else 2300) \<or>
      g' = g + (if v = 0 then 0 else 2300) - (call_gas gas256 v g - res_gas_left result)"
    using assms(3) unfolding call_host_eq [OF assms(2)] r
    by (auto simp: Let_def split: if_splits bind_splits)
  ultimately show ?thesis using left assms(2) by auto
qed

theorem call_keeps_one_64th_witness:
  "\<exists>s g' st'. call_host 500 0 demo_call 0 0 demo_platform 1 6400 (demo_state\<lparr>msg := demo_message\<lparr>depth := 1024\<rparr>\<rparr>)
     = Some ((s, g'), st') \<and> 100 \<le> g'"
proof -
  let ?st = "demo_state\<lparr>msg := demo_message\<lparr>depth := 1024\<rparr>\<rparr>"
  obtain s g' st' where r: "call_host 500 0 demo_call 0 0 demo_platform 1 6400 ?st = Some ((s, g'), st')"
    using call_host_eq [of 6400 500 0 demo_call 0 0 demo_platform 1 ?st] by (auto simp: Let_def)
  then show ?thesis using call_keeps_one_64th [OF demo_laws(1) _ r] by auto
qed

section \<open>Tracing and options\<close>

text \<open>C35: a traced execution reports its start, then instructions, then its end.  Every reported
  instruction is an instruction boundary inside the code, with a stack within the limit and a
  memory of whole words, and the reported gas strictly decreases.\<close>

theorem trace_is_well_formed:
  assumes "zvmc_host P" and "0 \<le> gas m" and "length code + 33 \<le> 2 ^ 32"
    and "execute_tracing P h r m code = Some ((res, h'), ns)"
  shows "\<exists>ins. ns = Execution_start r m code # ins @ [Execution_end res] \<and>
    list_all (trace_ok code) ins \<and> sorted_wrt (>) (map trace_gas ins)"
proof -
  let ?st = "(ExecutionState P m r h code)\<lparr>analysis := analyze r code\<rparr>"
  have f: "st_rev ?st = r" "msg ?st = m" "original_code ?st = code"
    by (simp_all add: ExecutionState_def)
  obtain out ins where d: "dispatch_tracing P (get_baseline_cost_table r) (0, 0, gas m, ?st) = Some (out, ins)"
    and ns: "ns = Execution_start r m code # ins @ [Execution_end res]"
    using assms(4) unfolding execute_tracing_def execute_state_tracing_def Let_def f
    by (auto simp: pad_code_def split: bind_splits if_splits)
  show ?thesis
    using ns zvmc_host.dispatch_tracing_ok [OF assms(1) zvmc_host.initial_cfg [OF assms(1,2)] f(3) assms(3) d]
    by (auto simp: list_all_iff)
qed

theorem trace_is_well_formed_witness:
  "\<exists>res h' ins. execute_tracing demo_platform (Some demo_host) ZVMC_SHANGHAI demo_message demo_code
      = Some ((res, h'), Execution_start ZVMC_SHANGHAI demo_message demo_code # ins @ [Execution_end res]) \<and>
     list_all (trace_ok demo_code) ins"
proof -
  have "execute demo_platform True (Some demo_host) ZVMC_SHANGHAI demo_message demo_code \<noteq> None"
    using zvmc_host.execute_returns [OF demo_laws(1), of demo_message True "Some demo_host" ZVMC_SHANGHAI demo_code]
    by (auto simp: demo_gas returns_def)
  then obtain res h' ns where
    r: "execute_tracing demo_platform (Some demo_host) ZVMC_SHANGHAI demo_message demo_code = Some ((res, h'), ns)"
    using execute_tracing_fst [of demo_platform "Some demo_host" ZVMC_SHANGHAI demo_message demo_code True]
    by (cases "execute_tracing demo_platform (Some demo_host) ZVMC_SHANGHAI demo_message demo_code") auto
  show ?thesis using trace_is_well_formed [OF demo_laws(1) _ _ r] r by (auto simp: demo_gas demo_length)
qed

text \<open>C36: for an execution with arbitrarily nested executions the histogram tracer writes, at the end
  of each of them, the number of its own instructions by opcode, without those of the executions
  nested in it, and it is left as it was before.\<close>

theorem histogram_counts_own_instructions:
  assumes "session_ok s"
  shows "notify_all L (notifications s) [HistogramTracer []] os =
     Some ([HistogramTracer []], session_reports L s os)"
  by (rule session_reports_all(1) [OF assms])

theorem histogram_counts_own_instructions_witness:
  "notify_all demo_trace_lib (notifications demo_session) [HistogramTracer []] demo_stream =
   Some ([HistogramTracer []], session_reports demo_trace_lib demo_session demo_stream)"
  by (rule histogram_counts_own_instructions) (simp add: demo_session_def demo_code_def Let_def)

text \<open>After any sequence of options every tracer of a VM is idle, and computed goto is used only
  where it is supported.\<close>

lemma vm_options_invariant:
  assumes "vm_reachable supported s"
  shows "list_all tracer_idle (vm_tracers (fst s)) \<and> (if vm_cgoto (fst s) then supported else True)"
  using vm_reachable_idle [OF assms] by (auto simp: list_all_iff)

text \<open>C37: whatever options a VM was given, as long as it runs the Baseline interpreter its result and
  its effect on the host are those of the plain switch loop without tracers; an option that is
  refused changes neither the VM nor its output stream.\<close>

theorem vm_options_are_neutral:
  assumes "vm_execute_ptr vm = Baseline_execute" and "set_option supported n v (vm, cerr) = (res, vm', cerr')"
    and "n \<noteq> Some ''advanced''"
  shows "map_option fst (vm_execute P vm' h r m code) = execute P False h r m code \<and>
    (if res = ZVMC_SET_OPTION_SUCCESS then True else vm' = vm \<and> cerr' = cerr)"
proof -
  have "vm_execute_ptr vm' = Baseline_execute"
    using assms by (auto simp: set_option_def add_tracer_def Let_def split: if_splits option.splits prod.splits)
  then show ?thesis using vm_execute_baseline [of vm'] set_option_refused [OF assms(2)] by auto
qed

theorem vm_options_are_neutral_witness:
  "map_option fst (vm_execute demo_platform (fst (snd (set_option True (Some ''cgoto'') (Some ''no'')
       (demo_vm, demo_stream)))) (Some demo_host) ZVMC_SHANGHAI demo_message demo_code)
   = execute demo_platform False (Some demo_host) ZVMC_SHANGHAI demo_message demo_code"
proof -
  obtain r vm' c where o: "set_option True (Some ''cgoto'') (Some ''no'') (demo_vm, demo_stream)
      = (r, vm', c)" using prod_cases3 by blast
  show ?thesis
    using vm_options_are_neutral [OF demo_baseline o,
        of demo_platform "Some demo_host" ZVMC_SHANGHAI demo_message demo_code] o by simp
qed

section \<open>The host\<close>

text \<open>C32: a call of the host with the Baseline interpreter gives back between zero gas and the gas of
  the message, so that the host keeps the contract the interpreters rely on.\<close>

theorem host_call_gas_bounds:
  assumes "vm_execute_ptr vm = Baseline_execute" and "0 \<le> gas m" and "host_calls L vm n H m = Some (res, H')"
  shows "0 \<le> res_gas_left res \<and> res_gas_left res \<le> gas m"
  by (rule host_calls_gas [OF assms])

theorem host_call_gas_bounds_witness:
  "\<exists>res H'. host_calls demo_library demo_vm (Suc 1024) demo_host demo_call = Some (res, H') \<and>
     0 \<le> res_gas_left res \<and> res_gas_left res \<le> 100"
proof -
  obtain res H' where r: "host_calls demo_library demo_vm (Suc 1024) demo_host demo_call = Some (res, H')"
    using demo_call_runs by blast
  show ?thesis using host_call_gas_bounds [OF demo_baseline _ r] r by (auto simp: demo_call_def)
qed

text \<open>C4: a call of the host, with all the calls nested in it, refines the abstract ledger: what it
  does to the world is a sequence of elementary ledger steps, some of which a failed message has
  taken back, and no observable step when the message is static; the refund of the result is what
  the storage writes among the steps earned.  The levels of nesting that the model provides are
  never used up.\<close>

theorem host_call_refines_ledger:
  assumes "vm_execute_ptr vm = Baseline_execute" and "host_calls L vm n H m = Some (res, H')"
    and "0 \<le> gas m" and "0 \<le> depth m" "depth m \<le> 1024" and "1025 \<le> int n + depth m" and "static_ok m"
  shows "ledger (is_static m) H (res_gas_refund res) H' \<and> out_of_depth H' = out_of_depth H"
  using host_calls_ledger [OF assms] ledger_env by (auto simp: env_kept_def)

theorem host_call_refines_ledger_witness:
  "\<exists>res H'. host_calls demo_library demo_vm (Suc 1024) demo_host demo_call = Some (res, H') \<and>
     ledger (is_static demo_call) demo_host (res_gas_refund res) H'"
proof -
  obtain res H' where r: "host_calls demo_library demo_vm (Suc 1024) demo_host demo_call = Some (res, H')"
    using demo_call_runs by blast
  show ?thesis using host_call_refines_ledger [OF demo_baseline r _ _ _ _ demo_call_static_ok(1)] r
    by (auto simp: demo_call_def)
qed

text \<open>C5: no call, whatever code it runs, creates or destroys funds: the sum of all balances is the
  same before and after.\<close>

theorem host_call_conserves_funds:
  assumes "vm_execute_ptr vm = Baseline_execute" and "host_calls L vm n H m = Some (res, H')"
    and "0 \<le> gas m" and "0 \<le> depth m" "depth m \<le> 1024" and "1025 \<le> int n + depth m" and "static_ok m"
  shows "total_balance (m_state H') = total_balance (m_state H)"
  using ledger_funds [OF host_calls_ledger [OF assms]] by (simp add: funds_kept_def)

theorem host_call_conserves_funds_witness:
  "\<exists>res H'. host_calls demo_library demo_vm (Suc 1024) demo_host demo_call = Some (res, H') \<and>
     total_balance (m_state H') = total_balance (m_state demo_host)"
proof -
  obtain res H' where r: "host_calls demo_library demo_vm (Suc 1024) demo_host demo_call = Some (res, H')"
    using demo_call_runs by blast
  show ?thesis using host_call_conserves_funds [OF demo_baseline r _ _ _ _ demo_call_static_ok(1)] r
    by (auto simp: demo_call_def demo_host_def)
qed

text \<open>C6: a static call, whatever code it runs, changes no balance, nonce, code or storage value of
  any account, and emits no log.\<close>

theorem static_call_is_unobservable:
  assumes "vm_execute_ptr vm = Baseline_execute" and "host_calls L vm n H m = Some (res, H')"
    and "0 \<le> gas m" and "0 \<le> depth m" "depth m \<le> 1024" and "1025 \<le> int n + depth m" and "static_ok m"
    and "is_static m"
  shows "m_logs H' = m_logs H \<and>
    (\<forall>a. same_account (account_or_empty (m_state H) a) (account_or_empty (m_state H') a))"
  using static_ledger [OF host_calls_ledger [OF assms(1-7)] assms(8)] by (simp add: quiet_def same_state_def)

theorem static_call_is_unobservable_witness:
  "\<exists>res H'. host_calls demo_library demo_vm (Suc 1024) demo_host demo_static_call = Some (res, H') \<and>
     m_logs H' = m_logs demo_host"
proof -
  obtain res H' where r: "host_calls demo_library demo_vm (Suc 1024) demo_host demo_static_call = Some (res, H')"
    using demo_static_call_runs by blast
  show ?thesis using static_call_is_unobservable [OF demo_baseline r _ _ _ _ demo_call_static_ok(2)] r
    by (auto simp: demo_static_call_def demo_call_def is_static_def ZVMC_STATIC_def)
qed

text \<open>C7: a nested call that fails, whatever code it ran, leaves balances, nonces, codes, storage
  values and logs as they were.\<close>

theorem failed_call_leaves_no_trace:
  assumes "vm_execute_ptr vm = Baseline_execute" and "host_calls L vm n H m = Some (res, H')"
    and "res_status res \<noteq> ZVMC_SUCCESS" and "0 \<le> gas m" and "0 < depth m" "depth m \<le> 1024"
    and "1025 \<le> int n + depth m" and "static_ok m" and "\<not> creates m"
  shows "m_logs H' = m_logs H \<and>
    (\<forall>a. same_account (account_or_empty (m_state H) a) (account_or_empty (m_state H') a))"
  using host_calls_failure [OF assms] by (simp add: quiet_def same_state_def)

theorem failed_call_leaves_no_trace_witness:
  "\<exists>res H'. host_calls demo_library demo_vm (Suc 1024) demo_host demo_poor_call = Some (res, H') \<and>
     m_logs H' = m_logs demo_host"
proof -
  obtain res H' where r: "host_calls demo_library demo_vm (Suc 1024) demo_host demo_poor_call = Some (res, H')"
    and s: "res_status res = ZVMC_OUT_OF_GAS"
    using demo_poor_call_runs by blast
  have f: "res_status res \<noteq> ZVMC_SUCCESS" by (simp add: s)
  show ?thesis using failed_call_leaves_no_trace [OF demo_baseline r f _ _ _ _ demo_call_static_ok(3)] r
    by (auto simp: demo_poor_call_def demo_call_def empty_message_def)
qed

text \<open>No call makes an account disappear or a nonce smaller, not even a failed one.\<close>

lemma host_call_nonces_grow:
  assumes "vm_execute_ptr vm = Baseline_execute" and "host_calls L vm n H m = Some (res, H')"
    and "0 \<le> gas m" and "0 \<le> depth m" "depth m \<le> 1024" and "1025 \<le> int n + depth m" and "static_ok m"
  shows "dom (m_state H) \<subseteq> dom (m_state H') \<and>
    (\<forall>a. nonce (account_or_empty (m_state H) a) \<le> nonce (account_or_empty (m_state H') a))"
  using ledger_nonces [OF host_calls_ledger [OF assms]] by (simp add: nonces_grow_def)

text \<open>C21: net gas metering.  The total of costs minus refunds that the interpreter books for any
  sequence of writes to a storage slot, with the statuses that the host returns, is 100 gas for
  each write and a price that depends only on the original, the first and the last value: what
  happens in between does not matter.\<close>

theorem storage_gas_is_path_independent:
  assumes "m_state H a = Some acc"
  shows "\<exists>H' acc'. write_all r a k vs H = Some (100 * int (length vs)
      + slot_price (sv_original (slot k acc)) (last (sv_current (slot k acc) # vs))
      - slot_price (sv_original (slot k acc)) (sv_current (slot k acc)), H') \<and>
    m_state H' a = Some acc' \<and> sv_current (slot k acc') = last (sv_current (slot k acc) # vs)"
  by (rule write_all_net [OF assms])

theorem storage_gas_is_path_independent_witness:
  "\<exists>H'. write_all ZVMC_SHANGHAI 77 1 [5, 0, 7] demo_host = Some (20200, H')"
proof -
  have "m_state demo_host 77 = Some demo_account" by (simp add: demo_host_def)
  from storage_gas_is_path_independent [OF this, of ZVMC_SHANGHAI 1 "[5, 0, 7]"]
  show ?thesis
    by (auto simp: slot_price_def slot_def demo_account_def empty_account_def empty_slot_def)
qed

text \<open>C34: the RLP encoder is injective: a decoder of the RLP format gets back every tree of byte
  strings that the encoder accepts, and exactly the bytes that follow its encoding.\<close>

theorem rlp_round_trip:
  assumes "encode_item x = Some bs"
  shows "decode_item (need x) (bs @ bs') = Some (x, bs')"
  by (rule decode_encode [OF assms order_refl])

theorem rlp_round_trip_witness:
  "\<exists>bs. encode_item (Lst [Str [1, 2], Lst []]) = Some bs \<and>
     decode_item (need (Lst [Str [1, 2], Lst []])) (bs @ [9]) = Some (Lst [Str [1, 2], Lst []], [9])"
proof -
  have "\<exists>bs. encode_item (Lst [Str [1, 2], Lst []]) = Some bs"
    by (simp add: encode_bytes_def encode_container_def wrap_list_def encode_length_def)
  then obtain bs where b: "encode_item (Lst [Str [1, 2], Lst []]) = Some bs" by blast
  show ?thesis using rlp_round_trip [OF b, of "[9]"] b by blast
qed

text \<open>The table of the precompiles is shifted against their numbers: the identity function is
  found at address 3, a call of address 4, the number of the identity function, does not succeed
  on an empty cache, and a call of address 8, the number of the pairing check, goes through a
  null pointer.\<close>

lemma precompile_table_is_shifted:
  "(\<exists>cache'. call_precompile keccak256 r (m\<lparr>code_address := 3, gas := 100, input_data := [1, 2]\<rparr>) (\<lambda>_. Map.empty)
     = Some (Some (make_result ZVMC_SUCCESS 82 0 [1, 2]), cache')) \<and>
   call_precompile keccak256 r (m\<lparr>code_address := of_nat PrecompileId_identity\<rparr>) (\<lambda>_. Map.empty)
     \<noteq> Some (Some (make_result ZVMC_SUCCESS g 0 out), cache) \<and>
   call_precompile keccak256 r (m\<lparr>code_address := 8\<rparr>) cache = None"
proof (intro conjI)
  note defs = call_precompile_def NumPrecompiles_def precompile_traits_def Let_def
  show "\<exists>cache'. call_precompile keccak256 r (m\<lparr>code_address := 3, gas := 100, input_data := [1, 2]\<rparr>) (\<lambda>_. Map.empty)
     = Some (Some (make_result ZVMC_SUCCESS 82 0 [1, 2]), cache')"
    by (simp add: defs identity_analyze_def identity_execute_def cost_per_input_word_def
        input_words_def cache_find_def)
  show "call_precompile keccak256 r (m\<lparr>code_address := of_nat PrecompileId_identity\<rparr>) (\<lambda>_. Map.empty)
     \<noteq> Some (Some (make_result ZVMC_SUCCESS g 0 out), cache)"
    by (cases "expmod_analyze (input_data m) r")
       (simp_all add: defs PrecompileId_identity_def dummy_execute_def cache_find_def make_result_def)
  show "call_precompile keccak256 r (m\<lparr>code_address := 8\<rparr>) cache = None"
    by (simp add: defs)
qed

text \<open>The instruction tracer leaves its stream in hexadecimal at the end of an execution, so that
  a histogram tracer that follows it on the same stream prints the number ten as \<open>a\<close>.\<close>

lemma instruction_tracer_leaves_hex:
  "\<exists>os'. instr_execution_end L res (c # cs) os = Some (cs, os') \<and> put_num 32 10 os' = put ''a'' os'"
proof -
  have ten: "num_str 16 10 = ''a''" by (subst num_str.simps) (simp add: eval_nat_numeral)
  have hex: "o_hex (put s x) = o_hex x" "o_hex (put_num w n x) = o_hex x" "o_hex (set_base b x) = b" for s x w n b
    by (simp_all add: put_def put_num_def set_base_def)
  show ?thesis by (simp add: Let_def hex put_num_def [of 32] ten)
qed

end
